(* ===== verification/Py_Prelude.thy ===== *)
theory Py_Prelude
  imports Main "HOL-Library.AList" "HOL-Library.Sublist"
begin

text \<open>
  Shared base of the development: the exceptions of the Python tools as a datatype, computations
  that may raise as values of a sum type, ordered dictionaries as association lists, and the
  generic lemmas on lists, options and dictionaries that the component theories use.

  Collections: \<open>py_str\<close> holds the equations of the string library, \<open>py_res\<close> the equations of
  computations that may raise, \<open>py_dict\<close> those of ordered dictionaries, \<open>cap_defs\<close> the constants
  of the capability encodings.
\<close>

named_theorems py_str "equations of the Python string model"
named_theorems py_res "equations of computations that may raise"
named_theorems py_dict "equations of ordered dictionaries"
named_theorems cap_defs "constants of the capability encodings"

section \<open>Exceptions\<close>

text \<open>
  One constructor per exception class that the modelled code raises or lets escape. Classes whose
  message the source builds itself carry that message.
\<close>

datatype py_exn =
    ValueError string
  | RuntimeError string
  | IndexError
  | KeyError string
  | TypeError
  | AttributeError
  | AssertionError
  | ZeroDivisionError
  | NameError
  | FileNotFoundError string
  | OSError string
  | YAMLError string
  | ConfigException string
  | ReqErr string string
  | GenError string
  | ArgumentTypeError string
  | PackageNotFoundError string
  | ImportError string
  | CalledProcessError int
  | UnboundLocalError
  | SystemExit int
  | SystemExitMsg string

text \<open>A computation that may raise: \<open>Inl\<close> is the exception, \<open>Inr\<close> the value.\<close>

type_synonym 'a py_res = "py_exn + 'a"

definition bind_res :: "'a py_res \<Rightarrow> ('a \<Rightarrow> 'b py_res) \<Rightarrow> 'b py_res" where
  "bind_res m f = (case m of Inl e \<Rightarrow> Inl e | Inr x \<Rightarrow> f x)"

lemma bind_res_simps [simp, py_res]:
  "bind_res (Inl e) f = Inl e"
  "bind_res (Inr x) f = f x"
  by (simp_all add: bind_res_def)

lemma bind_res_Inr_iff [py_res]:
  "bind_res m f = Inr y \<longleftrightarrow> (\<exists>x. m = Inr x \<and> f x = Inr y)"
  by (cases m) auto

lemma bind_res_Inl_iff [py_res]:
  "bind_res m f = Inl e \<longleftrightarrow> m = Inl e \<or> (\<exists>x. m = Inr x \<and> f x = Inl e)"
  by (cases m) auto

lemma bind_res_assoc [py_res]:
  "bind_res (bind_res m f) g = bind_res m (\<lambda>x. bind_res (f x) g)"
  by (cases m) auto

lemma bind_total:
  "\<exists>i. m = Inr i \<Longrightarrow> (\<And>i. m = Inr i \<Longrightarrow> \<exists>x. f i = Inr x) \<Longrightarrow> \<exists>x. bind_res m f = Inr x"
  by auto

text \<open>A loop over a list whose body may raise: the first exception ends it.\<close>

fun map_res :: "('a \<Rightarrow> 'b py_res) \<Rightarrow> 'a list \<Rightarrow> 'b list py_res" where
  "map_res f [] = Inr []"
| "map_res f (x # xs) = bind_res (f x) (\<lambda>y. bind_res (map_res f xs) (\<lambda>ys. Inr (y # ys)))"

fun fold_res :: "('a \<Rightarrow> 's \<Rightarrow> 's py_res) \<Rightarrow> 'a list \<Rightarrow> 's \<Rightarrow> 's py_res" where
  "fold_res f [] s = Inr s"
| "fold_res f (x # xs) s = bind_res (f x s) (fold_res f xs)"

lemma map_res_length: "map_res f xs = Inr ys \<Longrightarrow> length ys = length xs"
  by (induction xs arbitrary: ys) (auto simp: py_res)

lemma map_res_Inr_iff:
  "map_res f xs = Inr ys \<longleftrightarrow> list_all2 (\<lambda>x y. f x = Inr y) xs ys"
  by (induction xs arbitrary: ys) (auto simp: py_res list_all2_Cons1)

lemma map_res_total: "(\<And>x. x \<in> set xs \<Longrightarrow> f x = Inr (g x)) \<Longrightarrow> map_res f xs = Inr (map g xs)"
  by (induction xs) auto

lemma fold_res_append:
  "fold_res f (xs @ ys) s = bind_res (fold_res f xs s) (fold_res f ys)"
proof (induction xs arbitrary: s)
  case (Cons x xs)
  then show ?case by (cases "f x s") auto
qed simp

lemma fold_res_invariant:
  assumes "fold_res f xs s = Inr t" and "I s"
    and "\<And>x s t. x \<in> set xs \<Longrightarrow> I s \<Longrightarrow> f x s = Inr t \<Longrightarrow> I t"
  shows "I t"
  using assms by (induction xs arbitrary: s) (auto simp: py_res)

text \<open>Python indexing with a non-negative index: past the end it raises \<open>IndexError\<close>.\<close>

definition nth_res :: "'a list \<Rightarrow> nat \<Rightarrow> 'a py_res" where
  "nth_res xs i = (if i < length xs then Inr (xs ! i) else Inl IndexError)"

lemma nth_res_Inr_iff [simp]: "nth_res xs i = Inr x \<longleftrightarrow> i < length xs \<and> xs ! i = x"
  by (auto simp: nth_res_def)

lemma nth_res_Cons [simp]:
  "nth_res (x # xs) 0 = Inr x"
  "nth_res (x # xs) (Suc i) = nth_res xs i"
  by (simp_all add: nth_res_def)

lemma nth_res_Nil [simp]: "nth_res [] i = Inl IndexError"
  by (simp add: nth_res_def)

lemma nth_res_numeral [simp]: "nth_res (x # xs) (numeral n) = nth_res xs (pred_numeral n)"
  by (simp add: numeral_eq_Suc)

section \<open>Ordered dictionaries\<close>

text \<open>
  A Python dict keeps insertion order; storing under a present key keeps the key's place, storing
  under a new key appends it. \<^const>\<open>AList.update\<close> does exactly that on an association list, and
  \<^const>\<open>map_of\<close> is the lookup. The invariant is that no key occurs twice.
\<close>

type_synonym ('k, 'v) dict = "('k \<times> 'v) list"

definition dict_ok :: "('k, 'v) dict \<Rightarrow> bool" where
  "dict_ok d \<longleftrightarrow> distinct (map fst d)"

definition dict_set :: "'k \<Rightarrow> 'v \<Rightarrow> ('k, 'v) dict \<Rightarrow> ('k, 'v) dict" where
  "dict_set k v d = AList.update k v d"

definition dict_get :: "('k, 'v) dict \<Rightarrow> 'k \<Rightarrow> 'v option" where
  "dict_get d k = map_of d k"

definition dict_has :: "('k, 'v) dict \<Rightarrow> 'k \<Rightarrow> bool" where
  "dict_has d k \<longleftrightarrow> k \<in> set (map fst d)"

definition dict_del :: "'k \<Rightarrow> ('k, 'v) dict \<Rightarrow> ('k, 'v) dict" where
  "dict_del k d = filter (\<lambda>(k', _). k' \<noteq> k) d"

lemma dict_get_simps [simp, py_dict]:
  "dict_get [] k = None"
  "dict_get ((k', v) # d) k = (if k = k' then Some v else dict_get d k)"
  by (simp_all add: dict_get_def)

lemma dict_set_simps [simp, py_dict]:
  "dict_set k v [] = [(k, v)]"
  "dict_set k v ((k', v') # d) = (if k' = k then (k', v) # d else (k', v') # dict_set k v d)"
  by (auto simp: dict_set_def)

lemma dict_has_simps [simp, py_dict]:
  "dict_has [] k = False"
  "dict_has ((k', v) # d) k = (k = k' \<or> dict_has d k)"
  by (auto simp: dict_has_def)

lemma dict_get_set [simp, py_dict]:
  "dict_get (dict_set k v d) k' = (if k' = k then Some v else dict_get d k')"
  by (simp add: dict_get_def dict_set_def update_conv)

lemma dict_get_del [simp, py_dict]:
  "dict_get (dict_del k d) k' = (if k' = k then None else dict_get d k')"
  by (induction d) (auto simp: dict_del_def)

lemma dict_ok_Nil [simp, py_dict]: "dict_ok []"
  by (simp add: dict_ok_def)

lemma dict_ok_set [simp, py_dict, intro]: "dict_ok d \<Longrightarrow> dict_ok (dict_set k v d)"
  by (simp add: dict_ok_def dict_set_def distinct_update)

lemma dict_ok_del [simp, py_dict, intro]: "dict_ok d \<Longrightarrow> dict_ok (dict_del k d)"
  unfolding dict_ok_def dict_del_def by (induction d) auto

lemma dict_has_get [py_dict]: "dict_has d k \<longleftrightarrow> dict_get d k \<noteq> None"
  by (induction d) auto

lemma dict_keys_set [py_dict]:
  "map fst (dict_set k v d) = (if dict_has d k then map fst d else map fst d @ [k])"
  by (induction d) auto

lemma dict_get_SomeD: "dict_get d k = Some v \<Longrightarrow> (k, v) \<in> set d"
  by (simp add: dict_get_def map_of_SomeD)

lemma dict_get_member: "dict_ok d \<Longrightarrow> (k, v) \<in> set d \<Longrightarrow> dict_get d k = Some v"
  by (simp add: dict_get_def dict_ok_def)

text \<open>
  The contract a dictionary gives its clients: lookups after stores and deletions, and the
  invariant kept by every operation.
\<close>

locale dictionary =
  fixes empty :: 'd
    and store :: "'k \<Rightarrow> 'v \<Rightarrow> 'd \<Rightarrow> 'd"
    and remove :: "'k \<Rightarrow> 'd \<Rightarrow> 'd"
    and look :: "'d \<Rightarrow> 'k \<Rightarrow> 'v option"
    and ok :: "'d \<Rightarrow> bool"
  assumes look_empty: "look empty k = None"
    and look_store: "look (store k v d) k' = (if k' = k then Some v else look d k')"
    and look_remove: "look (remove k d) k' = (if k' = k then None else look d k')"
    and ok_empty: "ok empty"
    and ok_store: "ok d \<Longrightarrow> ok (store k v d)"
    and ok_remove: "ok d \<Longrightarrow> ok (remove k d)"
begin

text \<open>Storing a list of pairs from left to right: the last store for a key wins.\<close>

lemma look_fold_store:
  "look (fold (\<lambda>(k, v). store k v) ps d) k =
     (case map_of (rev ps) k of None \<Rightarrow> look d k | Some v \<Rightarrow> Some v)"
  by (induction ps arbitrary: d) (auto simp: look_store map_add_def split: option.splits)

lemma ok_fold_store: "ok d \<Longrightarrow> ok (fold (\<lambda>(k, v). store k v) ps d)"
  by (induction ps arbitrary: d) (auto simp: ok_store)

lemma look_store_remove: "look (store k v (remove k d)) = look (store k v d)"
  by (rule ext) (simp add: look_store look_remove)

end

interpretation pd: dictionary "[] :: ('k, 'v) dict" dict_set dict_del dict_get dict_ok
  by unfold_locales auto

section \<open>Lists\<close>

lemma takeWhile_append_all: "\<forall>x \<in> set xs. P x \<Longrightarrow> takeWhile P (xs @ ys) = xs @ takeWhile P ys"
  by (simp add: takeWhile_append2)

lemma dropWhile_append_all: "\<forall>x \<in> set xs. P x \<Longrightarrow> dropWhile P (xs @ ys) = dropWhile P ys"
  by (simp add: dropWhile_append2)

lemma last_drop_length: "length xs = Suc n \<Longrightarrow> drop n xs = [last xs]"
  by (induction n arbitrary: xs) (auto simp: length_Suc_conv)

lemma list_cases3:
  obtains "xs = []" | x where "xs = [x]" | x y where "xs = [x, y]" | x y z zs where "xs = x # y # z # zs"
  by (cases xs; cases "tl xs"; cases "tl (tl xs)") auto

end
