(* ===== verification/Py_Str.thy ===== *)
theory Py_Str
  imports Py_Prelude
begin

text \<open>
  The part of Python's string library that the tools use, on strings as lists of characters (code
  points below 256): character classes, stripping, splitting, joining, searching, replacing,
  integer parsing and printing, and the representation of a string. Every function computes what
  the Python method of the same name returns; where Python raises, the result is an option.
\<close>

section \<open>Characters\<close>

definition code :: "char \<Rightarrow> nat" where
  "code c = of_char c"

definition is_space :: "char \<Rightarrow> bool" where
  "is_space c = (let n = code c in 9 \<le> n \<and> n \<le> 13 \<or> 28 \<le> n \<and> n \<le> 32 \<or> n = 133 \<or> n = 160)"

definition is_digit :: "char \<Rightarrow> bool" where
  "is_digit c = (let n = code c in 48 \<le> n \<and> n \<le> 57)"

definition is_word :: "char \<Rightarrow> bool" where
  "is_word c = (let n = code c in
     48 \<le> n \<and> n \<le> 57 \<or> 65 \<le> n \<and> n \<le> 90 \<or> n = 95 \<or> 97 \<le> n \<and> n \<le> 122 \<or>
     n \<in> {170, 178, 179, 181, 185, 186, 188, 189, 190} \<or>
     192 \<le> n \<and> n \<le> 214 \<or> 216 \<le> n \<and> n \<le> 246 \<or> 248 \<le> n)"

text \<open>The value of a digit in bases up to 36, as \<^verbatim>\<open>int\<close> reads it.\<close>

definition digit_val :: "char \<Rightarrow> nat option" where
  "digit_val c = (let n = code c in
     if 48 \<le> n \<and> n \<le> 57 then Some (n - 48)
     else if 65 \<le> n \<and> n \<le> 90 then Some (n - 55)
     else if 97 \<le> n \<and> n \<le> 122 then Some (n - 87)
     else None)"

definition digit_char :: "nat \<Rightarrow> char" where
  "digit_char n = (if n < 10 then char_of (n + 48) else char_of (n + 87))"

lemma code_char_of [simp]: "n < 256 \<Longrightarrow> code (char_of n) = n"
  by (simp add: code_def)

lemma digit_val_char [simp]: "n < 36 \<Longrightarrow> digit_val (digit_char n) = Some n"
  by (auto simp: digit_val_def digit_char_def Let_def)

lemma digit_char_not_special:
  assumes "n < 16"
  shows "digit_char n \<noteq> CHR ''_''" "\<not> is_space (digit_char n)"
    "digit_char n \<noteq> CHR ''-''" "digit_char n \<noteq> CHR ''+''" "digit_char n \<noteq> CHR ''x''"
    "digit_char n \<noteq> CHR ''X''"
proof -
  have "code (digit_char n) \<in> {48..57} \<union> {97..102}"
    using assms by (auto simp: digit_char_def)
  moreover have "code (CHR ''_'') = 95" "code (CHR ''-'') = 45" "code (CHR ''+'') = 43"
    "code (CHR ''x'') = 120" "code (CHR ''X'') = 88"
    by (simp_all add: code_def)
  ultimately show "digit_char n \<noteq> CHR ''_''" "\<not> is_space (digit_char n)"
    "digit_char n \<noteq> CHR ''-''" "digit_char n \<noteq> CHR ''+''" "digit_char n \<noteq> CHR ''x''"
    "digit_char n \<noteq> CHR ''X''"
    by (auto simp: is_space_def Let_def)
qed

section \<open>Stripping\<close>

definition lstrip_of :: "(char \<Rightarrow> bool) \<Rightarrow> string \<Rightarrow> string" where
  "lstrip_of p s = dropWhile p s"

definition rstrip_of :: "(char \<Rightarrow> bool) \<Rightarrow> string \<Rightarrow> string" where
  "rstrip_of p s = rev (dropWhile p (rev s))"

definition strip_of :: "(char \<Rightarrow> bool) \<Rightarrow> string \<Rightarrow> string" where
  "strip_of p s = rstrip_of p (lstrip_of p s)"

abbreviation lstrip :: "string \<Rightarrow> string" where "lstrip \<equiv> lstrip_of is_space"
abbreviation rstrip :: "string \<Rightarrow> string" where "rstrip \<equiv> rstrip_of is_space"
abbreviation strip :: "string \<Rightarrow> string" where "strip \<equiv> strip_of is_space"

text \<open>The argument of \<^verbatim>\<open>s.strip('abc')\<close>: the set of characters to drop.\<close>

definition one_of :: "string \<Rightarrow> char \<Rightarrow> bool" where
  "one_of cs c \<longleftrightarrow> c \<in> set cs"

lemma strip_of_none: "\<forall>c \<in> set s. \<not> p c \<Longrightarrow> strip_of p s = s"
proof -
  assume a: "\<forall>c \<in> set s. \<not> p c"
  have "dropWhile p s = s"
    using a by (simp add: dropWhile_eq_self_iff)
  moreover have "dropWhile p (rev s) = rev s"
    using a by (cases s rule: rev_cases) (auto simp: dropWhile_eq_self_iff)
  ultimately show ?thesis by (simp add: strip_of_def rstrip_of_def lstrip_of_def)
qed

section \<open>Joining and splitting\<close>

fun py_join :: "string \<Rightarrow> string list \<Rightarrow> string" where
  "py_join sep [] = []"
| "py_join sep [x] = x"
| "py_join sep (x # y # ys) = x @ sep @ py_join sep (y # ys)"

text \<open>\<^verbatim>\<open>s.split(c)\<close> for a separator of one character.\<close>

fun split_char :: "char \<Rightarrow> string \<Rightarrow> string list" where
  "split_char c [] = [[]]"
| "split_char c (x # xs) =
     (if x = c then [] # split_char c xs
      else (case split_char c xs of [] \<Rightarrow> [[x]] | w # ws \<Rightarrow> (x # w) # ws))"

lemma split_char_ne [simp]: "split_char c s \<noteq> []"
  by (induction s) (auto split: list.splits)

lemma split_char_no_sep: "w \<in> set (split_char c s) \<Longrightarrow> c \<notin> set w"
  by (induction s arbitrary: w) (auto split: if_splits list.splits)

lemma py_join_Cons: "xs \<noteq> [] \<Longrightarrow> py_join sep (x # xs) = x @ sep @ py_join sep xs"
  by (cases xs) auto

lemma join_split_char: "py_join [c] (split_char c s) = s"
proof (induction s)
  case (Cons x xs)
  then show ?case
    by (cases "split_char c xs") (auto simp: py_join_Cons, (cases "tl (split_char c xs)"; simp)+)
qed simp

lemma split_char_none: "c \<notin> set s \<Longrightarrow> split_char c s = [s]"
  by (induction s) auto

lemma split_char_append:
  "c \<notin> set w \<Longrightarrow> split_char c (w @ c # s) = w # split_char c s"
  by (induction w) auto

lemma split_char_join:
  "xs \<noteq> [] \<Longrightarrow> \<forall>x \<in> set xs. c \<notin> set x \<Longrightarrow> split_char c (py_join [c] xs) = xs"
proof (induction xs)
  case (Cons x xs)
  then show ?case
    by (cases "xs = []") (auto simp: py_join_Cons split_char_none split_char_append)
qed simp

lemma length_split_char: "length (split_char c s) = Suc (count_list s c)"
  by (induction s) (auto split: list.splits)

text \<open>\<^verbatim>\<open>s.split()\<close>: the maximal runs of non-space characters.\<close>

function py_words :: "string \<Rightarrow> string list" where
  "py_words s = (let t = dropWhile is_space s in
     if t = [] then [] else takeWhile (\<lambda>c. \<not> is_space c) t # py_words (dropWhile (\<lambda>c. \<not> is_space c) t))"
  by pat_completeness auto
termination
proof (relation "measure length", simp)
  fix s t :: string
  assume t: "t = dropWhile is_space s" and "t \<noteq> []"
  then have "\<not> is_space (hd t)" using hd_dropWhile [of is_space s] by simp
  with \<open>t \<noteq> []\<close> obtain c cs where tc: "t = c # cs" and "\<not> is_space c"
    by (cases t) auto
  then have "length (dropWhile (\<lambda>c. \<not> is_space c) t) < length t"
    by (simp add: length_dropWhile_le less_Suc_eq_le)
  also have "length t \<le> length s" unfolding t by (rule length_dropWhile_le)
  finally show "(dropWhile (\<lambda>c. \<not> is_space c) t, s) \<in> measure length" by simp
qed

declare py_words.simps [simp del]

section \<open>Searching and replacing\<close>

text \<open>The first place where \<open>sub\<close> occurs in \<open>s\<close>.\<close>

fun find_sub :: "string \<Rightarrow> string \<Rightarrow> nat option" where
  "find_sub sub [] = (if sub = [] then Some 0 else None)"
| "find_sub sub (c # cs) = (if prefix sub (c # cs) then Some 0 else map_option Suc (find_sub sub cs))"

definition contains :: "string \<Rightarrow> string \<Rightarrow> bool" where
  "contains sub s \<longleftrightarrow> find_sub sub s \<noteq> None"

lemma find_sub_None: "find_sub sub s = None \<longleftrightarrow> \<not> sublist sub s"
  by (induction s) (auto simp: sublist_Cons_right)

lemma contains_sublist: "contains sub s \<longleftrightarrow> sublist sub s"
  by (auto simp: contains_def find_sub_None)

lemma find_sub_Some:
  "find_sub sub s = Some n \<Longrightarrow> \<exists>post. s = take n s @ sub @ post \<and> n \<le> length s"
proof (induction s arbitrary: n)
  case (Cons c cs)
  show ?case
  proof (cases "prefix sub (c # cs)")
    case True
    with Cons.prems show ?thesis by (auto simp: prefix_def)
  next
    case False
    with Cons.prems obtain m where "find_sub sub cs = Some m" "n = Suc m" by auto
    with Cons.IH show ?thesis by fastforce
  qed
qed (auto split: if_splits)

text \<open>\<^verbatim>\<open>s.rfind(c)\<close> for one character: the last index, \<open>None\<close> for -1.\<close>

fun rfind_char :: "char \<Rightarrow> string \<Rightarrow> nat option" where
  "rfind_char c [] = None"
| "rfind_char c (x # xs) =
     (case rfind_char c xs of Some i \<Rightarrow> Some (Suc i) | None \<Rightarrow> if x = c then Some 0 else None)"

lemma rfind_char_None: "rfind_char c s = None \<longleftrightarrow> c \<notin> set s"
  by (induction s) (auto split: option.splits if_splits)

lemma rfind_char_Some:
  "rfind_char c s = Some i \<Longrightarrow> i < length s \<and> s ! i = c \<and> c \<notin> set (drop (Suc i) s)"
  by (induction s arbitrary: i)
     (auto split: option.splits if_splits simp: rfind_char_None)

lemma rfind_char_append: "c \<notin> set t \<Longrightarrow> rfind_char c (s @ c # t) = Some (length s)"
proof (induction s)
  case Nil
  then have "rfind_char c t = None" by (simp add: rfind_char_None)
  then show ?case by simp
qed simp

text \<open>\<^verbatim>\<open>s.split(sep, 1)\<close>: \<open>None\<close> when the separator does not occur.\<close>

definition split_once :: "string \<Rightarrow> string \<Rightarrow> (string \<times> string) option" where
  "split_once sep s =
     (case find_sub sep s of None \<Rightarrow> None
      | Some i \<Rightarrow> Some (take i s, drop (i + length sep) s))"

text \<open>\<^verbatim>\<open>s.rsplit(c, 1)\<close> for one character.\<close>

definition rsplit_once :: "char \<Rightarrow> string \<Rightarrow> (string \<times> string) option" where
  "rsplit_once c s =
     (case rfind_char c s of None \<Rightarrow> None | Some i \<Rightarrow> Some (take i s, drop (Suc i) s))"

lemma rsplit_once_append: "c \<notin> set t \<Longrightarrow> rsplit_once c (s @ c # t) = Some (s, t)"
  by (simp add: rsplit_once_def rfind_char_append)

lemma split_once_eq:
  "split_once sep s = Some (a, b) \<Longrightarrow> s = a @ sep @ b"
proof -
  assume "split_once sep s = Some (a, b)"
  then obtain i where i: "find_sub sep s = Some i" "a = take i s" "b = drop (i + length sep) s"
    by (auto simp: split_once_def split: option.splits)
  from find_sub_Some [OF i(1)] obtain post where p: "s = take i s @ sep @ post" "i \<le> length s"
    by auto
  then have "drop (i + length sep) s = post"
    by (metis append_eq_conv_conj drop_drop length_take min.absorb2 add.commute)
  with i p show ?thesis by simp
qed

text \<open>\<^verbatim>\<open>s.replace(old, new)\<close> for a non-empty \<open>old\<close>: left to right, without overlap.\<close>

function replace_ne :: "string \<Rightarrow> string \<Rightarrow> string \<Rightarrow> string" where
  "replace_ne old new [] = []"
| "replace_ne old new (c # cs) =
     (if old \<noteq> [] \<and> prefix old (c # cs)
      then new @ replace_ne old new (drop (length old) (c # cs))
      else c # replace_ne old new cs)"
  by pat_completeness auto
termination
  by (relation "measure (\<lambda>(old, new, s). length s)") (auto simp: neq_Nil_conv)

definition py_replace :: "string \<Rightarrow> string \<Rightarrow> string \<Rightarrow> string" where
  "py_replace old new s =
     (if old = [] then new @ concat (map (\<lambda>c. c # new) s) else replace_ne old new s)"

lemma replace_ne_absent: "\<not> sublist old s \<Longrightarrow> replace_ne old new s = s"
  by (induction old new s rule: replace_ne.induct) (auto simp: sublist_Cons_right)

lemma py_replace_absent: "\<not> contains old s \<Longrightarrow> py_replace old new s = s"
  by (cases "old = []") (auto simp: py_replace_def contains_sublist replace_ne_absent)

lemma replace_ne_prefix: "old \<noteq> [] \<Longrightarrow> replace_ne old new (old @ s) = new @ replace_ne old new s"
  by (cases old) (simp_all add: prefix_def)

text \<open>The replaced text is gone when neither the replacement nor a join with it can make it again.\<close>

lemma replace_ne_char: "replace_ne [c] new s = concat (map (\<lambda>x. if x = c then new else [x]) s)"
  by (induction s) auto

text \<open>\<^verbatim>\<open>s.count(c)\<close> for one character.\<close>

definition count_char :: "char \<Rightarrow> string \<Rightarrow> nat" where
  "count_char c s = count_list s c"

section \<open>Lines\<close>

definition is_newline :: "char \<Rightarrow> bool" where
  "is_newline c = (let n = code c in 10 \<le> n \<and> n \<le> 13 \<or> 28 \<le> n \<and> n \<le> 30 \<or> n = 133)"

text \<open>\<^verbatim>\<open>s.splitlines()\<close>: a carriage return followed by a line feed is one line end.\<close>

fun splitlines_acc :: "string \<Rightarrow> string \<Rightarrow> string list" where
  "splitlines_acc acc [] = (if acc = [] then [] else [rev acc])"
| "splitlines_acc acc [c] = (if is_newline c then [rev acc] else [rev (c # acc)])"
| "splitlines_acc acc (c # d # s) =
     (if c = CHR 0x0D \<and> d = CHR 0x0A then rev acc # splitlines_acc [] s
      else if is_newline c then rev acc # splitlines_acc [] (d # s)
      else splitlines_acc (c # acc) (d # s))"

definition splitlines :: "string \<Rightarrow> string list" where
  "splitlines s = splitlines_acc [] s"

text \<open>The lines a file object yields, each with its line feed.\<close>

fun file_lines_acc :: "string \<Rightarrow> string \<Rightarrow> string list" where
  "file_lines_acc acc [] = (if acc = [] then [] else [rev acc])"
| "file_lines_acc acc (c # s) =
     (if c = CHR 0x0A then rev (c # acc) # file_lines_acc [] s else file_lines_acc (c # acc) s)"

definition file_lines :: "string \<Rightarrow> string list" where
  "file_lines s = file_lines_acc [] s"

lemma concat_file_lines_acc: "concat (file_lines_acc acc s) = rev acc @ s"
  by (induction acc s rule: file_lines_acc.induct) auto

lemma concat_file_lines: "concat (file_lines s) = s"
  by (simp add: file_lines_def concat_file_lines_acc)

section \<open>Integers\<close>

text \<open>The digits of a numeral: at least one, single underscores between them.\<close>

fun parse_digits :: "nat \<Rightarrow> bool \<Rightarrow> nat \<Rightarrow> string \<Rightarrow> nat option" where
  "parse_digits b prev acc [] = (if prev then Some acc else None)"
| "parse_digits b prev acc (c # cs) =
     (if c = CHR ''_'' then (if prev then parse_digits b False acc cs else None)
      else (case digit_val c of
              None \<Rightarrow> None
            | Some d \<Rightarrow> if d < b then parse_digits b True (acc * b + d) cs else None))"

definition skip_underscore :: "string \<Rightarrow> string" where
  "skip_underscore s = (case s of c # cs \<Rightarrow> if c = CHR ''_'' then cs else s | [] \<Rightarrow> [])"

text \<open>A numeral without sign: the prefixes that \<^verbatim>\<open>int(s, base)\<close> accepts for bases 10, 16 and 0.\<close>

definition has_prefix :: "char \<Rightarrow> char \<Rightarrow> string \<Rightarrow> bool" where
  "has_prefix lo up s =
     (case s of z # x # _ \<Rightarrow> z = CHR ''0'' \<and> (x = lo \<or> x = up) | _ \<Rightarrow> False)"

definition parse_numeral :: "nat \<Rightarrow> string \<Rightarrow> nat option" where
  "parse_numeral base s =
     (if (base = 16 \<or> base = 0) \<and> has_prefix (CHR ''x'') (CHR ''X'') s
      then parse_digits 16 False 0 (skip_underscore (drop 2 s))
      else if base = 0 \<and> has_prefix (CHR ''o'') (CHR ''O'') s
      then parse_digits 8 False 0 (skip_underscore (drop 2 s))
      else if base = 0 \<and> has_prefix (CHR ''b'') (CHR ''B'') s
      then parse_digits 2 False 0 (skip_underscore (drop 2 s))
      else if base = 0
      then (case parse_digits 10 False 0 s of
              None \<Rightarrow> None
            | Some n \<Rightarrow> if s \<noteq> [] \<and> hd s = CHR ''0'' \<and> n \<noteq> 0 then None else Some n)
      else parse_digits base False 0 s)"

text \<open>\<^verbatim>\<open>int(s, base)\<close>; \<open>None\<close> is the ValueError.\<close>

definition py_int :: "nat \<Rightarrow> string \<Rightarrow> int option" where
  "py_int base s =
     (case strip s of
        [] \<Rightarrow> None
      | c # cs \<Rightarrow>
          if c = CHR ''-'' then map_option (\<lambda>n. - int n) (parse_numeral base cs)
          else if c = CHR ''+'' then map_option int (parse_numeral base cs)
          else map_option int (parse_numeral base (c # cs)))"

text \<open>Digits of a natural number in a base, most significant first.\<close>

fun nat_str :: "nat \<Rightarrow> nat \<Rightarrow> string" where
  "nat_str b n = (if b < 2 \<or> n < b then [digit_char n] else nat_str b (n div b) @ [digit_char (n mod b)])"

declare nat_str.simps [simp del]

definition int_str :: "int \<Rightarrow> string" where
  "int_str i = (if i < 0 then CHR ''-'' # nat_str 10 (nat (- i)) else nat_str 10 (nat i))"

definition hex_str :: "int \<Rightarrow> string" where
  "hex_str i = (if i < 0 then CHR ''-'' # nat_str 16 (nat (- i)) else nat_str 16 (nat i))"

text \<open>\<^verbatim>\<open>hex(i)\<close>.\<close>

definition py_hex :: "int \<Rightarrow> string" where
  "py_hex i = (if i < 0 then ''-0x'' @ nat_str 16 (nat (- i)) else ''0x'' @ nat_str 16 (nat i))"

definition pad_left :: "char \<Rightarrow> nat \<Rightarrow> string \<Rightarrow> string" where
  "pad_left c w s = replicate (w - length s) c @ s"

lemma parse_digits_append:
  "parse_digits b p acc (s @ t) =
     (case parse_digits b p acc s of
        None \<Rightarrow> parse_digits b p acc (s @ t)
      | Some n \<Rightarrow> if s = [] then parse_digits b p acc t else parse_digits b True n t)"
proof (induction b p acc s rule: parse_digits.induct)
  case (2 b prev acc c cs)
  show ?case
  proof (cases "parse_digits b prev acc (c # cs)")
    case (Some n)
    with 2 show ?thesis
      by (cases "cs = []") (auto split: if_splits option.splits)
  qed simp
qed simp

lemma parse_digits_nat_str:
  assumes "2 \<le> b" "b \<le> 16"
  shows "parse_digits b False 0 (nat_str b n) = Some n"
proof (induction n rule: less_induct)
  case (less n)
  have nu: "digit_char k \<noteq> CHR ''_''" if "k < b" for k
    using that assms digit_char_not_special(1) [of k] by simp
  have dv: "digit_val (digit_char k) = Some k" if "k < b" for k
    using that assms by simp
  show ?case
  proof (cases "n < b")
    case True
    then show ?thesis using assms nu dv by (subst nat_str.simps) simp
  next
    case False
    then have "parse_digits b False 0 (nat_str b (n div b)) = Some (n div b)"
      using less assms by (simp add: div_less_dividend)
    moreover have "nat_str b (n div b) \<noteq> []"
      by (subst nat_str.simps) simp
    ultimately show ?thesis
      using False assms nu [of "n mod b"] dv [of "n mod b"]
      by (subst nat_str.simps) (simp add: parse_digits_append)
  qed
qed

lemma nat_str_ne [simp]: "nat_str b n \<noteq> []"
  by (subst nat_str.simps) simp

lemma nat_str_chars: "2 \<le> b \<Longrightarrow> c \<in> set (nat_str b n) \<Longrightarrow> \<exists>k < b. c = digit_char k"
proof (induction n rule: less_induct)
  case (less n)
  show ?case
  proof (cases "n < b")
    case True
    with less.prems show ?thesis by (subst (asm) nat_str.simps) auto
  next
    case False
    with less.prems have "c \<in> set (nat_str b (n div b)) \<or> c = digit_char (n mod b)"
      by (subst (asm) nat_str.simps) auto
    then show ?thesis
    proof
      assume "c \<in> set (nat_str b (n div b))"
      moreover have "n div b < n" using less.prems False by (intro div_less_dividend) auto
      ultimately show ?thesis using less.IH less.prems(1) by blast
    next
      assume "c = digit_char (n mod b)"
      moreover have "n mod b < b" using less.prems by simp
      ultimately show ?thesis by blast
    qed
  qed
qed

lemma nat_str_not_space: "2 \<le> b \<Longrightarrow> b \<le> 16 \<Longrightarrow> c \<in> set (nat_str b n) \<Longrightarrow> \<not> is_space c"
  using nat_str_chars digit_char_not_special(2) by fastforce

lemma strip_nat_str: "2 \<le> b \<Longrightarrow> b \<le> 16 \<Longrightarrow> strip (nat_str b n) = nat_str b n"
  by (rule strip_of_none) (simp add: nat_str_not_space)

lemma py_int_int_str: "py_int 10 (int_str i) = Some i"
proof -
  define n where "n = nat \<bar>i\<bar>"
  obtain c cs where cc: "nat_str 10 n = c # cs" by (cases "nat_str 10 n") auto
  then obtain k where "k < 10" "c = digit_char k"
    using nat_str_chars [of 10 c n] by auto
  then have c: "c \<noteq> CHR ''-''" "c \<noteq> CHR ''+''" using digit_char_not_special [of k] by auto
  have nosp: "\<forall>x \<in> set (CHR ''-'' # nat_str 10 n). \<not> is_space x"
    using nat_str_not_space [of 10] by (auto simp: is_space_def code_def)
  have num: "parse_numeral 10 (nat_str 10 n) = Some n"
    by (simp add: parse_numeral_def parse_digits_nat_str)
  show ?thesis
  proof (cases "i < 0")
    case True
    then have "int_str i = CHR ''-'' # nat_str 10 n" "- int n = i"
      by (simp_all add: int_str_def n_def)
    with nosp num show ?thesis by (simp add: py_int_def strip_of_none)
  next
    case False
    then have "int_str i = nat_str 10 n" "int n = i"
      by (simp_all add: int_str_def n_def)
    moreover have "strip (nat_str 10 n) = c # cs"
      using strip_nat_str [of 10 n] cc by simp
    ultimately show ?thesis using num c by (simp add: py_int_def cc)
  qed
qed

section \<open>Representation\<close>

text \<open>\<^verbatim>\<open>repr(s)\<close>: double quotes only when the string has a single quote and no double quote.\<close>

definition repr_char :: "char \<Rightarrow> char \<Rightarrow> string" where
  "repr_char q c =
     (let n = code c in
      if c = q \<or> n = 92 then [char_of (92 :: nat), c]
      else if n = 9 then [char_of (92 :: nat), CHR ''t'']
      else if n = 10 then [char_of (92 :: nat), CHR ''n'']
      else if n = 13 then [char_of (92 :: nat), CHR ''r'']
      else if n < 32 \<or> 127 \<le> n \<and> n < 161 \<or> n = 173
      then [char_of (92 :: nat), CHR ''x''] @ pad_left (CHR ''0'') 2 (nat_str 16 n)
      else [c])"

definition py_repr :: "string \<Rightarrow> string" where
  "py_repr s =
     (let q = (if CHR 0x27 \<in> set s \<and> CHR 0x22 \<notin> set s then CHR 0x22 else CHR 0x27)
      in [q] @ concat (map (repr_char q) s) @ [q])"

end
