(* ===== verification/Py_Regex.thy ===== *)
theory Py_Regex
  imports Py_Str
begin

text \<open>
  The backtracking regular expressions of Python's \<^verbatim>\<open>re\<close> module, as far as the tools use them:
  character classes, sequences, alternatives, greedy and lazy repetition, numbered groups and the
  anchors. A match runs with a continuation, so that the first success in Python's order of
  preference is the result and backtracking is what happens when the continuation fails.
\<close>

section \<open>Expressions\<close>

datatype citem = CLit char | CRange char char | CDigit | CSpace | CWord | CNotSpace

fun in_item :: "citem \<Rightarrow> char \<Rightarrow> bool" where
  "in_item (CLit d) c = (c = d)"
| "in_item (CRange lo hi) c = (code lo \<le> code c \<and> code c \<le> code hi)"
| "in_item CDigit c = is_digit c"
| "in_item CSpace c = is_space c"
| "in_item CWord c = is_word c"
| "in_item CNotSpace c = (\<not> is_space c)"

definition in_class :: "bool \<Rightarrow> citem list \<Rightarrow> char \<Rightarrow> bool" where
  "in_class neg items c \<longleftrightarrow> (neg \<noteq> list_ex (\<lambda>i. in_item i c) items)"

datatype regex =
    RCls bool "citem list"
  | REps
  | RSeq regex regex
  | RAlt regex regex
  | RStar bool regex
  | RGroup nat regex
  | RBol
  | RBolM
  | REol
  | RWordB

text \<open>Derived forms. The flag of \<open>RStar\<close> and of the forms below is \<open>True\<close> for greedy.\<close>

definition rlit :: "char \<Rightarrow> regex" where "rlit c = RCls False [CLit c]"
definition rany :: regex where "rany = RCls True [CLit (CHR 0x0A)]"
definition rplus :: "bool \<Rightarrow> regex \<Rightarrow> regex" where "rplus g r = RSeq r (RStar g r)"
definition ropt :: "bool \<Rightarrow> regex \<Rightarrow> regex" where
  "ropt g r = (if g then RAlt r REps else RAlt REps r)"

fun rseq :: "regex list \<Rightarrow> regex" where
  "rseq [] = REps"
| "rseq [r] = r"
| "rseq (r # rs) = RSeq r (rseq rs)"

definition rstr :: "string \<Rightarrow> regex" where "rstr s = rseq (map rlit s)"

section \<open>Matching\<close>

text \<open>
  The state of a match: what lies behind (reversed), what lies ahead, and the groups captured so
  far, the most recent first.
\<close>

record mstate =
  behind :: string
  ahead :: string
  caps :: "(nat \<times> string) list"

definition start_at :: "string \<Rightarrow> string \<Rightarrow> mstate" where
  "start_at pre s = \<lparr>behind = pre, ahead = s, caps = []\<rparr>"

definition step_char :: "(char \<Rightarrow> bool) \<Rightarrow> mstate \<Rightarrow> (mstate \<Rightarrow> 'r option) \<Rightarrow> 'r option" where
  "step_char p st k =
     (case ahead st of
        [] \<Rightarrow> None
      | c # cs \<Rightarrow> if p c then k (st\<lparr>behind := c # behind st, ahead := cs\<rparr>) else None)"

text \<open>
  Repetition. An iteration that consumes nothing is not tried again, so the number of iterations is
  at most the number of characters ahead, which is the bound \<open>n\<close>.
\<close>

primrec star_iter ::
  "bool \<Rightarrow> (mstate \<Rightarrow> (mstate \<Rightarrow> 'r option) \<Rightarrow> 'r option) \<Rightarrow> nat \<Rightarrow>
   mstate \<Rightarrow> (mstate \<Rightarrow> 'r option) \<Rightarrow> 'r option" where
  "star_iter g m 0 st k = k st"
| "star_iter g m (Suc n) st k =
     (if g
      then (case m st (\<lambda>st'. if length (ahead st') < length (ahead st)
                             then star_iter g m n st' k else None) of
              Some r \<Rightarrow> Some r
            | None \<Rightarrow> k st)
      else (case k st of
              Some r \<Rightarrow> Some r
            | None \<Rightarrow> m st (\<lambda>st'. if length (ahead st') < length (ahead st)
                                  then star_iter g m n st' k else None)))"

definition word_at :: "string \<Rightarrow> bool" where
  "word_at s = (case s of [] \<Rightarrow> False | c # _ \<Rightarrow> is_word c)"

primrec rmatch :: "regex \<Rightarrow> mstate \<Rightarrow> (mstate \<Rightarrow> 'r option) \<Rightarrow> 'r option" where
  "rmatch (RCls neg items) = step_char (in_class neg items)"
| "rmatch REps = (\<lambda>st k. k st)"
| "rmatch (RSeq r1 r2) = (\<lambda>st k. rmatch r1 st (\<lambda>st'. rmatch r2 st' k))"
| "rmatch (RAlt r1 r2) =
     (\<lambda>st k. case rmatch r1 st k of Some r \<Rightarrow> Some r | None \<Rightarrow> rmatch r2 st k)"
| "rmatch (RStar g r) = (\<lambda>st. star_iter g (rmatch r) (length (ahead st)) st)"
| "rmatch (RGroup i r) =
     (\<lambda>st k. rmatch r st (\<lambda>st'.
        k (st'\<lparr>caps := (i, take (length (ahead st) - length (ahead st')) (ahead st)) # caps st'\<rparr>)))"
| "rmatch RBol = (\<lambda>st k. if behind st = [] then k st else None)"
| "rmatch RBolM =
     (\<lambda>st k. if behind st = [] \<or> hd (behind st) = CHR 0x0A then k st else None)"
| "rmatch REol =
     (\<lambda>st k. if ahead st = [] \<or> ahead st = [CHR 0x0A] then k st else None)"
| "rmatch RWordB =
     (\<lambda>st k. if word_at (behind st) \<noteq> word_at (ahead st) then k st else None)"

text \<open>The text of group \<open>i\<close>; a group that did not take part is \<open>None\<close>.\<close>

definition group :: "mstate \<Rightarrow> nat \<Rightarrow> string option" where
  "group st i = map_of (caps st) i"

text \<open>The group where \<^verbatim>\<open>findall\<close> reports it: a group that did not take part is empty.\<close>

definition grp :: "mstate \<Rightarrow> nat \<Rightarrow> string" where
  "grp st i = (case group st i of None \<Rightarrow> [] | Some s \<Rightarrow> s)"

text \<open>\<^verbatim>\<open>pattern.match(s)\<close>: a match at the start.\<close>

definition re_match :: "regex \<Rightarrow> string \<Rightarrow> mstate option" where
  "re_match r s = rmatch r (start_at [] s) Some"

text \<open>\<^verbatim>\<open>re.fullmatch(pattern, s)\<close>: a match of the whole text.\<close>

definition re_fullmatch :: "regex \<Rightarrow> string \<Rightarrow> mstate option" where
  "re_fullmatch r s = rmatch r (start_at [] s) (\<lambda>st. if ahead st = [] then Some st else None)"

text \<open>
  \<^verbatim>\<open>pattern.search(s)\<close>: the match at the first place where there is one, with what lies behind that
  place (reversed).
\<close>

fun search_from :: "regex \<Rightarrow> string \<Rightarrow> string \<Rightarrow> (string \<times> mstate) option" where
  "search_from r pre [] = map_option (Pair pre) (rmatch r (start_at pre []) Some)"
| "search_from r pre (c # cs) =
     (case rmatch r (start_at pre (c # cs)) Some of
        Some st \<Rightarrow> Some (pre, st)
      | None \<Rightarrow> search_from r (c # pre) cs)"

definition re_search :: "regex \<Rightarrow> string \<Rightarrow> mstate option" where
  "re_search r s = map_option snd (search_from r [] s)"

text \<open>
  \<^verbatim>\<open>re.finditer\<close>: each match with the text behind its start. After a match the scan goes on at
  its end, one character further when the match was empty.
\<close>

primrec find_from :: "nat \<Rightarrow> regex \<Rightarrow> string \<Rightarrow> string \<Rightarrow> (string \<times> mstate) list" where
  "find_from 0 r pre s = []"
| "find_from (Suc n) r pre s =
     (case search_from r pre s of
        None \<Rightarrow> []
      | Some (b, st) \<Rightarrow>
          (b, st) #
          (if behind st = b
           then (case ahead st of [] \<Rightarrow> [] | c # cs \<Rightarrow> find_from n r (c # behind st) cs)
           else find_from n r (behind st) (ahead st)))"

definition re_finditer :: "regex \<Rightarrow> string \<Rightarrow> (string \<times> mstate) list" where
  "re_finditer r s = find_from (Suc (length s)) r [] s"

definition re_findall :: "regex \<Rightarrow> string \<Rightarrow> mstate list" where
  "re_findall r s = map snd (re_finditer r s)"

text \<open>\<^verbatim>\<open>re.sub(pattern, repl, s)\<close> for a replacement without escapes.\<close>

fun sub_from :: "nat \<Rightarrow> regex \<Rightarrow> string \<Rightarrow> string \<Rightarrow> string \<Rightarrow> string" where
  "sub_from 0 r repl pre s = s"
| "sub_from (Suc n) r repl pre s =
     (case search_from r pre s of
        None \<Rightarrow> s
      | Some (b, st) \<Rightarrow>
          take (length b - length pre) s @ repl @
          (if behind st = b
           then (case ahead st of [] \<Rightarrow> [] | c # cs \<Rightarrow> c # sub_from n r repl (c # behind st) cs)
           else sub_from n r repl (behind st) (ahead st)))"

definition re_sub :: "regex \<Rightarrow> string \<Rightarrow> string \<Rightarrow> string" where
  "re_sub r repl s = sub_from (Suc (length s)) r repl [] s"

lemma step_char_Nil: "ahead st = [] \<Longrightarrow> step_char p st k = None"
  by (simp add: step_char_def)

lemma step_char_Cons:
  "ahead st = c # cs \<Longrightarrow>
     step_char p st k = (if p c then k (st\<lparr>behind := c # behind st, ahead := cs\<rparr>) else None)"
  by (simp add: step_char_def)

section \<open>What a match consumes\<close>

text \<open>\<open>advances st st'\<close>: \<open>st'\<close> is reached from \<open>st\<close> by reading a prefix of what lies ahead.\<close>

definition advances :: "mstate \<Rightarrow> mstate \<Rightarrow> bool" where
  "advances st st' \<longleftrightarrow>
     (\<exists>w. ahead st = w @ ahead st' \<and> behind st' = rev w @ behind st)"

lemma advances_refl [simp, intro]: "advances st st"
  by (auto simp: advances_def)

lemma advances_trans [trans]: "advances a b \<Longrightarrow> advances b c \<Longrightarrow> advances a c"
  by (auto simp: advances_def)

lemma advances_caps [simp]: "advances st (st'\<lparr>caps := x\<rparr>) = advances st st'"
  by (simp add: advances_def)

lemma advances_length: "advances st st' \<Longrightarrow> length (ahead st') \<le> length (ahead st)"
  by (auto simp: advances_def)

lemma advances_total: "advances st st' \<Longrightarrow> rev (behind st') @ ahead st' = rev (behind st) @ ahead st"
  by (auto simp: advances_def)

text \<open>
  The weaker contract that most clients need: a result comes from calling the continuation in a
  state that the matcher reached by reading forward.
\<close>

locale advancing =
  fixes m :: "mstate \<Rightarrow> (mstate \<Rightarrow> 'r option) \<Rightarrow> 'r option"
  assumes advance: "m st k = Some x \<Longrightarrow> \<exists>st'. advances st st' \<and> k st' = Some x"
begin

text \<open>A matcher followed by another reads forward.\<close>

lemma advance_then:
  assumes "advancing m2" and "m st (\<lambda>st'. m2 st' k) = Some x"
  shows "\<exists>st'. advances st st' \<and> k st' = Some x"
proof -
  obtain st1 where "advances st st1" "m2 st1 k = Some x" using advance [OF assms(2)] by blast
  then show ?thesis using advancing.advance [OF assms(1)] advances_trans by blast
qed

end

section \<open>The language of an expression and of its groups\<close>

text \<open>
  The strings an expression can match, without regard to its anchors, the sub-expressions of its
  groups, and the groups that every match captures.
\<close>

inductive_set star_of :: "string set \<Rightarrow> string set" for L where
  star_Nil: "[] \<in> star_of L"
| star_app: "u \<in> L \<Longrightarrow> v \<in> star_of L \<Longrightarrow> u @ v \<in> star_of L"

primrec lang :: "regex \<Rightarrow> string set" where
  "lang (RCls neg items) = {[c] |c. in_class neg items c}"
| "lang REps = {[]}"
| "lang (RSeq r1 r2) = {u @ v |u v. u \<in> lang r1 \<and> v \<in> lang r2}"
| "lang (RAlt r1 r2) = lang r1 \<union> lang r2"
| "lang (RStar g r) = star_of (lang r)"
| "lang (RGroup i r) = lang r"
| "lang RBol = {[]}"
| "lang RBolM = {[]}"
| "lang REol = {[]}"
| "lang RWordB = {[]}"

primrec groups :: "regex \<Rightarrow> (nat \<times> regex) list" where
  "groups (RCls neg items) = []"
| "groups REps = []"
| "groups (RSeq r1 r2) = groups r1 @ groups r2"
| "groups (RAlt r1 r2) = groups r1 @ groups r2"
| "groups (RStar g r) = groups r"
| "groups (RGroup i r) = (i, r) # groups r"
| "groups RBol = []"
| "groups RBolM = []"
| "groups REol = []"
| "groups RWordB = []"

primrec always :: "regex \<Rightarrow> nat list" where
  "always (RCls neg items) = []"
| "always REps = []"
| "always (RSeq r1 r2) = always r1 @ always r2"
| "always (RAlt r1 r2) = filter (\<lambda>i. i \<in> set (always r2)) (always r1)"
| "always (RStar g r) = []"
| "always (RGroup i r) = i # always r"
| "always RBol = []"
| "always RBolM = []"
| "always REol = []"
| "always RWordB = []"

definition captured :: "(nat \<times> regex) set \<Rightarrow> (nat \<times> string) list \<Rightarrow> bool" where
  "captured G cs \<longleftrightarrow> (\<forall>(i, s) \<in> set cs. \<exists>r. (i, r) \<in> G \<and> s \<in> lang r)"

lemma captured_append [simp]: "captured G (cs @ ds) \<longleftrightarrow> captured G cs \<and> captured G ds"
  unfolding captured_def set_append ball_Un ..

lemma captured_Nil [simp]: "captured G []"
  by (simp add: captured_def)

lemma captured_mono: "captured G cs \<Longrightarrow> G \<subseteq> H \<Longrightarrow> captured H cs"
  by (fastforce simp: captured_def)

text \<open>
  The full contract of a matcher: what it reads is in the language \<open>L\<close>, what it captures are groups of
  \<open>G\<close>, and it captures at least the groups \<open>A\<close>.
\<close>

locale sound_matcher =
  fixes m :: "mstate \<Rightarrow> (mstate \<Rightarrow> 'r option) \<Rightarrow> 'r option"
    and L :: "string set" and G :: "(nat \<times> regex) set" and A :: "nat set"
  assumes sound: "m st k = Some x \<Longrightarrow>
    \<exists>st' w cs. ahead st = w @ ahead st' \<and> behind st' = rev w @ behind st \<and> caps st' = cs @ caps st \<and>
      w \<in> L \<and> captured G cs \<and> A \<subseteq> fst ` set cs \<and> k st' = Some x"
begin

lemma star_sound:
  "star_iter g m n st k = Some x \<Longrightarrow>
    \<exists>st' w cs. ahead st = w @ ahead st' \<and> behind st' = rev w @ behind st \<and> caps st' = cs @ caps st \<and>
      w \<in> star_of L \<and> captured G cs \<and> k st' = Some x"
proof (induction n arbitrary: st)
  case 0
  then show ?case by (intro exI [of _ st] exI [of _ "[]"]) (simp add: star_of.star_Nil)
next
  case (Suc n)
  let ?c = "\<lambda>st'. if length (ahead st') < length (ahead st) then star_iter g m n st' k else None"
  from Suc.prems consider "k st = Some x" | "m st ?c = Some x"
    by (auto split: if_splits option.splits)
  then show ?case
  proof cases
    case 1
    then show ?thesis by (intro exI [of _ st] exI [of _ "[]"]) (simp add: star_of.star_Nil)
  next
    case 2
    from sound [OF 2] obtain st1 w1 cs1 where
      1: "ahead st = w1 @ ahead st1" "behind st1 = rev w1 @ behind st" "caps st1 = cs1 @ caps st"
        "w1 \<in> L" "captured G cs1" and "?c st1 = Some x" by blast
    then have "star_iter g m n st1 k = Some x" by (simp split: if_splits)
    from Suc.IH [OF this] obtain st2 w2 cs2 where
      2: "ahead st1 = w2 @ ahead st2" "behind st2 = rev w2 @ behind st1" "caps st2 = cs2 @ caps st1"
        "w2 \<in> star_of L" "captured G cs2" "k st2 = Some x" by blast
    with 1 have "ahead st = (w1 @ w2) @ ahead st2" "behind st2 = rev (w1 @ w2) @ behind st"
      "caps st2 = (cs2 @ cs1) @ caps st" "w1 @ w2 \<in> star_of L" "captured G (cs2 @ cs1)"
      by (auto intro: star_of.intros)
    with 2 show ?thesis by blast
  qed
qed

end

sublocale sound_matcher \<subseteq> advancing m
proof
  fix st k x
  assume "m st k = Some x"
  then show "\<exists>st'. advances st st' \<and> k st' = Some x"
    using sound unfolding advances_def by blast
qed

lemma sound_step_char: "sound_matcher (step_char p) {[c] |c. p c} {} {}"
proof
  fix st and k :: "mstate \<Rightarrow> 'r option" and x
  assume "step_char p st k = Some x"
  then obtain c cs where c: "ahead st = c # cs" "p c"
    "k (st\<lparr>behind := c # behind st, ahead := cs\<rparr>) = Some x"
    by (auto simp: step_char_def split: list.splits if_splits)
  then show "\<exists>st' w cs. ahead st = w @ ahead st' \<and> behind st' = rev w @ behind st \<and>
      caps st' = cs @ caps st \<and> w \<in> {[c] |c. p c} \<and> captured {} cs \<and> {} \<subseteq> fst ` set cs \<and> k st' = Some x"
    by (intro exI [of _ "st\<lparr>behind := c # behind st, ahead := cs\<rparr>"] exI [of _ "[c]"] exI [of _ "[]"]) auto
qed

lemma sound_seq:
  fixes m1 m2 :: "mstate \<Rightarrow> (mstate \<Rightarrow> 'r option) \<Rightarrow> 'r option"
  assumes s1: "sound_matcher m1 L1 G1 A1" and s2: "sound_matcher m2 L2 G2 A2"
  shows "sound_matcher (\<lambda>st k. m1 st (\<lambda>st'. m2 st' k)) {u @ v |u v. u \<in> L1 \<and> v \<in> L2} (G1 \<union> G2) (A1 \<union> A2)"
proof
  fix st :: mstate and k :: "mstate \<Rightarrow> 'r option" and x
  assume "m1 st (\<lambda>st'. m2 st' k) = Some x"
  from sound_matcher.sound [OF s1 this] obtain st1 w1 cs1 where
    1: "ahead st = w1 @ ahead st1" "behind st1 = rev w1 @ behind st" "caps st1 = cs1 @ caps st"
      "w1 \<in> L1" "captured G1 cs1" "A1 \<subseteq> fst ` set cs1" and "m2 st1 k = Some x" by blast
  from sound_matcher.sound [OF s2 this(7)] obtain st2 w2 cs2 where
    2: "ahead st1 = w2 @ ahead st2" "behind st2 = rev w2 @ behind st1" "caps st2 = cs2 @ caps st1"
      "w2 \<in> L2" "captured G2 cs2" "A2 \<subseteq> fst ` set cs2" "k st2 = Some x" by blast
  have "captured (G1 \<union> G2) (cs2 @ cs1)"
    using 1(5) 2(5) by (auto intro: captured_mono)
  with 1 2 show "\<exists>st' w cs. ahead st = w @ ahead st' \<and> behind st' = rev w @ behind st \<and>
      caps st' = cs @ caps st \<and> w \<in> {u @ v |u v. u \<in> L1 \<and> v \<in> L2} \<and> captured (G1 \<union> G2) cs \<and>
      A1 \<union> A2 \<subseteq> fst ` set cs \<and> k st' = Some x"
    by (intro exI [of _ st2] exI [of _ "w1 @ w2"] exI [of _ "cs2 @ cs1"]) auto
qed

lemma sound_weaken:
  assumes "sound_matcher m L G A" "L \<subseteq> L'" "G \<subseteq> G'" "A' \<subseteq> A"
  shows "sound_matcher m L' G' A'"
proof
  fix st :: mstate and k x
  assume "m st k = Some x"
  from sound_matcher.sound [OF assms(1) this] obtain st1 w cs where
    1: "ahead st = w @ ahead st1" "behind st1 = rev w @ behind st" "caps st1 = cs @ caps st"
      "w \<in> L" "captured G cs" "A \<subseteq> fst ` set cs" "k st1 = Some x" by blast
  moreover have "captured G' cs" using captured_mono 1 assms by blast
  ultimately show "\<exists>st' w cs. ahead st = w @ ahead st' \<and> behind st' = rev w @ behind st \<and>
      caps st' = cs @ caps st \<and> w \<in> L' \<and> captured G' cs \<and> A' \<subseteq> fst ` set cs \<and> k st' = Some x"
    using assms by blast
qed

lemma sound_test:
  "sound_matcher (\<lambda>st k. if p st then k st else None) {[]} {} {}"
proof
  fix st :: mstate and k :: "mstate \<Rightarrow> 'r option" and x
  assume "(if p st then k st else None) = Some x"
  then have "k st = Some x" by (simp split: if_splits)
  then show "\<exists>st' w cs. ahead st = w @ ahead st' \<and> behind st' = rev w @ behind st \<and>
      caps st' = cs @ caps st \<and> w \<in> {[]} \<and> captured {} cs \<and> {} \<subseteq> fst ` set cs \<and> k st' = Some x"
    by (intro exI [of _ st] exI [of _ "[]"]) auto
qed

lemma sound_group:
  fixes r and i
  defines "m \<equiv> rmatch r :: mstate \<Rightarrow> (mstate \<Rightarrow> 'r option) \<Rightarrow> 'r option"
  assumes s: "sound_matcher m (lang r) G A"
  shows "sound_matcher (rmatch (RGroup i r) :: mstate \<Rightarrow> (mstate \<Rightarrow> 'r option) \<Rightarrow> 'r option)
    (lang r) (insert (i, r) G) (insert i A)"
proof
  fix st :: mstate and k :: "mstate \<Rightarrow> 'r option" and x
  let ?k = "\<lambda>st'. k (st'\<lparr>caps := (i, take (length (ahead st) - length (ahead st')) (ahead st)) # caps st'\<rparr>)"
  assume "rmatch (RGroup i r) st k = Some x"
  then have "m st ?k = Some x" by (simp add: m_def)
  from sound_matcher.sound [OF s this] obtain st1 w cs where
    1: "ahead st = w @ ahead st1" "behind st1 = rev w @ behind st" "caps st1 = cs @ caps st"
      "w \<in> lang r" "captured G cs" "A \<subseteq> fst ` set cs" "?k st1 = Some x" by blast
  then have "take (length (ahead st) - length (ahead st1)) (ahead st) = w" by simp
  with 1 show "\<exists>st' w cs. ahead st = w @ ahead st' \<and> behind st' = rev w @ behind st \<and>
      caps st' = cs @ caps st \<and> w \<in> lang r \<and> captured (insert (i, r) G) cs \<and>
      insert i A \<subseteq> fst ` set cs \<and> k st' = Some x"
    by (intro exI [of _ "st1\<lparr>caps := (i, w) # caps st1\<rparr>"] exI [of _ w] exI [of _ "(i, w) # cs"])
       (auto simp: captured_def)
qed

lemma sound_rmatch:
  "sound_matcher (rmatch r :: mstate \<Rightarrow> (mstate \<Rightarrow> 'r option) \<Rightarrow> 'r option)
     (lang r) (set (groups r)) (set (always r))"
proof (induction r)
  case (RCls neg items)
  show ?case using sound_step_char [of "in_class neg items"] by simp
next
  case REps
  show ?case using sound_test [of "\<lambda>_. True"] by simp
next
  case (RSeq r1 r2)
  then show ?case using sound_seq by fastforce
next
  case (RAlt r1 r2)
  have 1: "sound_matcher (rmatch r1 :: mstate \<Rightarrow> (mstate \<Rightarrow> 'r option) \<Rightarrow> 'r option)
      (lang (RAlt r1 r2)) (set (groups (RAlt r1 r2))) (set (always (RAlt r1 r2)))"
    by (rule sound_weaken [OF RAlt(1)]) auto
  have 2: "sound_matcher (rmatch r2 :: mstate \<Rightarrow> (mstate \<Rightarrow> 'r option) \<Rightarrow> 'r option)
      (lang (RAlt r1 r2)) (set (groups (RAlt r1 r2))) (set (always (RAlt r1 r2)))"
    by (rule sound_weaken [OF RAlt(2)]) auto
  show ?case
  proof
    fix st :: mstate and k :: "mstate \<Rightarrow> 'r option" and x
    assume "rmatch (RAlt r1 r2) st k = Some x"
    then consider "rmatch r1 st k = Some x" | "rmatch r2 st k = Some x"
      by (auto split: option.splits)
    then show "\<exists>st' w cs. ahead st = w @ ahead st' \<and> behind st' = rev w @ behind st \<and>
      caps st' = cs @ caps st \<and> w \<in> lang (RAlt r1 r2) \<and> captured (set (groups (RAlt r1 r2))) cs \<and>
      set (always (RAlt r1 r2)) \<subseteq> fst ` set cs \<and> k st' = Some x"
      by cases (erule sound_matcher.sound [OF 1], erule sound_matcher.sound [OF 2])
  qed
next
  case (RStar g r)
  show ?case
    by unfold_locales (use sound_matcher.star_sound [OF RStar] in simp)
next
  case (RGroup i r)
  then show ?case using sound_group by fastforce
qed (use sound_test in \<open>simp_all\<close>)

interpretation rs: sound_matcher "rmatch r" "lang r" "set (groups r)" "set (always r)" for r
  by (rule sound_rmatch)

lemma rmatch_advances: "rmatch r st Some = Some st' \<Longrightarrow> advances st st'"
  using rs.advance by fastforce

text \<open>A search stops at the first place where the expression matches.\<close>

lemma search_from_Some:
  "search_from r pre s = Some (b, st) \<Longrightarrow>
     \<exists>u t. s = u @ t \<and> b = rev u @ pre \<and> rmatch r (start_at b t) Some = Some st"
proof (induction r pre s rule: search_from.induct)
  case (2 r pre c cs)
  show ?case
  proof (cases "rmatch r (start_at pre (c # cs)) Some")
    case None
    with 2 obtain u t where "cs = u @ t" "b = rev u @ c # pre" "rmatch r (start_at b t) Some = Some st"
      by auto
    then show ?thesis by (intro exI [of _ "c # u"] exI [of _ t]) simp
  next
    case (Some a)
    with "2.prems" show ?thesis by force
  qed
qed auto

lemma search_from_total:
  assumes "search_from r pre s = Some (b, st)"
  shows "rev (behind st) @ ahead st = rev pre @ s"
proof -
  from search_from_Some [OF assms] obtain u t where
    ut: "s = u @ t" "b = rev u @ pre" and m: "rmatch r (start_at b t) Some = Some st" by blast
  from advances_total [OF rmatch_advances [OF m]] ut show ?thesis
    by (simp add: start_at_def)
qed

lemma search_from_None:
  "search_from r pre s = None \<longleftrightarrow>
     (\<forall>u t. s = u @ t \<longrightarrow> rmatch r (start_at (rev u @ pre) t) Some = None)"
proof (induction r pre s rule: search_from.induct)
  case (2 r pre c cs)
  have "(\<forall>u t. c # cs = u @ t \<longrightarrow> rmatch r (start_at (rev u @ pre) t) Some = None) \<longleftrightarrow>
        rmatch r (start_at pre (c # cs)) Some = None \<and>
        (\<forall>u t. cs = u @ t \<longrightarrow> rmatch r (start_at (rev u @ c # pre) t) Some = None)"
  proof (intro iffI conjI allI impI)
    fix u t
    assume all: "\<forall>u t. c # cs = u @ t \<longrightarrow> rmatch r (start_at (rev u @ pre) t) Some = None"
    show "rmatch r (start_at pre (c # cs)) Some = None"
      using all [rule_format, of "[]" "c # cs"] by simp
    show "cs = u @ t \<Longrightarrow> rmatch r (start_at (rev u @ c # pre) t) Some = None"
      using all [rule_format, of "c # u" t] by simp
  qed (auto simp: Cons_eq_append_conv)
  with 2 show ?case by (auto split: option.splits)
qed auto

section \<open>What groups hold\<close>

text \<open>What a group of a successful search holds.\<close>

lemma match_group:
  assumes "rmatch r (start_at pre s) Some = Some st"
  shows "group st i = Some t \<Longrightarrow> \<exists>r'. (i, r') \<in> set (groups r) \<and> t \<in> lang r'"
    and "i \<in> set (always r) \<Longrightarrow> group st i \<noteq> None"
proof -
  from rs.sound [OF assms] obtain st' w cs where "caps st' = cs" "captured (set (groups r)) cs"
    "set (always r) \<subseteq> fst ` set cs" "st' = st"
    by (auto simp: start_at_def)
  then have c: "captured (set (groups r)) (caps st)" "set (always r) \<subseteq> fst ` set (caps st)" by auto
  show "group st i = Some t \<Longrightarrow> \<exists>r'. (i, r') \<in> set (groups r) \<and> t \<in> lang r'"
    using c(1) by (auto simp: group_def captured_def dest: map_of_SomeD)
  show "i \<in> set (always r) \<Longrightarrow> group st i \<noteq> None"
    using c(2) by (auto simp: group_def map_of_eq_None_iff)
qed

lemma find_from_group:
  "(b, st) \<in> set (find_from n r pre s) \<Longrightarrow> \<exists>p t. rmatch r (start_at p t) Some = Some st"
proof (induction n arbitrary: pre s)
  case (Suc n)
  then obtain b' st' where m: "search_from r pre s = Some (b', st')"
    by (cases "search_from r pre s") auto
  with Suc.prems have c: "(b, st) = (b', st') \<or> (\<exists>pre' s'. (b, st) \<in> set (find_from n r pre' s'))"
    by (cases "behind st' = b'"; cases "ahead st'") auto
  from c show ?case
  proof
    assume "(b, st) = (b', st')"
    with search_from_Some [OF m] show ?thesis by blast
  qed (use Suc.IH in blast)
qed simp

text \<open>A group that always takes part holds a string of its expression's language.\<close>

lemma findall_grp:
  assumes "st \<in> set (re_findall r s)" "i \<in> set (always r)"
  shows "\<exists>r'. (i, r') \<in> set (groups r) \<and> grp st i \<in> lang r'"
proof -
  from assms(1) obtain b where "(b, st) \<in> set (find_from (Suc (length s)) r [] s)"
    by (auto simp: re_findall_def re_finditer_def simp del: find_from.simps)
  from find_from_group [OF this] obtain p t where m: "rmatch r (start_at p t) Some = Some st" by blast
  then obtain u where "group st i = Some u" using match_group(2) assms(2) by fastforce
  with match_group(1) [OF m] show ?thesis by (auto simp: grp_def)
qed

lemma star_of_class: "w \<in> star_of {[c] |c. p c} \<longleftrightarrow> (\<forall>c \<in> set w. p c)"
proof
  show "w \<in> star_of {[c] |c. p c} \<Longrightarrow> \<forall>c \<in> set w. p c"
    by (induction rule: star_of.induct) auto
  show "\<forall>c \<in> set w. p c \<Longrightarrow> w \<in> star_of {[c] |c. p c}"
  proof (induction w)
    case (Cons c w)
    then have "[c] @ w \<in> star_of {[c] |c. p c}" by (intro star_of.star_app) auto
    then show ?case by simp
  qed (rule star_of.star_Nil)
qed

lemma lang_plus_class:
  "lang (rplus g (RCls neg items)) = {w. w \<noteq> [] \<and> (\<forall>c \<in> set w. in_class neg items c)}"
  by (auto simp: rplus_def star_of_class neq_Nil_conv)
     (metis append_Cons append_Nil list.set_intros)+

section \<open>Matching runs of one class\<close>

text \<open>\<open>eat w st\<close>: the state after reading the prefix \<open>w\<close> of what lies ahead.\<close>

definition eat :: "string \<Rightarrow> mstate \<Rightarrow> mstate" where
  "eat w st = st\<lparr>behind := rev w @ behind st, ahead := drop (length w) (ahead st)\<rparr>"

lemma eat_simps [simp]:
  "eat [] st = st"
  "behind (eat w st) = rev w @ behind st"
  "ahead (eat w st) = drop (length w) (ahead st)"
  "caps (eat w st) = caps st"
  "eat v (eat w st) = eat (w @ v) st"
  by (simp_all add: eat_def add.commute)

text \<open>
  A greedy repetition of a class over a maximal run of it: when the continuation succeeds after the
  whole run, that is the result.
\<close>

lemma star_class_greedy:
  assumes "ahead st = w @ rest" "\<forall>c \<in> set w. p c"
    and "rest = [] \<or> \<not> p (hd rest)" and "k (eat w st) = Some x" and "length w \<le> n"
  shows "star_iter True (step_char p) n st k = Some x"
  using assms
proof (induction w arbitrary: st n)
  case Nil
  then show ?case
    by (cases n; cases rest) (auto simp: step_char_def)
next
  case (Cons c w)
  then obtain m where n: "n = Suc m" by (cases n) auto
  let ?st = "st\<lparr>behind := c # behind st, ahead := w @ rest\<rparr>"
  have e: "eat w ?st = eat (c # w) st"
    using Cons.prems(1) by (simp add: eat_def)
  have "star_iter True (step_char p) m ?st k = Some x"
  proof (rule Cons.IH)
    show "k (eat w ?st) = Some x" unfolding e by (rule Cons.prems)
  qed (use Cons.prems n in auto)
  with Cons.prems n show ?case by (simp add: step_char_Cons)
qed

lemma rmatch_star_class:
  assumes "ahead st = w @ rest" "\<forall>c \<in> set w. in_class neg items c"
    and "rest = [] \<or> \<not> in_class neg items (hd rest)" and "k (eat w st) = Some x"
  shows "rmatch (RStar True (RCls neg items)) st k = Some x"
  using assms star_class_greedy [of st w rest "in_class neg items" k x "length (ahead st)"] by simp

lemma rmatch_plus_class:
  assumes "ahead st = w @ rest" "w \<noteq> []" "\<forall>c \<in> set w. in_class neg items c"
    and "rest = [] \<or> \<not> in_class neg items (hd rest)" and "k (eat w st) = Some x"
  shows "rmatch (rplus True (RCls neg items)) st k = Some x"
proof -
  obtain c v where w: "w = c # v" using assms(2) by (cases w) auto
  let ?st = "st\<lparr>behind := c # behind st, ahead := v @ rest\<rparr>"
  have "rmatch (RStar True (RCls neg items)) ?st k = Some x"
    by (rule rmatch_star_class [of _ v rest]) (use assms w in \<open>auto simp: eat_def\<close>)
  with assms w show ?thesis by (simp add: rplus_def step_char_def)
qed

lemma rmatch_group_plus:
  assumes "ahead st = w @ rest" "w \<noteq> []" "\<forall>c \<in> set w. in_class neg items c"
    and "rest = [] \<or> \<not> in_class neg items (hd rest)"
    and "k ((eat w st)\<lparr>caps := (i, w) # caps st\<rparr>) = Some x"
  shows "rmatch (RGroup i (rplus True (RCls neg items))) st k = Some x"
  using rmatch_plus_class [OF assms(1-4), of "\<lambda>st'. k (st'\<lparr>caps :=
      (i, take (length (ahead st) - length (ahead st')) (ahead st)) # caps st'\<rparr>)" x] assms(1,5)
  by simp

text \<open>A class that the next character does not satisfy fails, and so does a run of it.\<close>

lemma rmatch_class_fail:
  "ahead st = [] \<or> \<not> in_class neg items (hd (ahead st)) \<Longrightarrow> rmatch (RCls neg items) st k = None"
  by (cases "ahead st") (auto simp: step_char_def)

text \<open>Literal strings.\<close>

lemma rmatch_rlit:
  "rmatch (rlit c) st k = (case ahead st of [] \<Rightarrow> None | d # _ \<Rightarrow> if d = c then k (eat [c] st) else None)"
  by (auto simp: rlit_def step_char_def in_class_def eat_def split: list.splits)

lemma rmatch_rseq_Cons: "rmatch (rseq (r # rs)) st k = rmatch r st (\<lambda>st'. rmatch (rseq rs) st' k)"
  by (cases rs) auto

lemma rmatch_rstr:
  "rmatch (rstr s) st k = (if prefix s (ahead st) then k (eat s st) else None)"
proof (induction s arbitrary: st)
  case Nil
  then show ?case by (simp add: rstr_def)
next
  case (Cons c s)
  have "rmatch (rstr (c # s)) st k = rmatch (rlit c) st (\<lambda>st'. rmatch (rstr s) st' k)"
    by (simp only: rstr_def list.map rmatch_rseq_Cons)
  with Cons.IH show ?case by (auto simp: rmatch_rlit split: list.splits)
qed

text \<open>A search for a literal string is the substring test.\<close>

lemma search_rstr_None: "re_search (rstr s) t = None \<longleftrightarrow> \<not> contains s t"
proof -
  have "search_from (rstr s) pre t = None \<longleftrightarrow> \<not> sublist s t" for pre
    by (auto simp: search_from_None rmatch_rstr start_at_def sublist_def prefix_def)
  then show ?thesis by (simp add: re_search_def contains_sublist)
qed

text \<open>Deleting a character with \<^verbatim>\<open>re.sub\<close>.\<close>

lemma search_rlit_first:
  "c \<notin> set u \<Longrightarrow> search_from (rlit c) pre (u @ c # t) =
     Some (rev u @ pre, \<lparr>behind = c # rev u @ pre, ahead = t, caps = []\<rparr>)"
  by (induction u arbitrary: pre) (auto simp: rmatch_rlit start_at_def eat_def)

lemma search_rlit_absent: "c \<notin> set s \<Longrightarrow> search_from (rlit c) pre s = None"
  by (induction s arbitrary: pre) (auto simp: rmatch_rlit start_at_def)

lemma sub_from_rlit:
  "length s < n \<Longrightarrow> sub_from n (rlit c) [] pre s = filter (\<lambda>x. x \<noteq> c) s"
proof (induction n arbitrary: pre s)
  case (Suc n)
  show ?case
  proof (cases "c \<in> set s")
    case True
    then obtain u t where s: "s = u @ c # t" "c \<notin> set u" by (auto dest: split_list_first)
    then have "filter (\<lambda>x. x \<noteq> c) u = u" by (auto simp: filter_id_conv)
    with s Suc show ?thesis by (simp add: search_rlit_first)
  next
    case False
    then have "filter (\<lambda>x. x \<noteq> c) s = s" by (auto simp: filter_id_conv)
    with False show ?thesis by (simp add: search_rlit_absent)
  qed
qed simp

lemma re_sub_rlit: "re_sub (rlit c) [] s = filter (\<lambda>x. x \<noteq> c) s"
  by (simp add: re_sub_def sub_from_rlit del: sub_from.simps)

text \<open>
  Every match that \<^const>\<open>find_from\<close> reports lies in the text, and the bound of
  \<^const>\<open>re_finditer\<close> is enough: a larger one gives the same matches.
\<close>

lemma find_from_fuel:
  "length s < n \<Longrightarrow> find_from (Suc n) r pre s = find_from n r pre s"
proof (induction n arbitrary: pre s)
  case (Suc n)
  show ?case
  proof (cases "search_from r pre s")
    case (Some bst)
    then obtain b st where bst: "search_from r pre s = Some (b, st)" by (cases bst) auto
    from search_from_Some [OF this] obtain u t where
      ut: "s = u @ t" "b = rev u @ pre" and m: "rmatch r (start_at b t) Some = Some st" by blast
    from rmatch_advances [OF m] obtain w where w: "t = w @ ahead st" "behind st = rev w @ b"
      by (auto simp: advances_def start_at_def)
    show ?thesis
    proof (cases "behind st = b")
      case True
      have "find_from (Suc n) r (c # behind st) cs = find_from n r (c # behind st) cs"
        if "ahead st = c # cs" for c cs
        using Suc.prems ut w that by (intro Suc.IH) auto
      with True bst show ?thesis by (auto split: list.splits)
    next
      case False
      with w have "w \<noteq> []" by auto
      then have "find_from (Suc n) r (behind st) (ahead st) = find_from n r (behind st) (ahead st)"
        using Suc.prems ut w by (intro Suc.IH) (cases w, auto)
      with False bst show ?thesis by simp
    qed
  qed simp
qed simp

text \<open>The groups of the derived forms.\<close>

lemma rseq_groups [simp]:
  "groups (rseq (r # rs)) = groups r @ groups (rseq rs)"
  "always (rseq (r # rs)) = always r @ always (rseq rs)"
  "groups (rseq []) = []" "always (rseq []) = []"
  by (cases rs; simp)+

lemma rstr_groups [simp]: "groups (rstr s) = []" "always (rstr s) = []"
  by (induction s) (auto simp: rstr_def rlit_def simp del: rseq.simps(2,3))

lemma findall_grp_unique:
  assumes "m \<in> set (re_findall r s)" "i \<in> set (always r)" "map_of (groups r) i = Some r'"
    "distinct (map fst (groups r))"
  shows "grp m i \<in> lang r'"
  using findall_grp [OF assms(1,2)] assms(3,4) by (metis map_of_eq_Some_iff option.inject)

lemma findall_Nil: "re_findall r s = [] \<longleftrightarrow> re_search r s = None"
  by (auto simp: re_findall_def re_finditer_def re_search_def split: option.splits)

text \<open>A match is a piece of the text that belongs to the language of the expression.\<close>

lemma search_lang:
  assumes "search_from r pre s = Some (b, st)"
  shows "\<exists>w. w \<in> lang r \<and> sublist w s"
proof -
  from search_from_Some [OF assms] obtain u t where
    ut: "s = u @ t" and m: "rmatch r (start_at b t) Some = Some st" by blast
  from rs.sound [OF m] obtain w where "t = w @ ahead st" "w \<in> lang r"
    by (auto simp: start_at_def)
  with ut \<open>w \<in> lang r\<close> show ?thesis by (auto simp: sublist_def)
qed

lemma lang_rseq_Cons: "lang (rseq (r # rs)) = {u @ v |u v. u \<in> lang r \<and> v \<in> lang (rseq rs)}"
  by (cases rs) auto

lemma lang_rstr [simp]: "lang (rstr w) = {w}"
proof (induction w)
  case (Cons c w)
  have "lang (rstr (c # w)) = {u @ v |u v. u \<in> lang (rlit c) \<and> v \<in> lang (rstr w)}"
    by (simp only: rstr_def list.map lang_rseq_Cons)
  with Cons show ?case by (auto simp: rlit_def in_class_def)
qed (simp add: rstr_def)

lemma lang_rseq_member:
  "rstr w \<in> set rs \<Longrightarrow> u \<in> lang (rseq rs) \<Longrightarrow> sublist w u"
proof (induction rs arbitrary: u)
  case (Cons r rs)
  then obtain x y where "u = x @ y" "x \<in> lang r" "y \<in> lang (rseq rs)"
    by (auto simp: lang_rseq_Cons simp del: rseq.simps)
  with Cons show ?case by (auto simp: sublist_append)
qed simp

text \<open>An expression with a literal part does not match a text without it.\<close>

lemma findall_absent:
  assumes "\<not> contains w s" "rstr w \<in> set rs"
  shows "re_findall (rseq rs) s = []"
proof -
  have "search_from (rseq rs) [] s = None"
  proof (rule ccontr)
    assume "search_from (rseq rs) [] s \<noteq> None"
    then obtain b st where "search_from (rseq rs) [] s = Some (b, st)" by auto
    from search_lang [OF this] obtain u where "u \<in> lang (rseq rs)" "sublist u s" by blast
    with lang_rseq_member [OF assms(2)] have "sublist w s"
      using sublist_order.order_trans by blast
    with assms(1) show False by (simp add: contains_sublist)
  qed
  then show ?thesis by (simp add: findall_Nil re_search_def)
qed

text \<open>The equations that evaluate a match on a given text, with \<open>rseq.simps(2,3)\<close> taken out of the simplifier.\<close>

lemmas re_eval =
  rmatch_rseq_Cons rmatch_rstr rmatch_rlit rplus_def rany_def step_char_def in_class_def eat_def start_at_def
  grp_def group_def re_search_def is_word_def is_space_def is_digit_def code_def

end
