(* ===== verification/Cheri_Cap.thy ===== *)
theory Cheri_Cap
  imports Py_Regex
begin

unbundle bit_operations_syntax

text \<open>
  The capability decoder of \<^verbatim>\<open>dv/cheriot/scripts/compare_trace.py\<close>: permissions of the ibex trace
  (6 bits, compressed) and of the Sail trace (letters) to the common 13-bit format, and the bounds
  of a capability word relative to an address. Python's integers are unbounded, so they are \<open>int\<close>;
  \<open>>>\<close> is \<^const>\<open>drop_bit\<close>, \<open><<\<close> is \<^const>\<open>push_bit\<close>.

  The lemmas show that the decoded bounds are the ones the compressed encoding stands for: the base
  is the only multiple of the alignment with the stored low bits within one region below the
  address, the length depends on the stored fields only, and every address of the region decodes to
  the same bounds.
\<close>

section \<open>Permissions\<close>

definition PERM_GL :: nat where [cap_defs]: "PERM_GL = 0"
definition PERM_LG :: nat where [cap_defs]: "PERM_LG = 1"
definition PERM_SD :: nat where [cap_defs]: "PERM_SD = 2"
definition PERM_LM :: nat where [cap_defs]: "PERM_LM = 3"
definition PERM_SL :: nat where [cap_defs]: "PERM_SL = 4"
definition PERM_LD :: nat where [cap_defs]: "PERM_LD = 5"
definition PERM_MC :: nat where [cap_defs]: "PERM_MC = 6"
definition PERM_SR :: nat where [cap_defs]: "PERM_SR = 7"
definition PERM_EX :: nat where [cap_defs]: "PERM_EX = 8"
definition PERM_US :: nat where [cap_defs]: "PERM_US = 9"
definition PERM_SE :: nat where [cap_defs]: "PERM_SE = 10"
definition PERM_U0 :: nat where [cap_defs]: "PERM_U0 = 11"

definition expand_perms :: "int \<Rightarrow> int" where
  "expand_perms cperms_in =
     (let PERM_MC_IMSK = push_bit PERM_LD 1 OR push_bit PERM_MC 1 OR push_bit PERM_SD 1;
          PERM_LC_IMSK = push_bit PERM_LD 1 OR push_bit PERM_MC 1;
          PERM_SC_IMSK = push_bit PERM_SD 1 OR push_bit PERM_MC 1;
          PERM_DD_IMSK = 0;
          PERM_EX_IMSK = push_bit PERM_EX 1 OR push_bit PERM_MC 1 OR push_bit PERM_LD 1;
          PERM_SE_IMSK = 0;
          perms = 0 OR drop_bit 5 cperms_in;
          cperms = cperms_in AND 0x1f
      in if drop_bit 3 cperms = 0x3 then
           perms OR push_bit PERM_LG (cperms AND 0x1)
                 OR push_bit PERM_LM (drop_bit 1 (cperms AND 0x2))
                 OR push_bit PERM_SL (drop_bit 2 (cperms AND 0x4))
                 OR PERM_MC_IMSK
         else if drop_bit 2 cperms = 0x5 then
           perms OR push_bit PERM_LG (cperms AND 0x1)
                 OR push_bit PERM_LM (drop_bit 1 (cperms AND 0x2))
                 OR PERM_LC_IMSK
         else if cperms = 0x10 then
           perms OR PERM_SC_IMSK
         else if drop_bit 2 cperms = 0x4 then
           perms OR push_bit PERM_SD (cperms AND 0x1)
                 OR push_bit PERM_LD (drop_bit 1 (cperms AND 0x2))
                 OR PERM_DD_IMSK
         else if drop_bit 3 cperms = 0x1 then
           perms OR push_bit PERM_LG (cperms AND 0x1)
                 OR push_bit PERM_LM (drop_bit 1 (cperms AND 0x2))
                 OR push_bit PERM_SR (drop_bit 2 (cperms AND 0x4))
                 OR PERM_EX_IMSK
         else if drop_bit 3 cperms = 0x0 then
           perms OR push_bit PERM_US (cperms AND 0x1)
                 OR push_bit PERM_SE (drop_bit 1 (cperms AND 0x2))
                 OR push_bit PERM_U0 (drop_bit 2 (cperms AND 0x4))
                 OR PERM_SE_IMSK
         else perms)"

text \<open>The letters of the Sail trace, in the order the code looks for them.\<close>

definition sail_letters :: "(char \<times> nat) list" where
  "sail_letters =
     [(CHR ''G'', PERM_GL), (CHR ''R'', PERM_LD), (CHR ''W'', PERM_SD), (CHR ''c'', PERM_MC),
      (CHR ''g'', PERM_LG), (CHR ''m'', PERM_LM), (CHR ''l'', PERM_SL), (CHR ''X'', PERM_EX),
      (CHR ''a'', PERM_SR), (CHR ''S'', PERM_SE), (CHR ''U'', PERM_US), (CHR ''0'', PERM_U0)]"

definition parse_sail_perms :: "string \<Rightarrow> int" where
  "parse_sail_perms perm_str =
     fold (\<lambda>(c, b) perms. if re_search (rlit c) perm_str \<noteq> None then perms OR push_bit b 1 else perms)
       sail_letters 0"

section \<open>Capabilities\<close>

text \<open>The tuple \<^verbatim>\<open>(tag, perm, obj_type, exp, top, base)\<close>; positions 0 to 5 in this order.\<close>

record cap =
  c_tag :: int
  c_perm :: int
  c_otype :: int
  c_exp :: int
  c_top :: int
  c_base :: int

definition zero_cap :: cap where
  "zero_cap = \<lparr>c_tag = 0, c_perm = 0, c_otype = 0, c_exp = 0, c_top = 0, c_base = 0\<rparr>"

definition parse_ibex_cap :: "int \<Rightarrow> int \<Rightarrow> cap" where
  "parse_ibex_cap cap_val addr_val =
     (let tag = drop_bit 32 cap_val;
          cperms = drop_bit 25 cap_val AND 0x3f;
          obj_type = drop_bit 22 cap_val AND 0x7;
          exp4 = drop_bit 18 cap_val AND 0xf;
          exp = (if exp4 = 15 then 24 else nat exp4);
          top9 = drop_bit 9 cap_val AND 0x1ff;
          base9 = cap_val AND 0x1ff;
          addrmi9 = drop_bit exp addr_val AND 0x1ff;
          top_cor = (if top9 < base9 \<and> addrmi9 < base9 then 0
                     else if top9 \<ge> base9 \<and> addrmi9 \<ge> base9 then 0
                     else if top9 < base9 \<and> addrmi9 \<ge> base9 then 1
                     else -1);
          base_cor = (if addrmi9 < base9 then 1 else 0);
          top = (if exp = 24 then push_bit exp top9
                 else push_bit exp top9 + push_bit (exp + 9) (drop_bit (exp + 9) addr_val + top_cor));
          base = (if exp = 24 then push_bit exp base9
                  else push_bit exp base9 + push_bit (exp + 9) (drop_bit (exp + 9) addr_val - base_cor))
      in \<lparr>c_tag = tag, c_perm = expand_perms cperms, c_otype = obj_type, c_exp = 0,
          c_top = top AND 0x1ffffffff, c_base = base AND 0xffffffff\<rparr>)"

section \<open>The fields of the encoding\<close>

text \<open>The stored exponent and the 9-bit fields, and the bounds they stand for before truncation.\<close>

definition cap_E :: "int \<Rightarrow> nat" where
  "cap_E w = (let e = drop_bit 18 w AND 0xf in if e = 15 then 24 else nat e)"

definition cap_T :: "int \<Rightarrow> int" where "cap_T w = drop_bit 9 w mod 512"
definition cap_B :: "int \<Rightarrow> int" where "cap_B w = w mod 512"

definition region_base :: "nat \<Rightarrow> int \<Rightarrow> int \<Rightarrow> int" where
  "region_base E B a =
     B * 2 ^ E + (a div 2 ^ (E + 9) - (if a div 2 ^ E mod 512 < B then 1 else 0)) * 2 ^ (E + 9)"

lemma and_mask_int: "(x :: int) AND 0x1ff = x mod 512" "x AND 0xf = x mod 16"
  "x AND 0x7 = x mod 8" "x AND 0x3f = x mod 64" "x AND 0x1f = x mod 32"
  "x AND 0xffffffff = x mod 2 ^ 32" "x AND 0x1ffffffff = x mod 2 ^ 33"
  subgoal using take_bit_eq_mask [of 9 x] by (simp add: take_bit_eq_mod mask_eq_exp_minus_1)
  subgoal using take_bit_eq_mask [of 4 x] by (simp add: take_bit_eq_mod mask_eq_exp_minus_1)
  subgoal using take_bit_eq_mask [of 3 x] by (simp add: take_bit_eq_mod mask_eq_exp_minus_1)
  subgoal using take_bit_eq_mask [of 6 x] by (simp add: take_bit_eq_mod mask_eq_exp_minus_1)
  subgoal using take_bit_eq_mask [of 5 x] by (simp add: take_bit_eq_mod mask_eq_exp_minus_1)
  subgoal using take_bit_eq_mask [of 32 x] by (simp add: take_bit_eq_mod mask_eq_exp_minus_1)
  subgoal using take_bit_eq_mask [of 33 x] by (simp add: take_bit_eq_mod mask_eq_exp_minus_1)
  done

lemma cap_B_range: "0 \<le> cap_B w" "cap_B w < 512"
  by (simp_all add: cap_B_def)

lemma cap_T_range: "0 \<le> cap_T w" "cap_T w < 512"
  by (simp_all add: cap_T_def)

lemma cap_E_range: "cap_E w \<noteq> 24 \<Longrightarrow> cap_E w < 15"
proof -
  assume "cap_E w \<noteq> 24"
  then have "cap_E w = nat (drop_bit 18 w mod 16)" and ne: "drop_bit 18 w mod 16 \<noteq> 15"
    by (auto simp: cap_E_def and_mask_int Let_def split: if_splits)
  moreover have "drop_bit 18 w mod 16 < 16" "0 \<le> drop_bit 18 w mod 16" by simp_all
  ultimately show ?thesis by linarith
qed

section \<open>The region of an address\<close>

lemma addr_split:
  fixes a :: int
  obtains q m r where "a = q * 2 ^ (E + 9) + m * 2 ^ E + r" "0 \<le> m" "m < 512" "0 \<le> r" "r < 2 ^ E"
    "a div 2 ^ (E + 9) = q" "a div 2 ^ E mod 512 = m"
proof
  let ?d = "a div 2 ^ E"
  have e: "a div 2 ^ (E + 9) = ?d div 512"
    by (simp add: power_add zdiv_zmult2_eq)
  have "?d = ?d div 512 * 512 + ?d mod 512" by simp
  then have "?d * 2 ^ E = (?d div 512 * 512 + ?d mod 512) * 2 ^ E" by simp
  also have "\<dots> = ?d div 512 * 2 ^ (E + 9) + (?d mod 512) * 2 ^ E"
    by (simp only: power_add distrib_right) simp
  moreover have "a = ?d * 2 ^ E + a mod 2 ^ E" by (simp only: div_mult_mod_eq)
  ultimately show "a = a div 2 ^ (E + 9) * 2 ^ (E + 9) + (?d mod 512) * 2 ^ E + a mod 2 ^ E"
    unfolding e by linarith
qed simp_all

lemma region_base_window:
  assumes "0 \<le> B" "B < 512"
  shows "region_base E B a \<le> a" "a < region_base E B a + 2 ^ (E + 9)"
proof -
  obtain q m r where a: "a = q * 2 ^ (E + 9) + m * 2 ^ E + r" and m: "0 \<le> m" "m < 512"
    and r: "0 \<le> r" "r < 2 ^ E" and q: "a div 2 ^ (E + 9) = q" "a div 2 ^ E mod 512 = m"
    by (rule addr_split)
  have p: "(2 :: int) ^ (E + 9) = 512 * 2 ^ E" by (simp add: power_add)
  have d: "a - region_base E B a = (m - B + (if m < B then 512 else 0)) * 2 ^ E + r"
    unfolding region_base_def q by (subst a) (simp add: p algebra_simps)
  define j where "j = m - B + (if m < B then 512 else 0)"
  have j: "0 \<le> j" "j \<le> 511" using assms m by (auto simp: j_def)
  then have "0 \<le> j * 2 ^ E" "j * 2 ^ E \<le> 511 * 2 ^ E" by (simp_all add: mult_right_mono)
  with d r show "region_base E B a \<le> a" "a < region_base E B a + 2 ^ (E + 9)"
    unfolding p j_def by linarith+
qed

lemma region_base_cong: "\<exists>z. region_base E B a = B * 2 ^ E + z * 2 ^ (E + 9)"
  by (auto simp: region_base_def)

lemma region_base_unique:
  assumes "0 \<le> B" "B < 512" "region_base E B a \<le> a'" "a' < region_base E B a + 2 ^ (E + 9)"
  shows "region_base E B a' = region_base E B a"
proof -
  obtain z z' where z: "region_base E B a = B * 2 ^ E + z * 2 ^ (E + 9)"
    "region_base E B a' = B * 2 ^ E + z' * 2 ^ (E + 9)"
    using region_base_cong by blast
  have w: "region_base E B a' \<le> a'" "a' < region_base E B a' + 2 ^ (E + 9)"
    using region_base_window assms(1,2) by blast+
  have "z' * 2 ^ (E + 9) < (z + 1) * 2 ^ (E + 9)" "z * 2 ^ (E + 9) < (z' + 1) * 2 ^ (E + 9)"
    using w assms(3,4) z by (simp_all add: distrib_right)
  then have "z' < z + 1" "z < z' + 1" by simp_all
  with z show ?thesis by simp
qed

text \<open>The decoded bounds in terms of the fields.\<close>

definition top_correction :: "int \<Rightarrow> int \<Rightarrow> int \<Rightarrow> int" where
  "top_correction T B m =
     (if T < B \<and> m < B then 0 else if T \<ge> B \<and> m \<ge> B then 0 else if T < B \<and> m \<ge> B then 1 else -1)"

lemma parse_ibex_cap_fields:
  "parse_ibex_cap w a =
     (let E = cap_E w; m = a div 2 ^ E mod 512; q = a div 2 ^ (E + 9) in
      \<lparr>c_tag = w div 2 ^ 32, c_perm = expand_perms (w div 2 ^ 25 mod 64),
       c_otype = w div 2 ^ 22 mod 8, c_exp = 0,
       c_top = (if E = 24 then cap_T w * 2 ^ E
                else cap_T w * 2 ^ E + (q + top_correction (cap_T w) (cap_B w) m) * 2 ^ (E + 9)) mod 2 ^ 33,
       c_base = (if E = 24 then cap_B w * 2 ^ E
                 else cap_B w * 2 ^ E + (q - (if m < cap_B w then 1 else 0)) * 2 ^ (E + 9)) mod 2 ^ 32\<rparr>)"
proof -
  have E: "(if w div 2 ^ 18 mod 16 = 15 then 24 else nat (w div 2 ^ 18 mod 16)) = cap_E w"
    by (simp add: cap_E_def Let_def and_mask_int drop_bit_eq_div)
  have T: "w div 2 ^ 9 mod 512 = cap_T w" and B: "w mod 512 = cap_B w"
    by (simp_all add: cap_T_def cap_B_def drop_bit_eq_div)
  show ?thesis
    unfolding parse_ibex_cap_def and_mask_int drop_bit_eq_div push_bit_eq_mult Let_def E T B
      top_correction_def by (rule refl)
qed

lemma parse_ibex_cap_meta:
  "c_tag (parse_ibex_cap w a) = w div 2 ^ 32"
  "c_perm (parse_ibex_cap w a) = expand_perms (w div 2 ^ 25 mod 64)"
  "c_otype (parse_ibex_cap w a) = w div 2 ^ 22 mod 8"
  "c_exp (parse_ibex_cap w a) = 0"
  by (simp_all add: parse_ibex_cap_fields Let_def)

lemma parse_ibex_cap_base:
  assumes "cap_E w \<noteq> 24"
  shows "c_base (parse_ibex_cap w a) = region_base (cap_E w) (cap_B w) a mod 2 ^ 32"
  using assms by (simp add: parse_ibex_cap_fields Let_def region_base_def)

lemma parse_ibex_cap_top:
  assumes "cap_E w \<noteq> 24"
  shows "c_top (parse_ibex_cap w a) =
     (region_base (cap_E w) (cap_B w) a + (cap_T w - cap_B w) mod 512 * 2 ^ cap_E w) mod 2 ^ 33"
proof -
  define E B T where "E = cap_E w" and "B = cap_B w" and "T = cap_T w"
  define m q where "m = a div 2 ^ E mod 512" and "q = a div 2 ^ (E + 9)"
  have BT: "0 \<le> B" "B < 512" "0 \<le> T" "T < 512"
    unfolding B_def T_def using cap_B_range cap_T_range by blast+
  have TB: "(T - B) mod 512 = (if T < B then T - B + 512 else T - B)"
    using BT mod_pos_pos_trivial [of "T - B + 512" 512] by auto
  have "T * 2 ^ E + (q + top_correction T B m) * 2 ^ (E + 9) =
    B * 2 ^ E + (q - (if m < B then 1 else 0)) * 2 ^ (E + 9) + (T - B) mod 512 * 2 ^ E"
    unfolding TB top_correction_def by (auto simp: power_add algebra_simps)
  then show ?thesis
    using assms unfolding E_def B_def T_def m_def q_def
    by (simp add: parse_ibex_cap_fields Let_def region_base_def)
qed

section \<open>Properties of the decoder\<close>

lemma region_base_no_wrap:
  assumes "cap_E w \<noteq> 24" "0 \<le> a" "a < 2 ^ 32" "c_base (parse_ibex_cap w a) \<le> a"
  shows "region_base (cap_E w) (cap_B w) a = c_base (parse_ibex_cap w a)"
proof -
  define E b where "E = cap_E w" and "b = region_base E (cap_B w) a"
  have win: "b \<le> a" "a < b + 2 ^ (E + 9)"
    unfolding b_def using region_base_window cap_B_range by blast+
  have "E + 9 \<le> 23" using cap_E_range [of w] assms(1) by (simp add: E_def)
  then have small: "(2 :: int) ^ (E + 9) \<le> 2 ^ 23" by (rule power_increasing) simp
  have m: "c_base (parse_ibex_cap w a) = b mod 2 ^ 32"
    using parse_ibex_cap_base assms(1) by (simp add: b_def E_def)
  have "0 \<le> b"
  proof (rule ccontr)
    assume "\<not> 0 \<le> b"
    moreover have "- (2 ^ 23) \<le> b" using win small assms(2) by linarith
    ultimately have "b mod 2 ^ 32 = b + 2 ^ 32"
      using mod_pos_pos_trivial [of "b + 2 ^ 32" "2 ^ 32"] by simp
    with m assms(4) win small \<open>\<not> 0 \<le> b\<close> show False by simp
  qed
  with win assms(3) m show ?thesis by (simp add: b_def E_def)
qed


lemma parse_ibex_cap_example:
  "c_base (parse_ibex_cap 0x17e800210 0x8010) = 0x8010"
  "cap_E 0x17e800210 = 0"
  by code_simp+


lemma parse_ibex_cap_length_aux:
  assumes "cap_E w \<noteq> 24"
  shows "(c_top (parse_ibex_cap w a) - c_base (parse_ibex_cap w a)) mod 2 ^ 32
           = (cap_T w - cap_B w) mod 512 * 2 ^ cap_E w"
    and "(a - c_base (parse_ibex_cap w a)) mod 2 ^ 32 < 2 ^ (cap_E w + 9)"
proof -
  define E b l where "E = cap_E w" and "b = region_base E (cap_B w) a"
    and "l = (cap_T w - cap_B w) mod 512 * 2 ^ E"
  have "E \<le> 14" using cap_E_range assms by (fastforce simp: E_def)
  then have p: "(2 :: int) ^ E \<le> 2 ^ 14" "(2 :: int) ^ (E + 9) \<le> 2 ^ 23"
    using power_increasing [of E 14 "2 :: int"] power_increasing [of "E + 9" 23 "2 :: int"] by simp_all
  have "(cap_T w - cap_B w) mod 512 \<le> 511" "0 \<le> (cap_T w - cap_B w) mod 512"
    using pos_mod_bound [of 512 "cap_T w - cap_B w"] by simp_all
  then have "l \<le> 511 * 2 ^ E" "0 \<le> l" unfolding l_def by (simp_all add: mult_right_mono)
  with p have l: "0 \<le> l" "l < 2 ^ 32" by simp_all
  have top: "c_top (parse_ibex_cap w a) = (b + l) mod 2 ^ 33"
    and base: "c_base (parse_ibex_cap w a) = b mod 2 ^ 32"
    using parse_ibex_cap_top [OF assms] parse_ibex_cap_base [OF assms] by (simp_all add: b_def l_def E_def)
  have "((b + l) mod 2 ^ 33 - b mod 2 ^ 32) mod 2 ^ 32 = ((b + l) mod 2 ^ 33 mod 2 ^ 32 - b) mod 2 ^ 32"
    by (simp add: mod_diff_left_eq mod_diff_right_eq)
  also have "(b + l) mod 2 ^ 33 mod 2 ^ 32 = (b + l) mod (2 ^ 32 :: int)"
    by (rule mod_mod_cancel) simp
  also have "((b + l) mod 2 ^ 32 - b) mod 2 ^ 32 = l"
    using l by (simp add: mod_diff_left_eq)
  finally show "(c_top (parse_ibex_cap w a) - c_base (parse_ibex_cap w a)) mod 2 ^ 32
      = (cap_T w - cap_B w) mod 512 * 2 ^ cap_E w"
    by (simp add: top base l_def E_def)
  have win: "b \<le> a" "a < b + 2 ^ (E + 9)"
    unfolding b_def using region_base_window cap_B_range by blast+
  have "(a - b mod 2 ^ 32) mod 2 ^ 32 = (a - b) mod 2 ^ 32" by (simp add: mod_diff_right_eq)
  also have "\<dots> = a - b" using win p by (intro mod_pos_pos_trivial) simp_all
  finally show "(a - c_base (parse_ibex_cap w a)) mod 2 ^ 32 < 2 ^ (cap_E w + 9)"
    using win by (simp add: base E_def)
qed

text \<open>The expanded permissions fit in 12 bits: checked for each of the 64 compressed values.\<close>

lemma expand_perms_range_list: "list_all (\<lambda>p. 0 \<le> expand_perms p \<and> expand_perms p < 4096) [0..63]"
  by code_simp

lemma expand_perms_range_all: "0 \<le> p \<Longrightarrow> p < 64 \<Longrightarrow> 0 \<le> expand_perms p \<and> expand_perms p < 4096"
  using expand_perms_range_list by (simp add: list_all_iff)

text \<open>
  Ranges: for a 33-bit capability word the decoded tag is 0 or 1, the permissions fit in 12 bits,
  the type in 3, the top in 33 and the base in 32, whatever integer is given as the address.
\<close>

lemma parse_ibex_cap_ranges:
  assumes "0 \<le> w" "w < 2 ^ 33" and "c = parse_ibex_cap w a"
  shows "c_tag c \<in> {0, 1} \<and> c_perm c \<in> {0..<2 ^ 12} \<and> c_otype c \<in> {0..<8} \<and>
     c_top c \<in> {0..<2 ^ 33} \<and> c_base c \<in> {0..<2 ^ 32}"
proof -
  have "w div 2 ^ 32 < 2" "0 \<le> w div 2 ^ 32" using assms by (simp_all add: div_less_iff_less_mult)
  then have "w div 2 ^ 32 \<in> {0, 1}" by auto
  moreover have "0 \<le> expand_perms (w div 2 ^ 25 mod 64) \<and> expand_perms (w div 2 ^ 25 mod 64) < 4096"
    by (rule expand_perms_range_all) simp_all
  ultimately show ?thesis
    using assms(3) by (auto simp: parse_ibex_cap_fields Let_def)
qed

text \<open>Looking for one letter is membership.\<close>

lemma search_rlit: "re_search (rlit c) s \<noteq> None \<longleftrightarrow> c \<in> set s"
proof -
  have "rlit c = rstr [c]" by (simp add: rstr_def)
  moreover have "contains [c] s \<longleftrightarrow> c \<in> set s"
    by (auto simp: contains_sublist sublist_def in_set_conv_decomp)
  ultimately show ?thesis using search_rstr_None [of "[c]" s] by auto
qed

lemma bit_or_exp: "bit (p OR 2 ^ b :: int) n \<longleftrightarrow> bit p n \<or> n = b"
  by (auto simp: bit_or_iff bit_exp_iff)

lemma bit_fold_letters:
  "bit (fold (\<lambda>(c, b) p. if c \<in> set s then p OR push_bit b 1 else p) ls (z :: int)) n \<longleftrightarrow>
     bit z n \<or> (\<exists>c \<in> set s. (c, n) \<in> set ls)"
  by (induction ls arbitrary: z) (auto simp: bit_or_exp split: if_splits)

text \<open>
  The Sail permission string: bit \<open>n\<close> of the parsed permissions is set exactly when the letter of
  permission \<open>n\<close> occurs in the string, wherever it stands and whatever else the string holds.
\<close>

lemma parse_sail_perms_bit:
  "bit (parse_sail_perms s) n \<longleftrightarrow> (\<exists>c \<in> set s. (c, n) \<in> set sail_letters)"
  unfolding parse_sail_perms_def search_rlit by (simp add: bit_fold_letters)

end
