(* ===== verification/Trace_Obj.thy ===== *)
theory Trace_Obj
  imports Cheri_Cap
begin

text \<open>
  The record of one executed instruction in \<^verbatim>\<open>dv/cheriot/scripts/compare_trace.py\<close>, class
  \<^verbatim>\<open>trace_obj\<close>, and its comparisons. The lemmas say what an equal pair agrees on, and what the
  comparison does not look at.
\<close>

section \<open>The class\<close>

record trace_obj =
  line_num :: int
  valid :: int
  cycle :: int
  pc :: int
  instr :: int
  is_clc :: int
  trap :: int
  trap_nxt :: int
  trap_pc :: int
  intr :: int
  reg_wr :: int
  reg_waddr :: int
  reg_wdata :: int
  reg_wcap :: cap
  mem_wr :: int
  mem_rd :: int
  mem_addr :: int
  mem_size :: int
  mem_data :: int
  reg_rd1 :: int
  reg_raddr1 :: int
  reg_rdata1 :: int
  reg_rcap1 :: cap
  reg_rd2 :: int
  reg_raddr2 :: int
  reg_rdata2 :: int
  reg_rcap2 :: cap
  uart_wr :: int

definition new_obj :: trace_obj where
  "new_obj =
     \<lparr>line_num = 0, valid = 0, cycle = 0, pc = 0, instr = 0, is_clc = 0, trap = 0, trap_nxt = 0,
      trap_pc = 0, intr = 0, reg_wr = 0, reg_waddr = 0, reg_wdata = 0, reg_wcap = zero_cap,
      mem_wr = 0, mem_rd = 0, mem_addr = 0, mem_size = 0, mem_data = 0,
      reg_rd1 = 0, reg_raddr1 = 0, reg_rdata1 = 0, reg_rcap1 = zero_cap,
      reg_rd2 = 0, reg_raddr2 = 0, reg_rdata2 = 0, reg_rcap2 = zero_cap, uart_wr = 0\<rparr>"

text \<open>The slice \<^verbatim>\<open>cap[1:5]\<close>: permissions, type, exponent and top.\<close>

definition cap_1_5 :: "cap \<Rightarrow> int list" where
  "cap_1_5 c = [c_perm c, c_otype c, c_exp c, c_top c]"

definition almost_eq :: "trace_obj \<Rightarrow> trace_obj \<Rightarrow> bool" where
  "almost_eq self other =
     (let t1 = (valid self = 1 \<and> valid other = 1 \<and> pc self = pc other \<and> trap self = trap other);
          t2 = (instr self = instr other \<and> reg_wr self = reg_wr other \<and>
                (reg_wr self = 0 \<or>
                 (reg_wr self = 1 \<and> reg_waddr self = reg_waddr other \<and>
                  reg_wdata self = reg_wdata other \<and>
                  cap_1_5 (reg_wcap self) = cap_1_5 (reg_wcap other))));
          t3 = (mem_wr self = mem_wr other \<and> mem_rd self = mem_rd other \<and>
                mem_rd self = 0 \<and> mem_rd self = 0);
          t4 = (mem_wr self = mem_wr other \<and> mem_wr self = 1 \<and>
                mem_addr self = mem_addr other \<and> mem_size self = mem_size other \<and>
                mem_data self = mem_data other);
          t5 = (mem_rd self = mem_rd other \<and> mem_rd self = 1 \<and>
                mem_addr self = mem_addr other \<and> mem_size self = mem_size other);
          t6 = (uart_wr self = 1 \<and> uart_wr other = 1)
      in t1 \<and> (trap self = 1 \<or> (trap self = 0 \<and> t2 \<and> (t3 \<or> t4 \<or> t5 \<or> t6))))"

definition obj_eq :: "trace_obj \<Rightarrow> trace_obj \<Rightarrow> bool" where
  "obj_eq self other =
     (if almost_eq self other \<and> c_tag (reg_wcap self) = c_tag (reg_wcap other) then True else False)"

section \<open>Printing\<close>

definition upper_char :: "char \<Rightarrow> char" where
  "upper_char c = (if 97 \<le> code c \<and> code c \<le> 122 then char_of (code c - 32) else c)"

text \<open>The format \<^verbatim>\<open>0Wx\<close>: the sign, then zeros up to the width.\<close>

definition hex_pad :: "nat \<Rightarrow> int \<Rightarrow> string" where
  "hex_pad w i =
     (if i < 0 then CHR ''-'' # pad_left (CHR ''0'') (w - 1) (nat_str 16 (nat (- i)))
      else pad_left (CHR ''0'') w (nat_str 16 (nat i)))"

definition obj_str :: "trace_obj \<Rightarrow> string" where
  "obj_str o1 =
     (let c = reg_wcap o1 in
      ''trace_obj: line '' @ pad_left (CHR '' '') 6 (int_str (line_num o1)) @ '','' @
      int_str (valid o1) @ '', '' @ int_str (trap o1) @ '', '' @ int_str (cycle o1) @ '', 0x'' @
      hex_pad 8 (pc o1) @ '', 0x'' @ hex_pad 8 (instr o1) @ '', '' @
      ''['' @ int_str (reg_wr o1) @ '', '' @ int_str (reg_waddr o1) @ '', 0x'' @
      map upper_char (hex_str (reg_wdata o1)) @ '', '' @
      ''('' @ int_str (c_tag c) @ '', 0x'' @ hex_str (c_perm c) @ '', 0x'' @ hex_str (c_otype c) @ '', '' @
      ''0x'' @ hex_str (c_exp c) @ '', 0x'' @ hex_str (c_top c) @ '', 0x'' @ hex_str (c_base c) @ '')], '' @
      ''['' @ int_str (mem_wr o1) @ '', '' @ int_str (mem_rd o1) @ '', 0x'' @ hex_str (mem_addr o1) @
      '', 0x'' @ hex_str (mem_data o1) @ '', '' @ int_str (mem_size o1) @ '']'')"

section \<open>What the comparison guarantees\<close>

lemma almost_eq_symI: "almost_eq a b \<Longrightarrow> almost_eq b a"
  by (simp add: almost_eq_def Let_def) (elim conjE disjE; simp)

lemma almost_eq_sym: "almost_eq a b \<longleftrightarrow> almost_eq b a"
  by (blast intro: almost_eq_symI)

lemma almost_eq_valid: "almost_eq a b \<Longrightarrow> valid a = 1 \<and> valid b = 1"
  by (auto simp: almost_eq_def Let_def)

lemma almost_eq_pc: "almost_eq a b \<Longrightarrow> pc a = pc b \<and> trap a = trap b"
  by (auto simp: almost_eq_def Let_def)

text \<open>
  C4. What equality means for an instruction that did not trap: the same program counter, instruction
  and register write (number, data and, for the written capability, tag, permissions, type and top).
  For a load the addresses and sizes agree too, unless both are UART writes.
\<close>

theorem obj_eq_guarantees:
  assumes "obj_eq a b" "trap a = 0"
  shows "trap b = 0 \<and> pc a = pc b \<and> instr a = instr b \<and> reg_wr a = reg_wr b \<and>
     c_tag (reg_wcap a) = c_tag (reg_wcap b) \<and>
     (reg_wr a \<noteq> 0 \<longrightarrow> reg_waddr a = reg_waddr b \<and> reg_wdata a = reg_wdata b \<and>
        c_perm (reg_wcap a) = c_perm (reg_wcap b) \<and> c_otype (reg_wcap a) = c_otype (reg_wcap b) \<and>
        c_top (reg_wcap a) = c_top (reg_wcap b)) \<and>
     (mem_rd a = 1 \<and> mem_wr a \<noteq> 1 \<and> uart_wr a \<noteq> 1 \<longrightarrow>
        mem_rd b = 1 \<and> mem_addr a = mem_addr b \<and> mem_size a = mem_size b)"
  using assms by (auto simp: obj_eq_def almost_eq_def Let_def cap_1_5_def split: if_splits)

definition load_obj :: trace_obj where
  "load_obj = new_obj\<lparr>valid := 1, pc := 0x80000000, instr := 0x52503, reg_wr := 1, reg_waddr := 10,
     reg_wdata := 7, mem_rd := 1, mem_addr := 0x20000000, mem_size := 4, mem_data := 7\<rparr>"

theorem obj_eq_guarantees_witness:
  "let a = load_obj; b = load_obj\<lparr>cycle := 9, mem_data := 8\<rparr> in
   trap b = 0 \<and> pc a = pc b \<and> instr a = instr b \<and> reg_wr a = reg_wr b \<and>
     c_tag (reg_wcap a) = c_tag (reg_wcap b) \<and>
     (reg_wr a \<noteq> 0 \<longrightarrow> reg_waddr a = reg_waddr b \<and> reg_wdata a = reg_wdata b \<and>
        c_perm (reg_wcap a) = c_perm (reg_wcap b) \<and> c_otype (reg_wcap a) = c_otype (reg_wcap b) \<and>
        c_top (reg_wcap a) = c_top (reg_wcap b)) \<and>
     (mem_rd a = 1 \<and> mem_wr a \<noteq> 1 \<and> uart_wr a \<noteq> 1 \<longrightarrow>
        mem_rd b = 1 \<and> mem_addr a = mem_addr b \<and> mem_size a = mem_size b)"
  unfolding Let_def
  by (rule obj_eq_guarantees)
     (simp_all add: load_obj_def new_obj_def obj_eq_def almost_eq_def Let_def)

section \<open>What the comparison does not look at\<close>

text \<open>
  Stores are not compared: the test for "no memory access" asks twice whether there was no load
  and never whether there was no store, so two stores that agree on everything else count as equal
  whatever their addresses, sizes and data.
\<close>

lemma stores_not_compared:
  assumes "valid a = 1" "trap a = 0" "reg_wr a = 0" "mem_wr a = 1" "mem_rd a = 0"
  shows "obj_eq a (a\<lparr>mem_addr := addr, mem_size := sz, mem_data := data\<rparr>)"
  using assms by (simp add: obj_eq_def almost_eq_def Let_def)

definition store_obj :: trace_obj where
  "store_obj = new_obj\<lparr>valid := 1, pc := 0x80000084, instr := 0xa12023, mem_wr := 1,
     mem_addr := 0x20040000, mem_size := 4, mem_data := 1\<rparr>"

text \<open>
  The base of a written capability is not compared: the slice \<^verbatim>\<open>[1:5]\<close>, meant to leave out the
  tag only, leaves out the last component too, so the result does not depend on either base.
\<close>

lemma base_not_compared:
  "obj_eq (a\<lparr>reg_wcap := c\<lparr>c_base := x\<rparr>\<rparr>) (b\<lparr>reg_wcap := d\<lparr>c_base := y\<rparr>\<rparr>)
     = obj_eq (a\<lparr>reg_wcap := c\<rparr>) (b\<lparr>reg_wcap := d\<rparr>)"
  by (simp add: obj_eq_def almost_eq_def Let_def cap_1_5_def)

end
