(* ===== verification/Trace_File.thy ===== *)
theory Trace_File
  imports Trace_Obj
begin

unbundle bit_operations_syntax

text \<open>
  The readers of the two traces in \<^verbatim>\<open>dv/cheriot/scripts/compare_trace.py\<close>: class \<^verbatim>\<open>trace_file\<close> and
  its subclasses for the ibex trace and for the Sail trace, each with the regular expressions of the
  source. A reader keeps its lines and a pointer; \<^verbatim>\<open>find_nxt\<close> returns the next instruction, or an
  object whose \<open>valid\<close> is 0 at the end of the file.

  The lemmas show that both readers give the contract of \<open>trace_source\<close>: a valid object consumes at
  least one line, an invalid one comes at the end of the file, and the lines themselves never change.
\<close>

section \<open>Trace files\<close>

record trace_file =
  tf_lines :: "string list"
  line_ptr :: nat
  is_rvfi :: int

text \<open>\<^verbatim>\<open>load\<close>; \<open>None\<close> stands for a file that cannot be opened, after which \<^verbatim>\<open>self.file\<close> is missing.\<close>

definition tf_load :: "string option \<Rightarrow> trace_file py_res" where
  "tf_load file =
     (case file of
        None \<Rightarrow> Inl AttributeError
      | Some content \<Rightarrow> Inr \<lparr>tf_lines = splitlines content, line_ptr = 0, is_rvfi = 0\<rparr>)"

definition lines_left :: "trace_file \<Rightarrow> nat" where
  "lines_left f = length (tf_lines f) - line_ptr f"

text \<open>\<^verbatim>\<open>int(s, base)\<close> with its exception.\<close>

definition get_int :: "nat \<Rightarrow> string \<Rightarrow> int py_res" where
  "get_int base s =
     (case py_int base s of
        Some i \<Rightarrow> Inr i
      | None \<Rightarrow> Inl (ValueError (''invalid literal for int() with base '' @ nat_str 10 base @
                                 '': '' @ py_repr s)))"

definition first_match :: "regex \<Rightarrow> string \<Rightarrow> mstate option" where
  "first_match r s = (case re_findall r s of [] \<Rightarrow> None | m # _ \<Rightarrow> Some m)"

text \<open>The loop at the head of both \<^verbatim>\<open>find_nxt\<close>: the first line from the pointer on that matches.\<close>

function find_line :: "regex \<Rightarrow> string list \<Rightarrow> nat \<Rightarrow> nat \<times> mstate option" where
  "find_line p ls i =
     (if i \<ge> length ls then (i, None)
      else (case first_match p (ls ! i) of
              None \<Rightarrow> find_line p ls (i + 1)
            | Some m \<Rightarrow> (i, Some m)))"
  by pat_completeness auto
termination by (relation "measure (\<lambda>(p, ls, i). length ls - i)") auto

declare find_line.simps [simp del]

section \<open>Expressions shared by the patterns\<close>

definition hexc :: regex where
  "hexc = RCls False [CRange (CHR ''0'') (CHR ''9''), CRange (CHR ''A'') (CHR ''F''),
                      CRange (CHR ''a'') (CHR ''f'')]"

definition spc :: regex where "spc = RCls False [CSpace]"
definition dig :: regex where "dig = RCls False [CDigit]"
definition nsp :: regex where "nsp = RCls False [CNotSpace]"

abbreviation hexs :: regex where "hexs \<equiv> rplus True hexc"
abbreviation spc1 :: regex where "spc1 \<equiv> rplus True spc"
abbreviation spc0 :: regex where "spc0 \<equiv> RStar True spc"

section \<open>The ibex trace\<close>

definition ibex_pattern1 :: regex where
  "ibex_pattern1 = rseq [RBol, spc0, RGroup 0 (rplus True dig), spc1, RGroup 1 (rplus True dig), spc1,
     RGroup 2 hexs, spc1, RGroup 3 hexs, spc1, RGroup 4 (rplus True nsp)]"

definition ibex_pattern2 :: regex where
  "ibex_pattern2 = rseq [rlit (CHR ''x''), RGroup 0 (rplus True dig), rstr ''=0x'', RGroup 1 hexs,
     rstr ''+0x'', RGroup 2 hexs]"

definition ibex_pattern3 :: regex where
  "ibex_pattern3 = rseq [rlit (CHR ''x''), RGroup 0 (rplus True dig), rstr ''=0x'', RGroup 1 hexs, spc0]"

definition load_or_store :: regex where
  "load_or_store = RAlt (rstr ''load'') (rstr ''store'')"

definition ibex_pattern4 :: regex where
  "ibex_pattern4 = rseq [rstr ''PA:0x'', RGroup 0 hexs, spc1, RGroup 1 load_or_store, rstr '':0x'',
     RGroup 2 hexs, rstr ''+0x'', RGroup 3 hexs]"

definition ibex_pattern5 :: regex where
  "ibex_pattern5 = rseq [rstr ''PA:0x'', RGroup 0 hexs, spc1, RGroup 1 load_or_store, rstr '':0x'',
     RGroup 2 (rplus True (RCls False [CRange (CHR ''0'') (CHR ''9''), CRange (CHR ''A'') (CHR ''F''),
                                       CRange (CHR ''a'') (CHR ''f''), CLit (CHR ''?'')])),
     RGroup 3 (RAlt spc1 REol)]"

definition ibex_pattern6 :: regex where
  "ibex_pattern6 = rseq [rlit (CHR ''x''), RGroup 0 (rplus True dig), rstr '':0x'', RGroup 1 hexs,
     rstr ''+0x'', RGroup 2 hexs]"

text \<open>The basic fields, from the first pattern.\<close>

definition ibex_basic :: "nat \<Rightarrow> mstate \<Rightarrow> trace_obj py_res" where
  "ibex_basic i m =
     bind_res (get_int 10 (grp m 1)) (\<lambda>cyc.
     bind_res (get_int 16 (grp m 2)) (\<lambda>p.
     bind_res (get_int 16 (grp m 3)) (\<lambda>ins.
       Inr (new_obj\<lparr>line_num := int i, valid := 1, cycle := cyc, pc := p, instr := ins,
              trap := (if re_search (rstr ''-->'') (grp m 4) \<noteq> None then 1 else 0),
              intr := (if re_search (rstr ''==>'') (grp m 4) \<noteq> None then 1 else 0)\<rparr>))))"

text \<open>The register write: a capability, or else an integer.\<close>

definition ibex_reg_write :: "string \<Rightarrow> trace_obj \<Rightarrow> trace_obj py_res" where
  "ibex_reg_write line o1 =
     (case first_match ibex_pattern2 line of
        Some m \<Rightarrow>
          bind_res (get_int 10 (grp m 0)) (\<lambda>a.
          bind_res (get_int 16 (grp m 1)) (\<lambda>d.
          bind_res (get_int 16 (grp m 2)) (\<lambda>c.
            Inr (o1\<lparr>reg_wr := (if a \<noteq> 0 then 1 else 0), reg_waddr := a, reg_wdata := d,
                    reg_wcap := parse_ibex_cap c d\<rparr>))))
      | None \<Rightarrow>
          (case first_match ibex_pattern3 line of
             Some m \<Rightarrow>
               bind_res (get_int 10 (grp m 0)) (\<lambda>a.
               bind_res (get_int 16 (grp m 1)) (\<lambda>d.
                 Inr (o1\<lparr>reg_wr := (if a \<noteq> 0 then 1 else 0), reg_waddr := a, reg_wdata := d,
                         reg_wcap := parse_ibex_cap 0 d\<rparr>)))
           | None \<Rightarrow> Inr o1))"

definition set_access :: "string \<Rightarrow> trace_obj \<Rightarrow> trace_obj" where
  "set_access kind o1 = (if kind = ''load'' then o1\<lparr>mem_rd := 1\<rparr> else o1\<lparr>mem_wr := 1\<rparr>)"

text \<open>A capability access: the stored word is the metadata followed by the data without its first digit.\<close>

definition ibex_mem_cap :: "string \<Rightarrow> trace_obj \<Rightarrow> trace_obj py_res" where
  "ibex_mem_cap line o1 =
     (case first_match ibex_pattern4 line of
        None \<Rightarrow> Inr o1
      | Some m \<Rightarrow>
          bind_res (get_int 16 (grp m 0)) (\<lambda>a.
          bind_res (get_int 16 (grp m 3 @ drop 1 (grp m 2))) (\<lambda>d.
            Inr (set_access (grp m 1) (o1\<lparr>mem_addr := a, mem_data := d, mem_size := 8\<rparr>)))))"

definition either_str :: "string \<Rightarrow> string \<Rightarrow> regex" where
  "either_str a b = RGroup 0 (RAlt (rstr a) (rstr b))"

definition ibex_mem :: "string \<Rightarrow> string \<Rightarrow> trace_obj \<Rightarrow> trace_obj py_res" where
  "ibex_mem mnemonic line o1 =
     (case first_match ibex_pattern5 line of
        None \<Rightarrow> Inr o1
      | Some m \<Rightarrow>
          bind_res (get_int 16 (grp m 0)) (\<lambda>a.
          bind_res (get_int 16 (re_sub (rlit (CHR ''?'')) '''' (grp m 2))) (\<lambda>d.
            let o2 = set_access (grp m 1) (o1\<lparr>mem_addr := a, mem_data := d\<rparr>);
                o3 = (if re_search (either_str ''lb'' ''sb'') mnemonic \<noteq> None then o2\<lparr>mem_size := 1\<rparr>
                      else if re_search (either_str ''lh'' ''sh'') mnemonic \<noteq> None then o2\<lparr>mem_size := 2\<rparr>
                      else if re_search (either_str ''lw'' ''sw'') mnemonic \<noteq> None then o2\<lparr>mem_size := 4\<rparr>
                      else o2);
                o4 = (if mem_size o3 = 1 \<and> mem_rd o3 \<noteq> 0 then o3\<lparr>mem_data := mem_data o3 AND 0xff\<rparr>
                      else if mem_size o3 = 2 \<and> mem_rd o3 \<noteq> 0
                      then o3\<lparr>mem_data := mem_data o3 AND 0xffff\<rparr>
                      else o3)
            in Inr (if mem_wr o4 = 1 \<and> mem_addr o4 \<ge> 0x10000000 \<and> mem_addr o4 < 0x10000100
                    then o4\<lparr>uart_wr := 1\<rparr> else o4))))"

text \<open>The capability operands: the first match is \<^verbatim>\<open>cs1\<close>; \<^verbatim>\<open>cs2\<close> only when there are exactly two.\<close>

definition ibex_reg_read :: "string \<Rightarrow> trace_obj \<Rightarrow> trace_obj py_res" where
  "ibex_reg_read line o1 =
     (let ms = re_findall ibex_pattern6 line; o2 = o1\<lparr>reg_rd1 := 0, reg_rd2 := 0\<rparr> in
      bind_res
        (case ms of
           [] \<Rightarrow> Inr o2
         | m # _ \<Rightarrow>
             bind_res (get_int 10 (grp m 0)) (\<lambda>a.
             bind_res (get_int 16 (grp m 1)) (\<lambda>d.
             bind_res (get_int 16 (grp m 2)) (\<lambda>c.
               Inr (o2\<lparr>reg_rd1 := 1, reg_raddr1 := a, reg_rdata1 := d,
                       reg_rcap1 := parse_ibex_cap c d\<rparr>)))))
        (\<lambda>o3. case ms of
           [_, m] \<Rightarrow>
             bind_res (get_int 10 (grp m 0)) (\<lambda>a.
             bind_res (get_int 16 (grp m 1)) (\<lambda>d.
             bind_res (get_int 16 (grp m 2)) (\<lambda>c.
               Inr (o3\<lparr>reg_rd2 := 1, reg_raddr2 := a, reg_rdata2 := d,
                       reg_rcap2 := parse_ibex_cap c d\<rparr>))))
         | _ \<Rightarrow> Inr o3))"

definition ibex_parse_line :: "nat \<Rightarrow> string \<Rightarrow> mstate \<Rightarrow> trace_obj py_res" where
  "ibex_parse_line i line m =
     bind_res (ibex_basic i m) (\<lambda>o1.
     bind_res (ibex_reg_write line o1) (\<lambda>o2.
     bind_res (ibex_mem_cap line o2) (\<lambda>o3.
     bind_res (ibex_mem (grp m 4) line o3) (ibex_reg_read line))))"

definition ibex_find_nxt :: "trace_file \<Rightarrow> (trace_obj \<times> trace_file) py_res" where
  "ibex_find_nxt f =
     (case find_line ibex_pattern1 (tf_lines f) (line_ptr f) of
        (i, None) \<Rightarrow> Inr (new_obj, f\<lparr>line_ptr := i\<rparr>)
      | (i, Some m) \<Rightarrow>
          bind_res (ibex_parse_line i (tf_lines f ! i) m)
            (\<lambda>o1. Inr (o1, f\<lparr>line_ptr := i + 1\<rparr>)))"

section \<open>The Sail trace\<close>

definition sail_pattern1 :: regex where
  "sail_pattern1 = rseq [RBol, spc0, rlit (CHR ''[''), RGroup 0 (rplus True dig), rlit (CHR '']''), spc1,
     rstr ''[M]:'', spc0, rstr ''0x'', RGroup 1 hexs, spc0, rstr ''(0x'', RGroup 2 hexs, rlit (CHR '')'')]"

definition sail_pattern2_0 :: regex where
  "sail_pattern2_0 = rseq [rlit (CHR ''x''), RGroup 0 (rplus True dig), spc0, rstr ''<-'', spc0,
     rstr ''0x'', RGroup 1 hexs, spc0]"

definition sail_pattern2_1 :: regex where
  "sail_pattern2_1 = rseq [rstr ''(v:'', RGroup 0 dig, spc1, rstr ''0x'', RGroup 1 hexs, rstr ''-0x'',
     RGroup 2 hexs, spc1, rstr ''l:'', rplus True nsp, spc1, rstr ''o:0x'', RGroup 3 hexs, spc1,
     rstr ''p:'', RGroup 4 (RStar False rany), rlit (CHR '')'')]"

definition sail_pattern2_2 :: regex where
  "sail_pattern2_2 = rseq [rstr ''CHERI'', RStar True rany, rstr ''Violation'', RStar True rany,
     rstr ''PC=0x'', RGroup 0 hexs]"

definition sail_pattern2_3 :: regex where
  "sail_pattern2_3 = rstr ''trapping''"

definition arrow :: regex where "arrow = RAlt (rstr ''<-'') (rstr ''->'')"

definition sail_pattern3 :: regex where
  "sail_pattern3 = rseq [RAlt (rstr ''mem'') (rstr ''htif''), rlit (CHR ''[''), RStar False rany,
     rstr ''0x'', RGroup 0 hexs, rlit (CHR '']''), spc0, RGroup 1 arrow, spc0, rstr ''0x'', RGroup 2 hexs]"

definition sail_pattern4 :: regex where
  "sail_pattern4 = rseq [rstr ''tag['', RStar False rany, rstr ''0x'', RGroup 0 hexs, rlit (CHR '']''),
     spc0, RGroup 1 arrow, spc0, RGroup 2 dig]"

definition sail_pattern5 :: regex where
  "sail_pattern5 = rseq [rstr ''uart['', rplus True nsp, rlit (CHR '']''), spc0, rstr ''<-'']"

definition re_next_fetch :: regex where
  "re_next_fetch = rseq [RBol, spc0, rstr ''mem[X'']"

definition re_blank :: regex where
  "re_blank = rseq [RBol, spc0, REol]"

definition re_response :: regex where
  "re_response = rseq [RBol, nsp, rstr ''ending'', RStar True rany, rstr ''response'']"

text \<open>The inner loop: the lines that belong to the instruction, joined with spaces.\<close>

function sail_gather :: "int \<Rightarrow> string list \<Rightarrow> nat \<Rightarrow> string \<Rightarrow> string \<times> nat" where
  "sail_gather rvfi ls i full_instr =
     (if i \<ge> length ls then (full_instr, i)
      else if rvfi = 0 \<and> re_search re_next_fetch (ls ! i) \<noteq> None then (full_instr, i + 1)
      else if re_search re_blank (ls ! i) \<noteq> None then (full_instr, i + 1)
      else if rvfi = 1 \<and> re_search re_response (ls ! i) \<noteq> None then (full_instr, i + 1)
      else sail_gather rvfi ls (i + 1) (full_instr @ '' '' @ ls ! i))"
  by pat_completeness auto
termination by (relation "measure (\<lambda>(rvfi, ls, i, s). length ls - i)") auto

declare sail_gather.simps [simp del]

definition sail_basic :: "nat \<Rightarrow> mstate \<Rightarrow> trace_obj py_res" where
  "sail_basic i m =
     bind_res (get_int 10 (grp m 0)) (\<lambda>cyc.
     bind_res (get_int 16 (grp m 1)) (\<lambda>p.
     bind_res (get_int 16 (grp m 2)) (\<lambda>ins.
       Inr (new_obj\<lparr>line_num := int i, valid := 1, cycle := cyc, pc := p, instr := ins\<rparr>))))"

definition sail_reg_write :: "string \<Rightarrow> trace_obj \<Rightarrow> trace_obj py_res" where
  "sail_reg_write full_instr o1 =
     (case (first_match sail_pattern2_0 full_instr, first_match sail_pattern2_1 full_instr) of
        (Some m0, Some m1) \<Rightarrow>
          bind_res (get_int 10 (grp m0 0)) (\<lambda>a.
          bind_res (get_int 16 (grp m0 1)) (\<lambda>d.
          bind_res (get_int 10 (grp m1 0)) (\<lambda>tag.
          bind_res (get_int 16 (grp m1 3)) (\<lambda>otype.
          bind_res (get_int 16 (grp m1 2)) (\<lambda>top.
          bind_res (get_int 16 (grp m1 1)) (\<lambda>base.
            Inr (o1\<lparr>reg_wr := 1, reg_waddr := a, reg_wdata := d,
                    reg_wcap := \<lparr>c_tag = tag, c_perm = parse_sail_perms (grp m1 4),
                      c_otype = otype AND 0x7, c_exp = 0, c_top = top, c_base = base\<rparr>\<rparr>)))))))
      | _ \<Rightarrow> Inr o1)"

definition sail_trap :: "string \<Rightarrow> trace_obj \<Rightarrow> trace_obj py_res" where
  "sail_trap full_instr o1 =
     bind_res
       (case first_match sail_pattern2_2 full_instr of
          Some m \<Rightarrow> bind_res (get_int 16 (grp m 0)) (\<lambda>p. Inr (o1\<lparr>trap_pc := p\<rparr>))
        | None \<Rightarrow> Inr (o1\<lparr>trap_pc := pc o1\<rparr>))
       (\<lambda>o2. let trapping = (re_findall sail_pattern2_3 full_instr \<noteq> []) in
          Inr (if trapping \<and> trap_pc o2 = pc o2 then o2\<lparr>trap := 1\<rparr>
               else if trapping \<and> trap_pc o2 \<noteq> pc o2 then o2\<lparr>trap_nxt := 1\<rparr>
               else o2))"

definition sail_mem :: "string \<Rightarrow> trace_obj \<Rightarrow> trace_obj py_res" where
  "sail_mem full_instr o1 =
     bind_res
       (case first_match sail_pattern3 full_instr of
          None \<Rightarrow> Inr o1
        | Some m \<Rightarrow>
            bind_res (get_int 16 (grp m 0)) (\<lambda>a.
            bind_res (get_int 16 (grp m 2)) (\<lambda>d.
              Inr (o1\<lparr>mem_wr := (if grp m 1 = ''<-'' then 1 else 0),
                      mem_rd := (if grp m 1 = ''->'' then 1 else 0),
                      mem_addr := a, mem_data := d, mem_size := int (length (grp m 2) div 2)\<rparr>))))
       (\<lambda>o2.
          bind_res
            (case first_match sail_pattern4 full_instr of
               None \<Rightarrow> Inr o2
             | Some m \<Rightarrow>
                 bind_res (get_int 10 (grp m 2)) (\<lambda>tag.
                   Inr (o2\<lparr>mem_data := mem_data o2 + push_bit 64 tag\<rparr>)))
            (\<lambda>o3. Inr (if re_findall sail_pattern5 full_instr \<noteq> [] then o3\<lparr>uart_wr := 1\<rparr> else o3)))"

definition sail_find_nxt :: "trace_file \<Rightarrow> (trace_obj \<times> trace_file) py_res" where
  "sail_find_nxt f =
     (case find_line sail_pattern1 (tf_lines f) (line_ptr f) of
        (i, None) \<Rightarrow> Inr (new_obj, f\<lparr>line_ptr := i\<rparr>)
      | (i, Some m) \<Rightarrow>
          bind_res (sail_basic i m) (\<lambda>o1.
            (case sail_gather (is_rvfi f) (tf_lines f) (i + 1) (tf_lines f ! i) of
               (full_instr, j) \<Rightarrow>
                 bind_res (sail_reg_write full_instr o1) (\<lambda>o2.
                 bind_res (sail_trap full_instr o2) (\<lambda>o3.
                 bind_res (sail_mem full_instr o3) (\<lambda>o4.
                   Inr (o4, f\<lparr>line_ptr := j\<rparr>)))))))"

text \<open>\<^verbatim>\<open>load\<close> of the Sail trace looks for the word RVFI in the first ten lines.\<close>

fun scan_rvfi :: "nat \<Rightarrow> string list \<Rightarrow> int py_res" where
  "scan_rvfi 0 ls = Inr 0"
| "scan_rvfi (Suc n) [] = Inl IndexError"
| "scan_rvfi (Suc n) (l # ls) = (if re_findall (rstr ''RVFI'') l \<noteq> [] then Inr 1 else scan_rvfi n ls)"

definition sail_load :: "string option \<Rightarrow> trace_file py_res" where
  "sail_load file =
     bind_res (tf_load file) (\<lambda>f.
     bind_res (scan_rvfi 10 (tf_lines f)) (\<lambda>r. Inr (f\<lparr>is_rvfi := r\<rparr>)))"

section \<open>The contract of a trace\<close>

text \<open>
  What the comparison relies on. \<open>left\<close> counts the lines not yet read.
\<close>

locale trace_source =
  fixes nxt :: "'f \<Rightarrow> (trace_obj \<times> 'f) py_res"
    and left :: "'f \<Rightarrow> nat"
    and text_of :: "'f \<Rightarrow> string list"
  assumes valid_flag: "nxt f = Inr (x, f') \<Longrightarrow> valid x = 0 \<or> valid x = 1"
    and valid_reads: "nxt f = Inr (x, f') \<Longrightarrow> valid x = 1 \<Longrightarrow> left f' < left f"
    and invalid_ends: "nxt f = Inr (x, f') \<Longrightarrow> valid x = 0 \<Longrightarrow> x = new_obj \<and> left f' = 0"
    and same_text: "nxt f = Inr (x, f') \<Longrightarrow> text_of f' = text_of f"
    and ended: "left f = 0 \<Longrightarrow> nxt f = Inr (new_obj, f)"
begin

lemma left_mono: "nxt f = Inr (x, f') \<Longrightarrow> left f' \<le> left f"
  using valid_flag valid_reads invalid_ends by fastforce

lemma reads_iff: "nxt f = Inr (x, f') \<Longrightarrow> left f' < left f \<or> (x = new_obj \<and> left f' = 0)"
  using valid_flag valid_reads invalid_ends by blast

text \<open>The end is stable: once an object is invalid, so is every later one.\<close>

lemma end_stable: "nxt f = Inr (x, f') \<Longrightarrow> valid x = 0 \<Longrightarrow> nxt f' = Inr (new_obj, f')"
  using invalid_ends ended by blast

end

section \<open>Reading integers never fails on digits\<close>

definition digits_below :: "nat \<Rightarrow> string \<Rightarrow> bool" where
  "digits_below b s \<longleftrightarrow> (\<forall>c \<in> set s. \<exists>d < b. digit_val c = Some d)"

lemma parse_digits_below:
  "digits_below b s \<Longrightarrow> p \<or> s \<noteq> [] \<Longrightarrow> \<exists>n. parse_digits b p acc s = Some n"
proof (induction s arbitrary: p acc)
  case (Cons c s)
  then obtain d where d: "d < b" "digit_val c = Some d" and s: "digits_below b s"
    by (auto simp: digits_below_def)
  then have "c \<noteq> CHR ''_''" by (auto simp: digit_val_def code_def)
  moreover obtain n where "parse_digits b True (acc * b + d) s = Some n"
    using Cons.IH [OF s] by blast
  ultimately show ?case using d by simp
qed simp

lemma digit_val_char_code:
  "digit_val c = Some d \<Longrightarrow> code c \<in> {48..57} \<union> {65..90} \<union> {97..122}"
  by (auto simp: digit_val_def Let_def split: if_splits)

lemma get_int_digits:
  assumes "s \<noteq> []" "digits_below b s" "b = 10 \<or> b = 16"
  shows "\<exists>i. get_int b s = Inr i"
proof -
  have sp: "strip s = s"
  proof (rule strip_of_none, intro ballI)
    fix c assume "c \<in> set s"
    then obtain d where "digit_val c = Some d" using assms(2) by (auto simp: digits_below_def)
    from digit_val_char_code [OF this] show "\<not> is_space c" by (auto simp: is_space_def Let_def)
  qed
  obtain c cs where c: "s = c # cs" using assms(1) by (cases s) auto
  then obtain d where "digit_val c = Some d" using assms(2) by (auto simp: digits_below_def)
  from digit_val_char_code [OF this] have sign: "c \<noteq> CHR ''-''" "c \<noteq> CHR ''+''"
    by (auto simp: code_def)
  have nx: "\<not> has_prefix (CHR ''x'') (CHR ''X'') s" if "b = 16"
    using assms(2) that by (auto simp: has_prefix_def digits_below_def digit_val_def code_def
        split: list.splits)
  obtain n where "parse_digits b False 0 s = Some n"
    using parse_digits_below assms by blast
  then have "parse_numeral b s = Some n" using nx assms(3) by (auto simp: parse_numeral_def)
  with sp c sign have "py_int b s = Some (int n)" by (simp add: py_int_def)
  then show ?thesis by (simp add: get_int_def)
qed

lemma hexs_digits: "s \<in> lang hexs \<Longrightarrow> s \<noteq> [] \<and> digits_below 16 s"
  by (auto simp: hexc_def lang_plus_class in_class_def digits_below_def digit_val_def Let_def code_def)

lemma digs_digits: "s \<in> lang (rplus True dig) \<Longrightarrow> s \<noteq> [] \<and> digits_below 10 s"
  by (auto simp: dig_def lang_plus_class in_class_def digits_below_def digit_val_def Let_def is_digit_def)

lemma hexs_int: "s \<in> lang hexs \<Longrightarrow> \<exists>i. get_int 16 s = Inr i"
  using hexs_digits get_int_digits by blast

lemma digs_int: "s \<in> lang (rplus True dig) \<Longrightarrow> \<exists>i. get_int 10 s = Inr i"
  using digs_digits get_int_digits by blast

section \<open>The readers keep the contract\<close>

lemma find_line_None: "find_line p ls i = (j, None) \<Longrightarrow> j = max i (length ls)"
  by (induction p ls i rule: find_line.induct)
     (subst (asm) (2) find_line.simps, auto split: if_splits option.splits)

lemma find_line_Some:
  "find_line p ls i = (j, Some m) \<Longrightarrow> i \<le> j \<and> j < length ls \<and> first_match p (ls ! j) = Some m"
proof (induction p ls i rule: find_line.induct)
  case (1 p ls i)
  from "1.prems" have i: "i < length ls" by (subst (asm) find_line.simps) (auto split: if_splits)
  show ?case
  proof (cases "first_match p (ls ! i)")
    case None
    with "1.prems" i have "find_line p ls (i + 1) = (j, Some m)" by (subst (asm) find_line.simps) auto
    with 1 i None show ?thesis by fastforce
  next
    case (Some a)
    with "1.prems" i show ?thesis by (subst (asm) find_line.simps) auto
  qed
qed

lemma find_line_ended: "length ls \<le> i \<Longrightarrow> find_line p ls i = (i, None)"
  by (subst find_line.simps) simp

lemma sail_gather_ptr: "sail_gather v ls i s = (t, j) \<Longrightarrow> i \<le> j"
proof (induction v ls i s rule: sail_gather.induct)
  case (1 v ls i s)
  then show ?case by (subst (asm) (2) sail_gather.simps) (fastforce split: if_splits)
qed



lemma set_access_simps [simp]:
  "valid (set_access k o1) = valid o1" "line_num (set_access k o1) = line_num o1"
  by (simp_all add: set_access_def)

lemma ibex_basic_valid: "ibex_basic i m = Inr x \<Longrightarrow> valid x = 1"
  unfolding ibex_basic_def by (elim exE conjE bind_res_Inr_iff [THEN iffD1, elim_format]) auto

lemma ibex_reg_write_valid: "ibex_reg_write line o1 = Inr x \<Longrightarrow> valid x = valid o1"
  unfolding ibex_reg_write_def
  by (auto simp only: bind_res_Inr_iff sum.inject split: option.splits) simp_all

lemma ibex_mem_cap_valid: "ibex_mem_cap line o1 = Inr x \<Longrightarrow> valid x = valid o1"
  unfolding ibex_mem_cap_def
  by (auto simp only: bind_res_Inr_iff sum.inject split: option.splits) simp_all


lemma ibex_mem_valid: "ibex_mem mn line o1 = Inr x \<Longrightarrow> valid x = valid o1"
  unfolding ibex_mem_def Let_def
  by (auto simp only: bind_res_Inr_iff sum.inject split: option.splits) (simp add: if_distrib [of valid])

lemma ibex_reg_read_valid: "ibex_reg_read line o1 = Inr x \<Longrightarrow> valid x = valid o1"
  unfolding ibex_reg_read_def Let_def
  by (cases "re_findall ibex_pattern6 line" rule: list_cases3) (auto simp: bind_res_Inr_iff)

lemma ibex_parse_line_valid: "ibex_parse_line i line m = Inr x \<Longrightarrow> valid x = 1"
  unfolding ibex_parse_line_def
  by (auto simp only: bind_res_Inr_iff dest!: ibex_basic_valid ibex_reg_write_valid
      ibex_mem_cap_valid ibex_mem_valid ibex_reg_read_valid)

lemma sail_basic_valid: "sail_basic i m = Inr x \<Longrightarrow> valid x = 1"
  unfolding sail_basic_def by (auto simp: bind_res_Inr_iff)

lemma sail_reg_write_valid: "sail_reg_write line o1 = Inr x \<Longrightarrow> valid x = valid o1"
  unfolding sail_reg_write_def
  by (auto simp only: bind_res_Inr_iff sum.inject prod.case split: option.splits) simp_all

lemma sail_trap_valid: "sail_trap line o1 = Inr x \<Longrightarrow> valid x = valid o1"
  unfolding sail_trap_def Let_def
  by (auto simp only: bind_res_Inr_iff sum.inject split: option.splits if_splits) simp_all

lemma sail_mem_valid: "sail_mem line o1 = Inr x \<Longrightarrow> valid x = valid o1"
  unfolding sail_mem_def
  by (cases "first_match sail_pattern3 line"; cases "first_match sail_pattern4 line")
     (auto simp: bind_res_Inr_iff)

lemma ibex_find_nxt_cases:
  assumes "ibex_find_nxt f = Inr (x, f')"
  obtains "x = new_obj" "f' = f\<lparr>line_ptr := max (line_ptr f) (length (tf_lines f))\<rparr>"
  | j m where "valid x = 1" "line_ptr f \<le> j" "j < length (tf_lines f)"
      "f' = f\<lparr>line_ptr := Suc j\<rparr>" "first_match ibex_pattern1 (tf_lines f ! j) = Some m"
      "ibex_parse_line j (tf_lines f ! j) m = Inr x"
proof (cases "find_line ibex_pattern1 (tf_lines f) (line_ptr f)")
  case (Pair j mo)
  show thesis
  proof (cases mo)
    case None
    with assms Pair show thesis by (auto simp: ibex_find_nxt_def dest!: find_line_None intro: that(1))
  next
    case (Some m)
    with assms Pair show thesis
      by (auto simp: ibex_find_nxt_def bind_res_Inr_iff dest!: find_line_Some
          intro: that(2) dest: ibex_parse_line_valid)
  qed
qed

lemma sail_find_nxt_cases:
  assumes "sail_find_nxt f = Inr (x, f')"
  obtains "x = new_obj" "f' = f\<lparr>line_ptr := max (line_ptr f) (length (tf_lines f))\<rparr>"
  | i j where "valid x = 1" "line_ptr f \<le> i" "i < length (tf_lines f)" "i < j"
      "f' = f\<lparr>line_ptr := j\<rparr>"
proof (cases "find_line sail_pattern1 (tf_lines f) (line_ptr f)")
  case (Pair i mo)
  show thesis
  proof (cases mo)
    case None
    with assms Pair show thesis by (auto simp: sail_find_nxt_def dest!: find_line_None intro: that(1))
  next
    case (Some m)
    obtain s j where g: "sail_gather (is_rvfi f) (tf_lines f) (i + 1) (tf_lines f ! i) = (s, j)"
      by (cases "sail_gather (is_rvfi f) (tf_lines f) (i + 1) (tf_lines f ! i)")
    then have "i < j" using sail_gather_ptr by fastforce
    moreover from assms Pair Some g have "valid x = 1" "f' = f\<lparr>line_ptr := j\<rparr>"
      by (auto simp: sail_find_nxt_def bind_res_Inr_iff dest!: sail_basic_valid sail_reg_write_valid
          sail_trap_valid sail_mem_valid)
    moreover from Pair Some have "line_ptr f \<le> i" "i < length (tf_lines f)"
      by (auto dest: find_line_Some)
    ultimately show thesis using that(2) by blast
  qed
qed

interpretation it: trace_source ibex_find_nxt lines_left tf_lines
proof
  fix f x f'
  assume n: "ibex_find_nxt f = Inr (x, f')"
  show "valid x = 0 \<or> valid x = 1" by (rule ibex_find_nxt_cases [OF n]) (auto simp: new_obj_def)
  show "valid x = 1 \<Longrightarrow> lines_left f' < lines_left f"
    by (rule ibex_find_nxt_cases [OF n]) (auto simp: new_obj_def lines_left_def)
  show "valid x = 0 \<Longrightarrow> x = new_obj \<and> lines_left f' = 0"
    by (rule ibex_find_nxt_cases [OF n]) (auto simp: lines_left_def)
  show "tf_lines f' = tf_lines f" by (rule ibex_find_nxt_cases [OF n]) auto
next
  fix f assume "lines_left f = 0"
  then show "ibex_find_nxt f = Inr (new_obj, f)"
    by (simp add: ibex_find_nxt_def lines_left_def find_line_ended)
qed

interpretation st: trace_source sail_find_nxt lines_left tf_lines
proof
  fix f x f'
  assume n: "sail_find_nxt f = Inr (x, f')"
  show "valid x = 0 \<or> valid x = 1" by (rule sail_find_nxt_cases [OF n]) (auto simp: new_obj_def)
  show "valid x = 1 \<Longrightarrow> lines_left f' < lines_left f"
    by (rule sail_find_nxt_cases [OF n]) (auto simp: new_obj_def lines_left_def)
  show "valid x = 0 \<Longrightarrow> x = new_obj \<and> lines_left f' = 0"
    by (rule sail_find_nxt_cases [OF n]) (auto simp: lines_left_def)
  show "tf_lines f' = tf_lines f" by (rule sail_find_nxt_cases [OF n]) auto
next
  fix f assume "lines_left f = 0"
  then show "sail_find_nxt f = Inr (new_obj, f)"
    by (simp add: sail_find_nxt_def lines_left_def find_line_ended)
qed

section \<open>What the groups of the patterns hold\<close>

lemma first_match_unique:
  assumes "first_match r s = Some m" "i \<in> set (always r)" "map_of (groups r) i = Some r'"
    "distinct (map fst (groups r))"
  shows "grp m i \<in> lang r'"
proof (rule findall_grp_unique)
  show "m \<in> set (re_findall r s)" using assms(1) by (auto simp: first_match_def split: list.splits)
qed (use assms in auto)

lemma class_groups [simp]:
  "groups hexc = []" "always hexc = []" "groups spc = []" "always spc = []" "groups dig = []"
  "always dig = []" "groups nsp = []" "always nsp = []" "groups rany = []" "always rany = []"
  "groups (rlit c) = []" "always (rlit c) = []" "groups (rplus g r) = groups r @ groups r"
  "always (rplus g r) = always r"
  by (simp_all add: hexc_def spc_def dig_def nsp_def rany_def rlit_def rplus_def)

lemma ibex1_grp:
  assumes "first_match ibex_pattern1 s = Some m"
  shows "grp m 1 \<in> lang (rplus True dig)" "grp m 2 \<in> lang hexs" "grp m 3 \<in> lang hexs"
  by (rule first_match_unique [OF assms]; simp add: ibex_pattern1_def del: rseq.simps lang.simps)+


lemma ibex_grp:
  "first_match ibex_pattern2 s = Some m \<Longrightarrow>
     grp m 0 \<in> lang (rplus True dig) \<and> grp m 1 \<in> lang hexs \<and> grp m 2 \<in> lang hexs"
  "first_match ibex_pattern3 s = Some m \<Longrightarrow>
     grp m 0 \<in> lang (rplus True dig) \<and> grp m 1 \<in> lang hexs"
  "first_match ibex_pattern4 s = Some m \<Longrightarrow>
     grp m 0 \<in> lang hexs \<and> grp m 2 \<in> lang hexs \<and> grp m 3 \<in> lang hexs"
  "first_match ibex_pattern5 s = Some m \<Longrightarrow> grp m 0 \<in> lang hexs \<and>
     grp m 2 \<in> lang (rplus True (RCls False [CRange (CHR ''0'') (CHR ''9''), CRange (CHR ''A'') (CHR ''F''),
                                       CRange (CHR ''a'') (CHR ''f''), CLit (CHR ''?'')]))"
  "m \<in> set (re_findall ibex_pattern6 s) \<Longrightarrow>
     grp m 0 \<in> lang (rplus True dig) \<and> grp m 1 \<in> lang hexs \<and> grp m 2 \<in> lang hexs"
  by (intro conjI; erule first_match_unique findall_grp_unique;
      simp add: ibex_pattern2_def ibex_pattern3_def ibex_pattern4_def ibex_pattern5_def
        ibex_pattern6_def load_or_store_def del: rseq.simps lang.simps)+

lemma sail_grp:
  "first_match sail_pattern1 s = Some m \<Longrightarrow>
     grp m 0 \<in> lang (rplus True dig) \<and> grp m 1 \<in> lang hexs \<and> grp m 2 \<in> lang hexs"
  "first_match sail_pattern2_0 s = Some m \<Longrightarrow>
     grp m 0 \<in> lang (rplus True dig) \<and> grp m 1 \<in> lang hexs"
  "first_match sail_pattern2_1 s = Some m \<Longrightarrow>
     grp m 0 \<in> lang dig \<and> grp m 1 \<in> lang hexs \<and> grp m 2 \<in> lang hexs \<and> grp m 3 \<in> lang hexs"
  "first_match sail_pattern2_2 s = Some m \<Longrightarrow> grp m 0 \<in> lang hexs"
  "first_match sail_pattern3 s = Some m \<Longrightarrow> grp m 0 \<in> lang hexs \<and> grp m 2 \<in> lang hexs"
  "first_match sail_pattern4 s = Some m \<Longrightarrow> grp m 2 \<in> lang dig"
  by ((intro conjI)?; erule first_match_unique;
      simp add: sail_pattern1_def sail_pattern2_0_def sail_pattern2_1_def sail_pattern2_2_def
        sail_pattern3_def sail_pattern4_def arrow_def del: rseq.simps lang.simps)+

lemma dig_int: "s \<in> lang dig \<Longrightarrow> \<exists>i. get_int 10 s = Inr i"
  by (rule digs_int) (auto simp: dig_def lang_plus_class)

text \<open>Each stage of the two parsers gives a result; only masked-out store data can be empty.\<close>

lemma ibex_basic_total: "first_match ibex_pattern1 s = Some m \<Longrightarrow> \<exists>x. ibex_basic i m = Inr x"
  unfolding ibex_basic_def by (intro bind_total digs_int hexs_int; blast dest: ibex1_grp)

lemma ibex_reg_write_total: "\<exists>x. ibex_reg_write line o1 = Inr x"
proof -
  have "\<exists>x. ibex_reg_write line o1 = Inr x" if "first_match ibex_pattern2 line = Some m" for m
    unfolding ibex_reg_write_def that option.case using ibex_grp(1) [OF that]
    by (intro bind_total digs_int hexs_int) auto
  moreover have "\<exists>x. ibex_reg_write line o1 = Inr x"
    if "first_match ibex_pattern2 line = None" "first_match ibex_pattern3 line = Some m" for m
    unfolding ibex_reg_write_def that option.case using ibex_grp(2) [OF that(2)]
    by (intro bind_total digs_int hexs_int) auto
  ultimately show ?thesis
    by (cases "first_match ibex_pattern2 line"; cases "first_match ibex_pattern3 line")
       (auto simp: ibex_reg_write_def)
qed

lemma ibex_mem_cap_total: "\<exists>x. ibex_mem_cap line o1 = Inr x"
proof (cases "first_match ibex_pattern4 line")
  case (Some m)
  note g = ibex_grp(3) [OF Some]
  then have "\<exists>i. get_int 16 (grp m 3 @ drop 1 (grp m 2)) = Inr i"
    by (intro get_int_digits) (auto dest!: hexs_digits simp: digits_below_def dest: in_set_dropD)
  with g hexs_int [of "grp m 0"] Some show ?thesis
    unfolding ibex_mem_cap_def by (auto intro: bind_total)
qed (simp add: ibex_mem_cap_def)

lemma read_cap_total:
  "m \<in> set (re_findall ibex_pattern6 line) \<Longrightarrow> (\<And>a d c. \<exists>x. f a d c = Inr x) \<Longrightarrow>
   \<exists>x. bind_res (get_int 10 (grp m 0)) (\<lambda>a. bind_res (get_int 16 (grp m 1)) (\<lambda>d.
       bind_res (get_int 16 (grp m 2)) (\<lambda>c. f a d c))) = Inr x"
  by (intro bind_total digs_int hexs_int) (auto dest: ibex_grp(5))

lemma ibex_reg_read_total: "\<exists>x. ibex_reg_read line o1 = Inr x"
proof -
  let ?ms = "re_findall ibex_pattern6 line"
  have m: "x \<in> set ?ms" if "?ms = x # xs" for x xs by (simp add: that)
  have m2: "y \<in> set ?ms" if "?ms = x # y # xs" for x y xs by (simp add: that)
  show ?thesis
    unfolding ibex_reg_read_def Let_def
    by (rule bind_total; cases ?ms rule: list_cases3; simp only: list.case;
        (rule read_cap_total [OF m] read_cap_total [OF m2])?; (assumption | simp))
qed

lemma nat_str_16: "nat_str 10 16 = ''16''"
  by code_simp

text \<open>The data of the memory access on a line is masked out completely.\<close>

definition masked_out :: "string \<Rightarrow> bool" where
  "masked_out line =
     (case first_match ibex_pattern5 line of
        None \<Rightarrow> False
      | Some m \<Rightarrow> list_all (\<lambda>c. c = CHR ''?'') (grp m 2))"

lemma ibex_mem_raises:
  "ibex_mem mn line o1 = Inl e \<longleftrightarrow>
     masked_out line \<and> e = ValueError (''invalid literal for int() with base 16: '' @ py_repr [])"
proof (cases "first_match ibex_pattern5 line")
  case (Some m)
  let ?d = "re_sub (rlit (CHR ''?'')) [] (grp m 2)"
  obtain a where "get_int 16 (grp m 0) = Inr a" using ibex_grp(4) [OF Some] hexs_int by blast
  with Some have "ibex_mem mn line o1 = Inl e \<longleftrightarrow> get_int 16 ?d = Inl e"
    by (auto simp: ibex_mem_def bind_res_Inl_iff Let_def)
  moreover have "masked_out line \<longleftrightarrow> ?d = []"
    using Some by (auto simp: masked_out_def re_sub_rlit filter_empty_conv list_all_iff)
  moreover have "\<exists>i. get_int 16 ?d = Inr i" if "?d \<noteq> []"
  proof -
    have "digits_below 16 ?d"
      using ibex_grp(4) [OF Some] unfolding re_sub_rlit lang_plus_class
      by (auto simp: in_class_def digits_below_def digit_val_def Let_def code_def)
    with that show ?thesis using get_int_digits by blast
  qed
  moreover have "get_int 16 [] = Inl (ValueError (''invalid literal for int() with base 16: '' @ py_repr []))"
    by (simp add: get_int_def py_int_def strip_of_def lstrip_of_def rstrip_of_def nat_str_16)
  ultimately show ?thesis by (cases "?d = []") auto
qed (simp add: ibex_mem_def masked_out_def)

lemma sail_basic_total: "first_match sail_pattern1 s = Some m \<Longrightarrow> \<exists>x. sail_basic i m = Inr x"
  unfolding sail_basic_def by (intro bind_total digs_int hexs_int; blast dest: sail_grp(1))

lemma sail_reg_write_total: "\<exists>x. sail_reg_write line o1 = Inr x"
proof -
  have "\<exists>x. sail_reg_write line o1 = Inr x"
    if "first_match sail_pattern2_0 line = Some m0" "first_match sail_pattern2_1 line = Some m1" for m0 m1
    unfolding sail_reg_write_def that option.case prod.case
    using dig_int [of "grp m1 0"] sail_grp(2) [OF that(1)] sail_grp(3) [OF that(2)]
    by (intro bind_total) (auto intro: digs_int hexs_int)
  then show ?thesis
    by (cases "first_match sail_pattern2_0 line"; cases "first_match sail_pattern2_1 line")
       (auto simp: sail_reg_write_def)
qed

lemma sail_trap_total: "\<exists>x. sail_trap line o1 = Inr x"
  unfolding sail_trap_def Let_def
  by (rule bind_total; cases "first_match sail_pattern2_2 line")
     (auto intro!: bind_total hexs_int dest: sail_grp(4))

lemma sail_mem_total: "\<exists>x. sail_mem line o1 = Inr x"
  unfolding sail_mem_def
  by (intro bind_total; cases "first_match sail_pattern3 line"; cases "first_match sail_pattern4 line")
     (auto intro!: bind_total hexs_int dig_int dest: sail_grp(5,6))

section \<open>When the readers raise\<close>

lemma sail_reader_total: "\<exists>x f'. sail_find_nxt f = Inr (x, f')"
proof (cases "find_line sail_pattern1 (tf_lines f) (line_ptr f)")
  case (Pair i mo)
  show ?thesis
  proof (cases mo)
    case None
    with Pair show ?thesis by (simp add: sail_find_nxt_def)
  next
    case (Some m)
    then have "first_match sail_pattern1 (tf_lines f ! i) = Some m"
      using Pair by (auto dest: find_line_Some)
    moreover obtain s j where g: "sail_gather (is_rvfi f) (tf_lines f) (i + 1) (tf_lines f ! i) = (s, j)"
      by (cases "sail_gather (is_rvfi f) (tf_lines f) (i + 1) (tf_lines f ! i)")
    ultimately have "\<exists>xf. sail_find_nxt f = Inr xf"
      unfolding sail_find_nxt_def Pair Some prod.case option.case g
      by (intro bind_total sail_basic_total sail_reg_write_total sail_trap_total sail_mem_total) auto
    then show ?thesis by auto
  qed
qed

text \<open>
  C23. The Sail reader never raises: from any state of any file \<^verbatim>\<open>find_nxt\<close> returns, because every text
  handed to \<^verbatim>\<open>int\<close> was captured by a group of digits of that base. It either moves on in the file or
  returns the invalid object with no line left.
\<close>

theorem sail_find_nxt_total:
  "\<exists>x f'. sail_find_nxt f = Inr (x, f') \<and> tf_lines f' = tf_lines f \<and>
     (lines_left f' < lines_left f \<or> x = new_obj \<and> lines_left f' = 0)"
  using sail_reader_total [of f] st.reads_iff [of f] st.same_text [of f] by blast

text \<open>
  C39. The ibex reader raises in one case only: the next instruction line has a memory access whose data
  is masked out completely with question marks. The exception is then the \<^verbatim>\<open>ValueError\<close> of reading
  the empty string as a hexadecimal number.
\<close>

theorem ibex_find_nxt_raises:
  "ibex_find_nxt f = Inl e \<longleftrightarrow>
     (\<exists>i m. find_line ibex_pattern1 (tf_lines f) (line_ptr f) = (i, Some m) \<and>
            masked_out (tf_lines f ! i)) \<and>
     e = ValueError (''invalid literal for int() with base 16: '' @ py_repr [])"
proof (cases "find_line ibex_pattern1 (tf_lines f) (line_ptr f)")
  case (Pair i mo)
  show ?thesis
  proof (cases mo)
    case None
    with Pair show ?thesis by (simp add: ibex_find_nxt_def)
  next
    case (Some m)
    then have "first_match ibex_pattern1 (tf_lines f ! i) = Some m"
      using Pair by (auto dest: find_line_Some)
    then obtain o1 where "ibex_basic i m = Inr o1" using ibex_basic_total by blast
    moreover obtain o2 where "ibex_reg_write (tf_lines f ! i) o1 = Inr o2"
      using ibex_reg_write_total by blast
    moreover obtain o3 where "ibex_mem_cap (tf_lines f ! i) o2 = Inr o3"
      using ibex_mem_cap_total by blast
    moreover have "ibex_reg_read (tf_lines f ! i) x \<noteq> Inl e" for x
      using ibex_reg_read_total [of "tf_lines f ! i" x] by auto
    ultimately have "ibex_find_nxt f = Inl e \<longleftrightarrow> ibex_mem (grp m 4) (tf_lines f ! i) o3 = Inl e"
      using Pair Some by (auto simp: ibex_find_nxt_def ibex_parse_line_def bind_res_Inl_iff)
    then show ?thesis using Pair Some by (simp add: ibex_mem_raises)
  qed
qed

lemma scan_rvfi_raises:
  "scan_rvfi n ls = Inl e \<longleftrightarrow>
     e = IndexError \<and> length ls < n \<and> (\<forall>l \<in> set ls. re_findall (rstr ''RVFI'') l = [])"
  by (induction n ls rule: scan_rvfi.induct) auto

text \<open>
  Loading the Sail trace raises exactly when the file cannot be opened or when it has fewer than
  ten lines and none of them contains the word RVFI.
\<close>

lemma sail_load_raises:
  "(\<exists>e. sail_load (Some content) = Inl e) \<longleftrightarrow>
     length (splitlines content) < 10 \<and> \<not> (\<exists>l. l \<in> set (splitlines content) \<and> contains ''RVFI'' l)"
  by (auto simp: sail_load_def tf_load_def bind_res_Inl_iff scan_rvfi_raises findall_Nil
      search_rstr_None)

end
