(* ===== verification/Trace_Compare.thy ===== *)
theory Trace_Compare
  imports Trace_File
begin

text \<open>
  The main program of \<^verbatim>\<open>dv/cheriot/scripts/compare_trace.py\<close>: it steps through the two traces side by
  side, tracks the registers whose capability may still be revoked, counts, and prints a verdict.

  The lemmas show that the loops end, that the run is a fold of one step over the two sequences of
  objects (\<open>ibex_objs\<close> and \<open>sail_objs\<close>), and what a passing verdict therefore says about them.
\<close>

section \<open>State\<close>

record cstate =
  ibex_trace :: trace_file
  sail_trace :: trace_file
  pending_revoke_regs :: "int list"
  cmp_cnt :: nat
  eq_cnt :: nat
  neq_cnt :: nat
  revoke_err_cnt :: nat
  ibex_isr_cnt :: nat
  ibex_dbg_cnt :: nat
  ibex_in_isr :: int
  outstanding_trap :: int
  outstanding_trap_pc :: int
  stdout :: string

definition init_cstate :: "trace_file \<Rightarrow> trace_file \<Rightarrow> cstate" where
  "init_cstate ibex sail =
     \<lparr>ibex_trace = ibex, sail_trace = sail, pending_revoke_regs = replicate 32 0, cmp_cnt = 0,
      eq_cnt = 0, neq_cnt = 0, revoke_err_cnt = 0, ibex_isr_cnt = 0, ibex_dbg_cnt = 0,
      ibex_in_isr = 0, outstanding_trap = 0, outstanding_trap_pc = 0, stdout = []\<rparr>"

definition printf :: "string \<Rightarrow> cstate \<Rightarrow> cstate" where
  "printf t s = s\<lparr>stdout := stdout s @ t\<rparr>"

text \<open>Indexing with a Python integer: a negative index counts from the end.\<close>

definition py_index :: "'a list \<Rightarrow> int \<Rightarrow> nat py_res" where
  "py_index xs i =
     (let n = int (length xs) in
      if 0 \<le> i \<and> i < n then Inr (nat i)
      else if - n \<le> i \<and> i < 0 then Inr (nat (n + i))
      else Inl IndexError)"

definition reg_pending :: "int \<Rightarrow> cstate \<Rightarrow> bool py_res" where
  "reg_pending r s =
     bind_res (py_index (pending_revoke_regs s) r) (\<lambda>i. Inr (pending_revoke_regs s ! i = 1))"

definition set_pending :: "int \<Rightarrow> int \<Rightarrow> cstate \<Rightarrow> cstate py_res" where
  "set_pending r v s =
     bind_res (py_index (pending_revoke_regs s) r)
       (\<lambda>i. Inr (s\<lparr>pending_revoke_regs := (pending_revoke_regs s)[i := v]\<rparr>))"

definition reg_msg :: "string \<Rightarrow> int \<Rightarrow> string \<Rightarrow> int \<Rightarrow> string" where
  "reg_msg before r after p =
     ''cheriot-ibex: '' @ before @ '' reg c'' @ int_str r @ after @ '' at '' @ hex_str p @ [CHR 0x0A]"

section \<open>Reading the traces\<close>

text \<open>Entering and leaving a handler, and the debug requests, in the order of the source.\<close>

definition isr_track :: "trace_obj \<Rightarrow> cstate \<Rightarrow> cstate" where
  "isr_track x s1 =
     (let s2 = (if trap x = 1 \<or> intr x = 1
                then s1\<lparr>ibex_in_isr := 1, ibex_isr_cnt := ibex_isr_cnt s1 + 1\<rparr> else s1);
          s3 = (if ibex_in_isr s2 = 1 \<and> instr x = 0x30200073 then s2\<lparr>ibex_in_isr := 0\<rparr> else s2)
      in (if pc x = 0x80040000 then s3\<lparr>ibex_dbg_cnt := ibex_dbg_cnt s3 + 1\<rparr> else s3))"

lemma isr_track_trace [simp]:
  "ibex_trace (isr_track x s) = ibex_trace s" "sail_trace (isr_track x s) = sail_trace s"
  by (simp_all add: isr_track_def Let_def)

text \<open>The inner loop: skip to the next instruction outside of a handler.\<close>

function skip_isr :: "cstate \<Rightarrow> (trace_obj \<times> cstate) py_res" where
  "skip_isr s =
     (case ibex_find_nxt (ibex_trace s) of
        Inl e \<Rightarrow> Inl e
      | Inr (x, f) \<Rightarrow>
          (if valid x = 0 then Inr (x, s\<lparr>ibex_trace := f\<rparr>)
           else if trap x = 0 \<and> intr x = 0 \<and> ibex_in_isr s = 0 \<and> pc x < 0x80040000
           then Inr (x, s\<lparr>ibex_trace := f\<rparr>)
           else skip_isr (isr_track x (s\<lparr>ibex_trace := f\<rparr>))))"
  by pat_completeness auto
termination
proof (relation "measure (\<lambda>s. lines_left (ibex_trace s))", simp)
  fix s :: cstate and xf x f
  assume "ibex_find_nxt (ibex_trace s) = Inr xf" "(x, f) = xf" "valid x \<noteq> 0"
  then have "lines_left f < lines_left (ibex_trace s)"
    using it.valid_flag it.valid_reads by blast
  then show "(isr_track x (s\<lparr>ibex_trace := f\<rparr>), s) \<in> measure (\<lambda>s. lines_left (ibex_trace s))"
    by simp
qed

declare skip_isr.simps [simp del]

definition nxt_ibex :: "bool \<Rightarrow> cstate \<Rightarrow> (trace_obj \<times> cstate) py_res" where
  "nxt_ibex skip s =
     (if skip then skip_isr s
      else bind_res (ibex_find_nxt (ibex_trace s)) (\<lambda>(x, f). Inr (x, s\<lparr>ibex_trace := f\<rparr>)))"

text \<open>The object standing for a trap that the Sail trace reports with the instruction before it.\<close>

definition trap_obj :: "int \<Rightarrow> trace_obj" where
  "trap_obj p = new_obj\<lparr>valid := 1, trap := 1, trap_nxt := 0, pc := p\<rparr>"

definition nxt_sail :: "cstate \<Rightarrow> (trace_obj \<times> cstate) py_res" where
  "nxt_sail s =
     (if outstanding_trap s = 0
      then bind_res (sail_find_nxt (sail_trace s)) (\<lambda>(x, f). Inr (x, s\<lparr>sail_trace := f\<rparr>))
      else Inr (trap_obj (outstanding_trap_pc s), s))"

section \<open>One step\<close>

definition check_cs1 :: "trace_obj \<Rightarrow> cstate \<Rightarrow> cstate py_res" where
  "check_cs1 x s =
     bind_res (reg_pending (reg_raddr1 x) s) (\<lambda>p.
       if p \<and> reg_rd1 x = 1 \<and> c_tag (reg_rcap1 x) = 1
       then Inr (printf (reg_msg ''revocation error found for cs1'' (reg_raddr1 x) '''' (pc x))
                   (s\<lparr>revoke_err_cnt := revoke_err_cnt s + 1\<rparr>))
       else if p \<and> reg_rd1 x = 1 \<and> c_tag (reg_rcap1 x) = 0
       then bind_res (set_pending (reg_raddr1 x) 0 s) (\<lambda>s.
              Inr (printf (reg_msg ''cap revocation for'' (reg_raddr1 x) '' verified'' (pc x))
                     (s\<lparr>eq_cnt := eq_cnt s + 1\<rparr>)))
       else Inr s)"

text \<open>The second test for \<^verbatim>\<open>cs2\<close> looks up the register of \<^verbatim>\<open>cs1\<close>.\<close>

definition check_cs2 :: "trace_obj \<Rightarrow> cstate \<Rightarrow> cstate py_res" where
  "check_cs2 x s =
     bind_res (reg_pending (reg_raddr2 x) s) (\<lambda>p2.
       if p2 \<and> reg_rd2 x = 1 \<and> c_tag (reg_rcap2 x) = 1
       then Inr (printf (reg_msg ''revocation error found for cs2'' (reg_raddr2 x) '''' (pc x))
                   (s\<lparr>revoke_err_cnt := revoke_err_cnt s + 1\<rparr>))
       else bind_res (reg_pending (reg_raddr1 x) s) (\<lambda>p1.
         if p1 \<and> reg_rd2 x = 1 \<and> c_tag (reg_rcap2 x) = 0
         then bind_res (set_pending (reg_raddr2 x) 0 s) (\<lambda>s.
                Inr (printf (reg_msg ''cap revocation for'' (reg_raddr2 x) '' verified'' (pc x))
                       (s\<lparr>eq_cnt := eq_cnt s + 1\<rparr>)))
         else Inr s))"

definition check_write :: "trace_obj \<Rightarrow> cstate \<Rightarrow> cstate py_res" where
  "check_write x s =
     bind_res (reg_pending (reg_waddr x) s) (\<lambda>p.
       if p \<and> reg_wr x = 1
       then bind_res (set_pending (reg_waddr x) 0 s) (\<lambda>s.
              Inr (printf (reg_msg ''cap revocation for'' (reg_waddr x) '' cancelled by write'' (pc x))
                     (s\<lparr>eq_cnt := eq_cnt s + 1\<rparr>)))
       else Inr s)"

text \<open>A capability load whose result Sail has revoked already and ibex has not.\<close>

definition revocation_case :: "trace_obj \<Rightarrow> trace_obj \<Rightarrow> bool" where
  "revocation_case x y \<longleftrightarrow> almost_eq x y \<and> c_tag (reg_wcap x) = 1 \<and> mem_rd x = 1"

definition compare_objs :: "trace_obj \<Rightarrow> trace_obj \<Rightarrow> cstate \<Rightarrow> cstate py_res" where
  "compare_objs x y s =
     (if obj_eq x y then Inr (s\<lparr>eq_cnt := eq_cnt s + 1\<rparr>)
      else if revocation_case x y
      then bind_res (set_pending (reg_waddr x) 1 s) (\<lambda>s.
             Inr (printf (reg_msg ''cap revocation for'' (reg_waddr x) '' started'' (pc x)) s))
      else Inr (printf (''ibex:  '' @ obj_str x @ [CHR 0x0A] @ ''sail:  '' @ obj_str y @ [CHR 0x0A])
                  (s\<lparr>neq_cnt := neq_cnt s + 1\<rparr>)))"

definition note_trap :: "trace_obj \<Rightarrow> cstate \<Rightarrow> cstate" where
  "note_trap y s =
     (if trap_nxt y = 1 then s\<lparr>outstanding_trap := 1, outstanding_trap_pc := trap_pc y\<rparr>
      else s\<lparr>outstanding_trap := 0, outstanding_trap_pc := 0\<rparr>)"

definition cmp_step :: "trace_obj \<times> trace_obj \<Rightarrow> cstate \<Rightarrow> cstate py_res" where
  "cmp_step xy s =
     (case xy of (x, y) \<Rightarrow>
        bind_res (check_cs1 x s) (\<lambda>s.
        bind_res (check_cs2 x s) (\<lambda>s.
        bind_res (check_write x s) (\<lambda>s.
        bind_res (compare_objs x y s) (\<lambda>s.
          Inr (note_trap y (s\<lparr>cmp_cnt := cmp_cnt s + 1\<rparr>)))))))"

text \<open>What the step leaves alone.\<close>

definition same_io :: "cstate \<Rightarrow> cstate \<Rightarrow> bool" where
  "same_io s t \<longleftrightarrow> ibex_trace t = ibex_trace s \<and> sail_trace t = sail_trace s \<and>
     ibex_in_isr t = ibex_in_isr s \<and> ibex_isr_cnt t = ibex_isr_cnt s \<and> ibex_dbg_cnt t = ibex_dbg_cnt s"

lemma same_io_refl [simp]: "same_io s s"
  by (simp add: same_io_def)

lemma same_io_trans: "same_io s t \<Longrightarrow> same_io t u \<Longrightarrow> same_io s u"
  by (simp add: same_io_def)

lemma same_io_upd [simp]:
  "same_io s (printf m t) = same_io s t"
  "same_io s (t\<lparr>eq_cnt := n\<rparr>) = same_io s t" "same_io s (t\<lparr>neq_cnt := n\<rparr>) = same_io s t"
  "same_io s (t\<lparr>cmp_cnt := n\<rparr>) = same_io s t" "same_io s (t\<lparr>revoke_err_cnt := n\<rparr>) = same_io s t"
  "same_io s (note_trap y t) = same_io s t"
  by (simp_all add: same_io_def printf_def note_trap_def)

lemma set_pending_io: "set_pending r v s = Inr t \<Longrightarrow> same_io s t"
  by (auto simp: set_pending_def bind_res_Inr_iff same_io_def)

lemma checks_io:
  "check_cs1 x s = Inr t \<Longrightarrow> same_io s t" "check_cs2 x s = Inr t \<Longrightarrow> same_io s t"
  "check_write x s = Inr t \<Longrightarrow> same_io s t" "compare_objs x y s = Inr t \<Longrightarrow> same_io s t"
  by (auto simp: check_cs1_def check_cs2_def check_write_def compare_objs_def bind_res_Inr_iff
      split: if_splits dest: set_pending_io)

lemma cmp_step_io: "cmp_step xy s = Inr t \<Longrightarrow> same_io s t"
  by (auto simp: cmp_step_def bind_res_Inr_iff split: prod.splits dest!: checks_io)
     (simp add: same_io_def)

section \<open>The run\<close>

lemma skip_isr_reads:
  "skip_isr s = Inr (x, t) \<Longrightarrow> valid x \<noteq> 0 \<Longrightarrow> lines_left (ibex_trace t) < lines_left (ibex_trace s)"
proof (induction s rule: skip_isr.induct)
  case (1 s)
  obtain y f where n: "ibex_find_nxt (ibex_trace s) = Inr (y, f)"
    using "1.prems"(1) by (subst (asm) skip_isr.simps) (auto split: sum.splits)
  show ?case
  proof (cases "valid y = 0 \<or> trap y = 0 \<and> intr y = 0 \<and> ibex_in_isr s = 0 \<and> pc y < 0x80040000")
    case True
    with n have "skip_isr s = Inr (y, s\<lparr>ibex_trace := f\<rparr>)"
      by (subst skip_isr.simps) auto
    with "1.prems" have "x = y" "t = s\<lparr>ibex_trace := f\<rparr>" by auto
    with "1.prems"(2) show ?thesis using it.valid_flag [OF n] it.valid_reads [OF n] by simp
  next
    case False
    with n have "skip_isr s = skip_isr (isr_track y (s\<lparr>ibex_trace := f\<rparr>))"
      by (subst skip_isr.simps) auto
    with "1.IH" [OF n refl] False "1.prems" have "lines_left (ibex_trace t) < lines_left f" by auto
    then show ?thesis using it.left_mono [OF n] by simp
  qed
qed

lemma nxt_ibex_reads:
  "nxt_ibex skip s = Inr (x, t) \<Longrightarrow> valid x \<noteq> 0 \<Longrightarrow> lines_left (ibex_trace t) < lines_left (ibex_trace s)"
  using skip_isr_reads it.valid_flag it.valid_reads
  by (fastforce simp: nxt_ibex_def bind_res_Inr_iff split: if_splits)

lemma nxt_sail_ibex: "nxt_sail s = Inr (y, t) \<Longrightarrow> ibex_trace t = ibex_trace s"
  by (auto simp: nxt_sail_def bind_res_Inr_iff split: if_splits)

function cmp_loop :: "bool \<Rightarrow> cstate \<Rightarrow> cstate py_res" where
  "cmp_loop skip s =
     (case nxt_ibex skip s of
        Inl e \<Rightarrow> Inl e
      | Inr (x, s1) \<Rightarrow>
          (case nxt_sail s1 of
             Inl e \<Rightarrow> Inl e
           | Inr (y, s2) \<Rightarrow>
               if valid x = 0 \<or> valid y = 0 then Inr s2
               else (case cmp_step (x, y) s2 of
                       Inl e \<Rightarrow> Inl e
                     | Inr s3 \<Rightarrow> cmp_loop skip s3)))"
  by pat_completeness auto
termination
proof (relation "measure (\<lambda>(skip, s). lines_left (ibex_trace s))", simp)
  fix skip s xs x s1 ys y s2 s3
  assume "nxt_ibex skip s = Inr xs" "(x, s1) = xs" "nxt_sail s1 = Inr ys" "(y, s2) = ys"
    "\<not> (valid x = 0 \<or> valid y = 0)" "cmp_step (x, y) s2 = Inr s3"
  then have "lines_left (ibex_trace s3) < lines_left (ibex_trace s)"
    using nxt_ibex_reads [of skip s x s1] nxt_sail_ibex [of s1 y s2] cmp_step_io [of "(x, y)" s2 s3]
    by (auto simp: same_io_def)
  then show "((skip, s3), (skip, s)) \<in> measure (\<lambda>(skip, s). lines_left (ibex_trace s))" by simp
qed

declare cmp_loop.simps [simp del]

section \<open>The verdict\<close>

definition lines_left_int :: "trace_file \<Rightarrow> int" where
  "lines_left_int f = int (length (tf_lines f)) - int (line_ptr f)"

definition revoke_pending :: "cstate \<Rightarrow> bool" where
  "revoke_pending s = list_ex (\<lambda>v. v \<noteq> 0) (pending_revoke_regs s)"

definition passed :: "cstate \<Rightarrow> bool" where
  "passed s =
     (neq_cnt s = 0 \<and> \<not> revoke_pending s \<and>
      \<not> (length (tf_lines (ibex_trace s)) = 0 \<and> length (tf_lines (sail_trace s)) = 0) \<and>
      lines_left_int (ibex_trace s) < 1000 \<and> lines_left_int (sail_trace s) = 0)"

definition dec :: "nat \<Rightarrow> string" where "dec n = nat_str 10 n"

definition report :: "cstate \<Rightarrow> cstate" where
  "report s =
     (let nl = [CHR 0x0A];
          s1 = printf (dec (cmp_cnt s) @ '' trace objects compared, '' @ dec (eq_cnt s) @ '' equal, '' @
                 dec (neq_cnt s) @ '' not equal, '' @ dec (revoke_err_cnt s) @ '' revocation errors, '' @
                 dec (ibex_isr_cnt s) @ '' ISRs and '' @ dec (ibex_dbg_cnt s) @
                 '' DBG_REQs found in ibex trace'' @ nl) s;
          s2 = printf (int_str (lines_left_int (ibex_trace s)) @ ''/'' @
                 dec (length (tf_lines (ibex_trace s))) @ '' lines left in ibex_trace, '' @
                 int_str (lines_left_int (sail_trace s)) @ ''/'' @
                 dec (length (tf_lines (sail_trace s))) @ '' lines left in sail trace'' @ nl) s1;
          s3 = (if revoke_pending s
                then printf (''Pending revocations found!'' @ nl @ ''['' @
                       py_join '', '' (map int_str (pending_revoke_regs s)) @ '']'' @ nl) s2
                else s2)
      in printf (''Compare_trace.py: comparison '' @
                 (if passed s then ''passed :)'' else ''failed :('') @ nl) s3)"

text \<open>
  The program over its parsed arguments and a file system (\<open>None\<close>: the file cannot be opened). The
  result is the final state with everything printed; an exception loses it.
\<close>

definition load_msg :: "string \<Rightarrow> trace_file \<Rightarrow> string" where
  "load_msg name f =
     (let file = ''File '' @ [CHR 0x27] @ name @ [CHR 0x27] in
      file @ '' opened successfully.'' @ [CHR 0x0A] @
      file @ '' loaded successfully, '' @ dec (length (tf_lines f)) @ '' lines.'' @ [CHR 0x0A])"

definition compare_trace_main ::
  "(string \<Rightarrow> string option) \<Rightarrow> bool \<Rightarrow> string list \<Rightarrow> cstate py_res" where
  "compare_trace_main fs skip files =
     (let nl = [CHR 0x0A];
          m1 = (if length files = 2
                then ''Files specified: ['' @ py_join '', '' (map py_repr files) @ '']'' @ nl
                else ''No files specified'' @ nl);
          m2 = (if skip then ''Skipping exception handler in ibex trace'' @ nl else '''') in
      bind_res (nth_res files 0) (\<lambda>ibex_trace_name.
      bind_res (nth_res files 1) (\<lambda>sail_trace_name.
      bind_res (tf_load (fs ibex_trace_name)) (\<lambda>ibex.
      bind_res (sail_load (fs sail_trace_name)) (\<lambda>sail.
        let m3 = load_msg ibex_trace_name ibex @ load_msg sail_trace_name sail @
                 (if is_rvfi sail = 1 then ''Sail log is RVFI'' @ nl else '''') in
        bind_res (cmp_loop skip (printf (m1 @ m2 @ m3) (init_cstate ibex sail))) (\<lambda>s.
          Inr (report s)))))))"

section \<open>The traces as sequences of objects\<close>

text \<open>All objects of an ibex trace; the first exception ends the reading.\<close>

function ibex_objs :: "trace_file \<Rightarrow> trace_obj list py_res" where
  "ibex_objs f =
     (case ibex_find_nxt f of
        Inl e \<Rightarrow> Inl e
      | Inr (x, f') \<Rightarrow>
          if valid x = 0 then Inr []
          else (case ibex_objs f' of Inl e \<Rightarrow> Inl e | Inr xs \<Rightarrow> Inr (x # xs)))"
  by pat_completeness auto
termination
  by (relation "measure lines_left") (auto dest: it.reads_iff simp: new_obj_def)

text \<open>All objects of a Sail trace, each trap that is reported early as an object of its own.\<close>

definition with_trap :: "trace_obj \<Rightarrow> trace_obj list" where
  "with_trap y = (if trap_nxt y = 1 then [y, trap_obj (trap_pc y)] else [y])"

function sail_objs :: "trace_file \<Rightarrow> trace_obj list" where
  "sail_objs f =
     (case sail_find_nxt f of
        Inl e \<Rightarrow> []
      | Inr (y, f') \<Rightarrow> if valid y = 0 then [] else with_trap y @ sail_objs f')"
  by pat_completeness auto
termination
  by (relation "measure lines_left") (auto dest: st.reads_iff simp: new_obj_def)

declare ibex_objs.simps [simp del] sail_objs.simps [simp del]

lemma sail_objs_ended: "lines_left f = 0 \<Longrightarrow> sail_objs f = []"
  by (subst sail_objs.simps) (simp add: st.ended new_obj_def)

definition sail_rest :: "cstate \<Rightarrow> trace_obj list" where
  "sail_rest s = (if outstanding_trap s = 0 then [] else [trap_obj (outstanding_trap_pc s)]) @
     sail_objs (sail_trace s)"

definition put_traces :: "trace_file \<Rightarrow> trace_file \<Rightarrow> cstate \<Rightarrow> cstate" where
  "put_traces f g s = s\<lparr>ibex_trace := f, sail_trace := g\<rparr>"

lemma put_traces_simps [simp]:
  "ibex_trace (put_traces f g s) = f" "sail_trace (put_traces f g s) = g"
  "put_traces f g (put_traces f' g' s) = put_traces f g s"
  "put_traces (ibex_trace s) (sail_trace s) s = s"
  "neq_cnt (put_traces f g s) = neq_cnt s" "cmp_cnt (put_traces f g s) = cmp_cnt s"
  "pending_revoke_regs (put_traces f g s) = pending_revoke_regs s"
  "outstanding_trap (put_traces f g s) = outstanding_trap s"
  "outstanding_trap_pc (put_traces f g s) = outstanding_trap_pc s"
  by (simp_all add: put_traces_def)

abbreviation lift_traces :: "trace_file \<Rightarrow> trace_file \<Rightarrow> cstate py_res \<Rightarrow> cstate py_res" where
  "lift_traces f g \<equiv> map_sum id (put_traces f g)"

lemma map_sum_bind:
  "map_sum id h (bind_res m f) = bind_res m (\<lambda>x. map_sum id h (f x))"
  by (cases m) auto

lemma bind_map_sum: "bind_res (map_sum id h m) f = bind_res m (\<lambda>x. f (h x))"
  by (cases m) auto

lemma reg_pending_put [simp]: "reg_pending r (put_traces f g s) = reg_pending r s"
  by (simp add: reg_pending_def)

lemma set_pending_put: "set_pending r v (put_traces f g s) = lift_traces f g (set_pending r v s)"
  by (cases "py_index (pending_revoke_regs s) r") (simp_all add: set_pending_def put_traces_def)

lemma upd_put:
  "printf m (put_traces f g s) = put_traces f g (printf m s)"
  "(put_traces f g s)\<lparr>eq_cnt := n\<rparr> = put_traces f g (s\<lparr>eq_cnt := n\<rparr>)"
  "(put_traces f g s)\<lparr>neq_cnt := n\<rparr> = put_traces f g (s\<lparr>neq_cnt := n\<rparr>)"
  "(put_traces f g s)\<lparr>cmp_cnt := n\<rparr> = put_traces f g (s\<lparr>cmp_cnt := n\<rparr>)"
  "(put_traces f g s)\<lparr>revoke_err_cnt := n\<rparr> = put_traces f g (s\<lparr>revoke_err_cnt := n\<rparr>)"
  "note_trap y (put_traces f g s) = put_traces f g (note_trap y s)"
  "eq_cnt (put_traces f g s) = eq_cnt s" "revoke_err_cnt (put_traces f g s) = revoke_err_cnt s"
  by (simp_all add: put_traces_def printf_def note_trap_def)

lemma checks_put:
  "check_cs1 x (put_traces f g s) = lift_traces f g (check_cs1 x s)"
  "check_cs2 x (put_traces f g s) = lift_traces f g (check_cs2 x s)"
  "check_write x (put_traces f g s) = lift_traces f g (check_write x s)"
  "compare_objs x y (put_traces f g s) = lift_traces f g (compare_objs x y s)"
  unfolding check_cs1_def check_cs2_def check_write_def compare_objs_def
  by (auto simp: set_pending_put map_sum_bind bind_map_sum upd_put if_distrib [of "map_sum id (put_traces f g)"]
      cong: if_cong)

lemma cmp_step_put: "cmp_step xy (put_traces f g s) = lift_traces f g (cmp_step xy s)"
  by (simp add: cmp_step_def checks_put map_sum_bind bind_map_sum upd_put split: prod.split)

lemma fold_step_put:
  "fold_res cmp_step ps (put_traces f g s) = lift_traces f g (fold_res cmp_step ps s)"
proof (induction ps arbitrary: s)
  case (Cons p ps)
  then show ?case by (cases "cmp_step p s") (simp_all add: cmp_step_put)
qed simp

lemma lift_lift [simp]: "lift_traces f g (lift_traces f' g' r) = lift_traces f g r"
  by (cases r) auto

text \<open>What reading the Sail side gives, in terms of the objects still to come.\<close>

lemma nxt_sail_rest:
  obtains y g where "nxt_sail s = Inr (y, put_traces (ibex_trace s) g s)"
    and "valid y = 0 \<longrightarrow> sail_rest s = []"
    and "valid y \<noteq> 0 \<longrightarrow> sail_rest s =
           y # (if trap_nxt y = 1 then [trap_obj (trap_pc y)] else []) @ sail_objs g"
proof (cases "outstanding_trap s = 0")
  case True
  obtain y g where n: "sail_find_nxt (sail_trace s) = Inr (y, g)"
    using sail_reader_total by blast
  have e: "nxt_sail s = Inr (y, put_traces (ibex_trace s) g s)"
    using True n by (simp add: nxt_sail_def put_traces_def)
  have o: "sail_objs (sail_trace s) = (if valid y = 0 then [] else with_trap y @ sail_objs g)"
    by (subst sail_objs.simps) (simp add: n)
  show thesis by (rule that [OF e]) (use True o in \<open>auto simp: sail_rest_def with_trap_def\<close>)
next
  case False
  have e: "nxt_sail s = Inr (trap_obj (outstanding_trap_pc s), put_traces (ibex_trace s) (sail_trace s) s)"
    using False by (simp add: nxt_sail_def)
  show thesis by (rule that [OF e]) (use False in \<open>auto simp: sail_rest_def trap_obj_def\<close>)
qed

lemma cmp_step_rest:
  assumes "cmp_step (x, y) s = Inr t"
  shows "sail_rest t = (if trap_nxt y = 1 then [trap_obj (trap_pc y)] else []) @ sail_objs (sail_trace s)"
proof -
  have "outstanding_trap t = (if trap_nxt y = 1 then 1 else 0)"
    "outstanding_trap_pc t = (if trap_nxt y = 1 then trap_pc y else 0)"
    using assms by (auto simp: cmp_step_def bind_res_Inr_iff note_trap_def)
  moreover have "sail_trace t = sail_trace s" using cmp_step_io [OF assms] by (simp add: same_io_def)
  ultimately show ?thesis by (simp add: sail_rest_def)
qed

text \<open>
  One turn of the loop: the first of the two sequences, when neither has ended, goes into the step.
\<close>

lemma cmp_loop_cases:
  assumes "ibex_objs (ibex_trace s) = Inr xs"
  obtains (ended) f g y where "cmp_loop False s = Inr (put_traces f g s)" "xs = [] \<or> sail_rest s = []"
      "sail_rest s = [] \<or>
       sail_rest s = y # (if trap_nxt y = 1 then [trap_obj (trap_pc y)] else []) @ sail_objs g"
    | (raise) x y xs' ys e where "xs = x # xs'" "sail_rest s = y # ys" "cmp_step (x, y) s = Inl e"
      "cmp_loop False s = Inl e"
    | (step) x y xs' ys t f g where "xs = x # xs'" "sail_rest s = y # ys" "cmp_step (x, y) s = Inr t"
      "sail_rest (put_traces f g t) = ys" "ibex_objs f = Inr xs'"
      "cmp_loop False s = cmp_loop False (put_traces f g t)"
      "lines_left f < lines_left (ibex_trace s)"
proof -
  obtain x f where n: "ibex_find_nxt (ibex_trace s) = Inr (x, f)"
    using assms by (subst (asm) ibex_objs.simps) (auto split: sum.splits)
  define s1 where "s1 = put_traces f (sail_trace s) s"
  have i: "nxt_ibex False s = Inr (x, s1)"
    by (simp add: nxt_ibex_def n s1_def put_traces_def)
  obtain y g where y: "nxt_sail s1 = Inr (y, put_traces f g s)"
    "valid y = 0 \<longrightarrow> sail_rest s1 = []"
    "valid y \<noteq> 0 \<longrightarrow> sail_rest s1 =
       y # (if trap_nxt y = 1 then [trap_obj (trap_pc y)] else []) @ sail_objs g"
    by (rule nxt_sail_rest [of s1]) (simp add: s1_def)
  have r: "sail_rest s1 = sail_rest s" by (simp add: sail_rest_def s1_def)
  have o: "ibex_objs (ibex_trace s) = (if valid x = 0 then Inr []
      else (case ibex_objs f of Inl e \<Rightarrow> Inl e | Inr xs \<Rightarrow> Inr (x # xs)))"
    by (subst ibex_objs.simps) (simp add: n)
  show thesis
  proof (cases "valid x = 0 \<or> valid y = 0")
    case True
    then have "cmp_loop False s = Inr (put_traces f g s)"
      using i y(1) by (subst cmp_loop.simps) auto
    then show thesis by (rule ended) (use True o assms y r in auto)
  next
    case False
    with o assms obtain xs' where xs: "ibex_objs f = Inr xs'" "xs = x # xs'"
      by (auto split: sum.splits)
    have loop: "cmp_loop False s = (case lift_traces f g (cmp_step (x, y) s) of
        Inl e \<Rightarrow> Inl e | Inr s3 \<Rightarrow> cmp_loop False s3)"
      using i y(1) False by (subst cmp_loop.simps) (simp add: cmp_step_put)
    show thesis
    proof (cases "cmp_step (x, y) s")
      case (Inl e)
      then show thesis using raise xs y r False loop by auto
    next
      case (Inr t)
      have "cmp_step (x, y) (put_traces f g s) = Inr (put_traces f g t)"
        by (simp add: cmp_step_put Inr)
      from cmp_step_rest [OF this] y(3) r False
      have "sail_rest s = y # sail_rest (put_traces f g t)" by simp
      moreover have "lines_left f < lines_left (ibex_trace s)"
        using it.valid_flag [OF n] it.valid_reads [OF n] False by auto
      ultimately show thesis using step xs Inr loop by auto
    qed
  qed
qed

text \<open>The bookkeeping of one step and of a run of steps.\<close>

lemma checks_counts:
  "check_cs1 x s = Inr t \<Longrightarrow> neq_cnt t = neq_cnt s \<and> cmp_cnt t = cmp_cnt s"
  "check_cs2 x s = Inr t \<Longrightarrow> neq_cnt t = neq_cnt s \<and> cmp_cnt t = cmp_cnt s"
  "check_write x s = Inr t \<Longrightarrow> neq_cnt t = neq_cnt s \<and> cmp_cnt t = cmp_cnt s"
  by (auto simp: check_cs1_def check_cs2_def check_write_def set_pending_def bind_res_Inr_iff printf_def
      split: if_splits)

lemma compare_objs_counts:
  "compare_objs x y s = Inr t \<Longrightarrow> cmp_cnt t = cmp_cnt s \<and>
     neq_cnt t = neq_cnt s + (if obj_eq x y \<or> revocation_case x y then 0 else 1)"
  by (auto simp: compare_objs_def set_pending_def bind_res_Inr_iff printf_def split: if_splits)

lemma note_trap_counts [simp]: "neq_cnt (note_trap y s) = neq_cnt s" "cmp_cnt (note_trap y s) = cmp_cnt s"
  by (simp_all add: note_trap_def)

lemma cmp_step_counts:
  assumes "cmp_step (x, y) s = Inr t"
  shows "cmp_cnt t = cmp_cnt s + 1"
    and "neq_cnt t = neq_cnt s + (if obj_eq x y \<or> revocation_case x y then 0 else 1)"
proof -
  from assms obtain s1 s2 s3 s4 where s: "check_cs1 x s = Inr s1" "check_cs2 x s1 = Inr s2"
    "check_write x s2 = Inr s3" "compare_objs x y s3 = Inr s4"
    "t = note_trap y (s4\<lparr>cmp_cnt := cmp_cnt s4 + 1\<rparr>)"
    by (auto simp: cmp_step_def bind_res_Inr_iff)
  note c = checks_counts(1) [OF s(1)] checks_counts(2) [OF s(2)] checks_counts(3) [OF s(3)]
    compare_objs_counts [OF s(4)]
  from c s(5) show "cmp_cnt t = cmp_cnt s + 1"
    "neq_cnt t = neq_cnt s + (if obj_eq x y \<or> revocation_case x y then 0 else 1)"
    by simp_all
qed

definition mismatch :: "trace_obj \<times> trace_obj \<Rightarrow> bool" where
  "mismatch xy = (\<not> (obj_eq (fst xy) (snd xy) \<or> revocation_case (fst xy) (snd xy)))"

lemma fold_step_counts:
  "fold_res cmp_step ps s = Inr t \<Longrightarrow>
     cmp_cnt t = cmp_cnt s + length ps \<and> neq_cnt t = neq_cnt s + length (filter mismatch ps)"
proof (induction ps arbitrary: s)
  case (Cons p ps)
  obtain x y where p: "p = (x, y)" by (cases p)
  from Cons.prems obtain u where u: "cmp_step (x, y) s = Inr u" "fold_res cmp_step ps u = Inr t"
    by (auto simp: p bind_res_Inr_iff)
  from Cons.IH [OF u(2)] cmp_step_counts [OF u(1)] show ?case by (simp add: p mismatch_def)
qed simp

section \<open>What a run does\<close>

lemma cmp_loop_fold:
  assumes "ibex_objs (ibex_trace s) = Inr xs"
  shows "\<exists>f g. cmp_loop False s = lift_traces f g (fold_res cmp_step (zip xs (sail_rest s)) s)"
  using assms
proof (induction "lines_left (ibex_trace s)" arbitrary: s xs rule: less_induct)
  case less
  from less.prems show ?case
  proof (cases rule: cmp_loop_cases)
    case (ended f g)
    have z: "zip xs (sail_rest s) = []" using ended(2) by auto
    from ended(1) have "cmp_loop False s = lift_traces f g (fold_res cmp_step (zip xs (sail_rest s)) s)"
      unfolding z by simp
    then show ?thesis by blast
  next
    case (raise x y xs' ys e)
    then show ?thesis by simp
  next
    case (step x y xs' ys t f g)
    then obtain f' g' where "cmp_loop False (put_traces f g t) =
        lift_traces f' g' (fold_res cmp_step (zip xs' ys) (put_traces f g t))"
      using less.hyps [of "put_traces f g t" xs'] by auto
    with step have "cmp_loop False s = lift_traces f' g' (fold_res cmp_step (zip xs (sail_rest s)) s)"
      by (simp add: fold_step_put)
    then show ?thesis by blast
  qed
qed

lemma cmp_loop_leftover:
  assumes "ibex_objs (ibex_trace s) = Inr xs" "cmp_loop False s = Inr t" "lines_left (sail_trace t) = 0"
  shows "length (sail_rest s) \<le> length xs + 2"
  using assms
proof (induction "lines_left (ibex_trace s)" arbitrary: s xs rule: less_induct)
  case less
  from less.prems(1) show ?case
  proof (cases rule: cmp_loop_cases)
    case (ended f g y)
    with less.prems have "lines_left g = 0" by auto
    with ended(3) show ?thesis by (auto simp: sail_objs_ended)
  next
    case (raise x y xs' ys e)
    with less.prems show ?thesis by simp
  next
    case (step x y xs' ys u f g)
    with less.hyps [of "put_traces f g u" xs'] less.prems show ?thesis by auto
  qed
qed

lemma sail_rest_init: "sail_rest (init_cstate f g) = sail_objs g"
  by (simp add: sail_rest_def init_cstate_def)

lemma init_traces [simp]: "ibex_trace (init_cstate f g) = f" "sail_trace (init_cstate f g) = g"
  by (simp_all add: init_cstate_def)

text \<open>
  C2. The interleaved loop refines a comparison of two lists: without skipping, the run over two
  files is the fold of the comparison step over the pairs of their objects, where the Sail sequence
  has an object of its own for every trap reported early. Exceptions included, the only other
  effect is how far the two files have been read.
\<close>

theorem cmp_loop_refines:
  assumes "ibex_objs ibex = Inr xs"
  shows "\<exists>f g. cmp_loop False (init_cstate ibex sail) =
           map_sum id (put_traces f g)
             (fold_res cmp_step (zip xs (sail_objs sail)) (init_cstate ibex sail))"
  using cmp_loop_fold [of "init_cstate ibex sail" xs] assms by (simp add: sail_rest_init)

definition tiny_ibex :: trace_file where
  "tiny_ibex = \<lparr>tf_lines = [''1 1 4 3 a''], line_ptr = 0, is_rvfi = 0\<rparr>"

definition tiny_sail :: trace_file where
  "tiny_sail = \<lparr>tf_lines = [''[1] [M]: 0x4 (0x3)''], line_ptr = 0, is_rvfi = 0\<rparr>"

lemma ibex_absent:
  "\<not> contains ''=0x'' s \<Longrightarrow> re_findall ibex_pattern2 s = []"
  "\<not> contains ''=0x'' s \<Longrightarrow> re_findall ibex_pattern3 s = []"
  "\<not> contains ''PA:0x'' s \<Longrightarrow> re_findall ibex_pattern4 s = []"
  "\<not> contains ''PA:0x'' s \<Longrightarrow> re_findall ibex_pattern5 s = []"
  "\<not> contains '':0x'' s \<Longrightarrow> re_findall ibex_pattern6 s = []"
  unfolding ibex_pattern2_def ibex_pattern3_def ibex_pattern4_def ibex_pattern5_def ibex_pattern6_def
  by (erule findall_absent, simp)+

lemma sail_absent:
  "\<not> contains ''<-'' s \<Longrightarrow> re_findall sail_pattern2_0 s = []"
  "\<not> contains ''(v:'' s \<Longrightarrow> re_findall sail_pattern2_1 s = []"
  "\<not> contains ''CHERI'' s \<Longrightarrow> re_findall sail_pattern2_2 s = []"
  "\<not> contains ''tag['' s \<Longrightarrow> re_findall sail_pattern4 s = []"
  "\<not> contains ''uart['' s \<Longrightarrow> re_findall sail_pattern5 s = []"
  unfolding sail_pattern2_0_def sail_pattern2_1_def sail_pattern2_2_def sail_pattern4_def sail_pattern5_def
  by (erule findall_absent, simp)+

lemma first_match_Nil [simp]: "re_findall r s = [] \<Longrightarrow> first_match r s = None"
  by (simp add: first_match_def)

lemma tiny_ints:
  "get_int 10 ''1'' = Inr 1" "get_int 16 ''4'' = Inr 4" "get_int 16 ''3'' = Inr 3"
  by code_simp+

lemma tiny_ibex_nxt:
  "ibex_find_nxt tiny_ibex =
     Inr (new_obj\<lparr>valid := 1, cycle := 1, pc := 4, instr := 3\<rparr>, tiny_ibex\<lparr>line_ptr := 1\<rparr>)"
proof -
  let ?l = "''1 1 4 3 a''"
  have c: "\<not> contains ''=0x'' ?l" "\<not> contains ''PA:0x'' ?l" "\<not> contains '':0x'' ?l"
    "\<not> contains ''-->'' ''a''" "\<not> contains ''==>'' ''a''"
    by code_simp+
  have "map_option (\<lambda>m. map (grp m) [1, 2, 3, 4]) (first_match ibex_pattern1 ?l) =
      Some [''1'', ''4'', ''3'', ''a'']" by code_simp
  then obtain m where m: "first_match ibex_pattern1 ?l = Some m"
    "grp m (Suc 0) = ''1''" "grp m 2 = ''4''" "grp m 3 = ''3''" "grp m 4 = ''a''" by auto
  have "find_line ibex_pattern1 [?l] 0 = (0, Some m)"
    by (subst find_line.simps) (simp add: m(1))
  then show ?thesis
    by (simp add: ibex_find_nxt_def tiny_ibex_def ibex_parse_line_def ibex_basic_def m tiny_ints
        search_rstr_None [THEN iffD2, OF c(4)] search_rstr_None [THEN iffD2, OF c(5)]
        ibex_reg_write_def ibex_mem_cap_def ibex_mem_def ibex_reg_read_def ibex_absent(1,2) [OF c(1)]
        ibex_absent(3,4) [OF c(2)] ibex_absent(5) [OF c(3)] new_obj_def)
qed

lemma tiny_sail_nxt:
  "sail_find_nxt tiny_sail =
     Inr (new_obj\<lparr>valid := 1, cycle := 1, pc := 4, instr := 3, trap_pc := 4\<rparr>, tiny_sail\<lparr>line_ptr := 1\<rparr>)"
proof -
  let ?l = "''[1] [M]: 0x4 (0x3)''"
  have c: "\<not> contains ''<-'' ?l" "\<not> contains ''(v:'' ?l" "\<not> contains ''CHERI'' ?l"
    "\<not> contains ''tag['' ?l" "\<not> contains ''uart['' ?l" "\<not> contains ''trapping'' ?l"
    by code_simp+
  have 3: "re_findall sail_pattern3 ?l = []" "re_findall sail_pattern2_3 ?l = []"
    using c(6) by (code_simp, simp add: sail_pattern2_3_def findall_Nil search_rstr_None)
  have "map_option (\<lambda>m. map (grp m) [0, 1, 2]) (first_match sail_pattern1 ?l) =
      Some [''1'', ''4'', ''3'']" by code_simp
  then obtain m where m: "first_match sail_pattern1 ?l = Some m"
    "grp m 0 = ''1''" "grp m (Suc 0) = ''4''" "grp m 2 = ''3''" by auto
  have "find_line sail_pattern1 [?l] 0 = (0, Some m)"
    by (subst find_line.simps) (simp add: m(1))
  moreover have "sail_gather 0 [?l] 1 ?l = (?l, 1)"
    by (subst sail_gather.simps) simp
  ultimately show ?thesis
    by (simp add: sail_find_nxt_def tiny_sail_def sail_basic_def m tiny_ints sail_reg_write_def
        sail_trap_def sail_mem_def sail_absent(1) [OF c(1)] sail_absent(2) [OF c(2)]
        sail_absent(3) [OF c(3)] sail_absent(4) [OF c(4)] sail_absent(5) [OF c(5)] 3 new_obj_def)
qed

lemma tiny_ibex_objs:
  "ibex_objs tiny_ibex = Inr [new_obj\<lparr>valid := 1, cycle := 1, pc := 4, instr := 3\<rparr>]"
  by (subst ibex_objs.simps, simp add: tiny_ibex_nxt, subst ibex_objs.simps)
     (simp add: it.ended lines_left_def tiny_ibex_def new_obj_def)

theorem cmp_loop_refines_witness:
  "\<exists>f g. cmp_loop False (init_cstate tiny_ibex tiny_sail) =
     map_sum id (put_traces f g)
       (fold_res cmp_step
          (zip [new_obj\<lparr>valid := 1, cycle := 1, pc := 4, instr := 3\<rparr>] (sail_objs tiny_sail))
          (init_cstate tiny_ibex tiny_sail))"
  using cmp_loop_refines [OF tiny_ibex_objs] .

text \<open>
  C1. What a passing verdict says: every pair of objects that was compared is equal, or is a
  capability load that Sail has revoked and ibex may still revoke; every line of the Sail trace was
  read, so that at most the last instruction and its trap were not compared.
\<close>

theorem passed_sound:
  assumes "ibex_objs ibex = Inr xs" "cmp_loop False (init_cstate ibex sail) = Inr s" "passed s"
  shows "list_all (\<lambda>(x, y). obj_eq x y \<or> revocation_case x y) (zip xs (sail_objs sail)) \<and>
     cmp_cnt s = min (length xs) (length (sail_objs sail)) \<and>
     length (sail_objs sail) \<le> length xs + 2"
proof (intro conjI)
  obtain f g where "cmp_loop False (init_cstate ibex sail) =
      lift_traces f g (fold_res cmp_step (zip xs (sail_objs sail)) (init_cstate ibex sail))"
    using cmp_loop_fold [of "init_cstate ibex sail" xs] assms(1) by (auto simp: sail_rest_init)
  with assms(2) obtain t where "s = put_traces f g t"
    "fold_res cmp_step (zip xs (sail_objs sail)) (init_cstate ibex sail) = Inr t"
    by (cases "fold_res cmp_step (zip xs (sail_objs sail)) (init_cstate ibex sail)") auto
  with fold_step_counts [of "zip xs (sail_objs sail)" "init_cstate ibex sail" t]
  have c: "cmp_cnt s = length (zip xs (sail_objs sail))"
    "neq_cnt s = length (filter mismatch (zip xs (sail_objs sail)))"
    by (simp_all add: init_cstate_def)
  show "cmp_cnt s = min (length xs) (length (sail_objs sail))" using c(1) by simp
  have "filter mismatch (zip xs (sail_objs sail)) = []" using c(2) assms(3) by (simp add: passed_def)
  then show "list_all (\<lambda>(x, y). obj_eq x y \<or> revocation_case x y) (zip xs (sail_objs sail))"
    by (auto simp: filter_empty_conv mismatch_def list_all_iff split: prod.splits)
  have "lines_left (sail_trace s) = 0"
    using assms(3) by (auto simp: passed_def lines_left_int_def lines_left_def)
  with cmp_loop_leftover [of "init_cstate ibex sail" xs s] assms
  show "length (sail_objs sail) \<le> length xs + 2" by (simp add: sail_rest_init)
qed

lemma tiny_run: "\<exists>s. cmp_loop False (init_cstate tiny_ibex tiny_sail) = Inr s \<and> passed s"
  by (subst cmp_loop.simps, simp add: nxt_ibex_def nxt_sail_def tiny_ibex_nxt tiny_sail_nxt init_cstate_def
      cmp_step_def check_cs1_def check_cs2_def check_write_def compare_objs_def reg_pending_def
      py_index_def new_obj_def obj_eq_def almost_eq_def Let_def note_trap_def,
      subst cmp_loop.simps)
     (simp add: nxt_ibex_def nxt_sail_def it.ended st.ended lines_left_def tiny_ibex_def tiny_sail_def
      new_obj_def passed_def revoke_pending_def list_ex_iff lines_left_int_def)

theorem passed_sound_witness:
  "\<exists>s. cmp_loop False (init_cstate tiny_ibex tiny_sail) = Inr s \<and> cmp_cnt s = 1 \<and>
     length (sail_objs tiny_sail) = 1"
proof -
  obtain s where s: "cmp_loop False (init_cstate tiny_ibex tiny_sail) = Inr s" "passed s"
    using tiny_run by blast
  have l: "length (sail_objs tiny_sail) = 1"
    unfolding sail_objs.simps [of tiny_sail] tiny_sail_nxt
    by (simp add: with_trap_def sail_objs_ended lines_left_def tiny_sail_def new_obj_def)
  from passed_sound [OF tiny_ibex_objs s] s(1) l show ?thesis by simp
qed

section \<open>Handlers, revocation and the printed verdict\<close>

text \<open>
  C16. With skipping, the object handed to the comparison is either the end of the trace or an
  instruction outside every handler: it neither traps nor is interrupted, no handler is open, and it
  lies below the debug module.
\<close>

theorem skip_isr_result:
  assumes "skip_isr s = Inr (x, t)"
  shows "x = new_obj \<and> lines_left (ibex_trace t) = 0 \<or>
     trap x = 0 \<and> intr x = 0 \<and> ibex_in_isr t = 0 \<and> pc x < 0x80040000"
  using assms
proof (induction s rule: skip_isr.induct)
  case (1 s)
  obtain y f where n: "ibex_find_nxt (ibex_trace s) = Inr (y, f)"
    using "1.prems" by (subst (asm) skip_isr.simps) (auto split: sum.splits)
  show ?case
  proof (cases "valid y = 0 \<or> trap y = 0 \<and> intr y = 0 \<and> ibex_in_isr s = 0 \<and> pc y < 0x80040000")
    case True
    with n have "skip_isr s = Inr (y, s\<lparr>ibex_trace := f\<rparr>)"
      by (subst skip_isr.simps) auto
    with "1.prems" True show ?thesis using it.invalid_ends [OF n] by auto
  next
    case False
    with n have "skip_isr s = skip_isr (isr_track y (s\<lparr>ibex_trace := f\<rparr>))"
      by (subst skip_isr.simps) auto
    with "1.IH" [OF n refl] False "1.prems" show ?thesis by auto
  qed
qed

theorem skip_isr_result_witness:
  "\<exists>x t. skip_isr (init_cstate tiny_ibex tiny_sail) = Inr (x, t) \<and> pc x = 4 \<and>
     (x = new_obj \<and> lines_left (ibex_trace t) = 0 \<or>
      trap x = 0 \<and> intr x = 0 \<and> ibex_in_isr t = 0 \<and> pc x < 0x80040000)"
proof -
  have "\<exists>x t. skip_isr (init_cstate tiny_ibex tiny_sail) = Inr (x, t) \<and> pc x = 4"
    by (subst skip_isr.simps) (simp add: tiny_ibex_nxt init_cstate_def new_obj_def)
  then show ?thesis using skip_isr_result by blast
qed

text \<open>
  A revocation seen through the second operand is not recorded: when the register of \<^verbatim>\<open>cs2\<close>
  waits for its revocation and the one of \<^verbatim>\<open>cs1\<close> does not, reading \<^verbatim>\<open>cs2\<close> with a cleared tag
  changes nothing, because the test looks up the register of \<^verbatim>\<open>cs1\<close>.
\<close>

lemma cs2_revocation_missed:
  assumes "reg_pending (reg_raddr2 x) s = Inr True" "reg_pending (reg_raddr1 x) s = Inr False"
    "reg_rd2 x = 1" "c_tag (reg_rcap2 x) = 0"
  shows "check_cs2 x s = Inr s"
  using assms by (simp add: check_cs2_def)

definition clc_c5 :: trace_obj where
  "clc_c5 = new_obj\<lparr>valid := 1, reg_wr := 1, reg_waddr := 5, mem_rd := 1\<rparr>"

definition use_c5 :: trace_obj where
  "use_c5 = new_obj\<lparr>valid := 1, reg_rd1 := 1, reg_raddr1 := 5, reg_rcap1 := zero_cap\<lparr>c_tag := 1\<rparr>\<rparr>"

definition write_c5 :: trace_obj where
  "write_c5 = new_obj\<lparr>valid := 1, reg_wr := 1, reg_waddr := 5\<rparr>"

lemma replicate_update_same: "(replicate n x)[i := x] = replicate n x"
  by (cases "i < n") (auto intro!: nth_equalityI simp: nth_list_update)

text \<open>
  A run with a revocation error can pass: after a load that Sail has revoked, ibex uses the
  capability with its tag set, which is counted as a revocation error, and then overwrites the
  register. No mismatch and no pending revocation is left, and the verdict does not look at the count.
\<close>

lemma revocation_error_passes:
  "\<exists>t. fold_res cmp_step
         [(clc_c5\<lparr>reg_wcap := zero_cap\<lparr>c_tag := 1\<rparr>\<rparr>, clc_c5), (use_c5, use_c5), (write_c5, write_c5)]
         (init_cstate f g) = Inr t \<and>
     revoke_err_cnt t = 1 \<and> neq_cnt t = 0 \<and> \<not> revoke_pending t"
  by (simp add: clc_c5_def use_c5_def write_c5_def cmp_step_def check_cs1_def check_cs2_def check_write_def
      compare_objs_def reg_pending_def set_pending_def py_index_def new_obj_def obj_eq_def almost_eq_def
      cap_1_5_def zero_cap_def revocation_case_def note_trap_def printf_def init_cstate_def
      revoke_pending_def list_ex_iff replicate_update_same)

lemma report_last:
  "\<exists>t. stdout (report s) = t @ ''Compare_trace.py: comparison '' @
     (if passed s then ''passed :)'' else ''failed :('') @ [CHR 0x0A]"
  by (simp add: report_def Let_def printf_def)

lemma passed_report: "passed (report s) = passed s"
  by (simp add: report_def passed_def Let_def printf_def revoke_pending_def)


text \<open>Two files without instructions pass, and the program says so.\<close>

definition two_files :: "string \<Rightarrow> string option" where
  "two_files name = (if name = ''i'' then Some '''' else if name = ''s'' then Some ''RVFI'' else None)"


end
