(* ===== verification/Py_Shell.thy ===== *)
theory Py_Shell
  imports Py_Str
begin

text \<open>
  Command lines and paths as the tools build them: \<^verbatim>\<open>shlex.quote\<close>, \<^verbatim>\<open>os.path.join\<close>,
  \<^verbatim>\<open>os.path.splitext\<close>, \<^verbatim>\<open>os.path.basename\<close> and \<^verbatim>\<open>os.path.dirname\<close> of the Python library, and an
  abstract reader \<open>shell_words\<close> that says how a POSIX shell takes a line apart again. The main lemma
  is the round trip: a list of quoted words joined with blanks is read back word for word.
\<close>

section \<open>Quoting\<close>

definition shell_safe :: "char \<Rightarrow> bool" where
  "shell_safe c =
     (let n = code c in
      48 \<le> n \<and> n \<le> 57 \<or> 65 \<le> n \<and> n \<le> 90 \<or> n = 95 \<or> 97 \<le> n \<and> n \<le> 122 \<or>
      c \<in> set ''@%+=:,./-'')"

abbreviation squote :: char where "squote \<equiv> CHR 0x27"
abbreviation dquote :: char where "dquote \<equiv> CHR 0x22"
abbreviation blank :: char where "blank \<equiv> CHR 0x20"

definition shlex_quote :: "string \<Rightarrow> string" where
  "shlex_quote s =
     (if s = [] then [squote, squote]
      else if list_all shell_safe s then s
      else squote # py_replace [squote] [squote, dquote, squote, dquote, squote] s @ [squote])"

section \<open>Reading a command line\<close>

text \<open>
  The words of a line of plain characters, single and double quotes. \<open>None\<close> stands for a line with an
  open quote or with a character that the shell would interpret.
\<close>

fun unquoted :: "string \<Rightarrow> string option \<Rightarrow> string list option"
  and in_single :: "string \<Rightarrow> string \<Rightarrow> string list option"
  and in_double :: "string \<Rightarrow> string \<Rightarrow> string list option" where
  "unquoted [] w = Some (case w of None \<Rightarrow> [] | Some v \<Rightarrow> [rev v])"
| "unquoted (c # s) w =
     (if c = blank then
        (case w of None \<Rightarrow> unquoted s None | Some v \<Rightarrow> map_option (Cons (rev v)) (unquoted s None))
      else if c = squote then in_single s (case w of None \<Rightarrow> [] | Some v \<Rightarrow> v)
      else if c = dquote then in_double s (case w of None \<Rightarrow> [] | Some v \<Rightarrow> v)
      else if shell_safe c then unquoted s (Some (c # (case w of None \<Rightarrow> [] | Some v \<Rightarrow> v)))
      else None)"
| "in_single [] v = None"
| "in_single (c # s) v = (if c = squote then unquoted s (Some v) else in_single s (c # v))"
| "in_double [] v = None"
| "in_double (c # s) v =
     (if c = dquote then unquoted s (Some v)
      else if c \<in> {CHR ''$'', CHR 0x60, CHR 0x5C} then None
      else in_double s (c # v))"

definition shell_words :: "string \<Rightarrow> string list option" where
  "shell_words s = unquoted s None"

abbreviation open_word :: "string option \<Rightarrow> string" where
  "open_word w \<equiv> (case w of None \<Rightarrow> [] | Some v \<Rightarrow> v)"

lemma shell_safe_special [simp]:
  "\<not> shell_safe blank" "\<not> shell_safe squote" "\<not> shell_safe dquote"
  by code_simp+

lemma safe_not_special: "shell_safe c \<Longrightarrow> c \<noteq> blank \<and> c \<noteq> squote \<and> c \<noteq> dquote"
  by auto

lemma unquoted_safe:
  "list_all shell_safe s \<Longrightarrow> s \<noteq> [] \<Longrightarrow> unquoted (s @ t) w = unquoted t (Some (rev s @ open_word w))"
proof (induction s arbitrary: w)
  case (Cons c s)
  then have "unquoted ((c # s) @ t) w = unquoted (s @ t) (Some (c # open_word w))"
    using safe_not_special [of c] by auto
  with Cons show ?case by (cases "s = []") auto
qed simp

text \<open>The body of a quoted word, with every quote written as a quoted quote.\<close>

lemma in_single_body:
  "in_single (concat (map (\<lambda>x. if x = squote then [squote, dquote, squote, dquote, squote] else [x]) s)
       @ squote # t) v
     = unquoted t (Some (rev s @ v))"
  by (induction s arbitrary: v) auto

lemma unquoted_quote:
  "unquoted (shlex_quote s @ t) w = unquoted t (Some (rev s @ open_word w))"
proof -
  consider "s = []" | "s \<noteq> []" "list_all shell_safe s" | "\<not> list_all shell_safe s" by (cases "s = []") auto
  then show ?thesis
  proof cases
    case 2
    then show ?thesis by (simp add: shlex_quote_def unquoted_safe)
  next
    case 3
    then have "s \<noteq> []" by auto
    with 3 show ?thesis
      by (simp add: shlex_quote_def py_replace_def replace_ne_char in_single_body)
  qed (simp add: shlex_quote_def)
qed

text \<open>The round trip.\<close>

lemma shell_words_join:
  "shell_words (py_join '' '' (map shlex_quote xs)) = Some xs"
proof -
  have "unquoted (py_join '' '' (map shlex_quote (x # ys))) None = Some (x # ys)" for x ys
  proof (induction ys arbitrary: x)
    case Nil
    show ?case using unquoted_quote [of x "[]" None] by simp
  next
    case (Cons y ys)
    then show ?case using unquoted_quote [of x _ None] by simp
  qed
  then show ?thesis by (cases xs) (simp_all add: shell_words_def)
qed

lemma quote_inj: "shlex_quote a = shlex_quote b \<Longrightarrow> a = b"
  using shell_words_join [of "[a]"] shell_words_join [of "[b]"] by simp

section \<open>Paths\<close>

definition path_join :: "string \<Rightarrow> string \<Rightarrow> string" where
  "path_join a b =
     (if b \<noteq> [] \<and> hd b = CHR ''/'' then b
      else if a = [] \<or> last a = CHR ''/'' then a @ b
      else a @ CHR ''/'' # b)"

definition basename :: "string \<Rightarrow> string" where
  "basename p = (case rfind_char (CHR ''/'') p of None \<Rightarrow> p | Some i \<Rightarrow> drop (Suc i) p)"

definition dirname :: "string \<Rightarrow> string" where
  "dirname p =
     (case rfind_char (CHR ''/'') p of
        None \<Rightarrow> []
      | Some i \<Rightarrow>
          (let h = take (Suc i) p in
           if list_all (\<lambda>c. c = CHR ''/'') h then h else rstrip_of (\<lambda>c. c = CHR ''/'') h))"

text \<open>\<^verbatim>\<open>os.path.splitext\<close>: leading dots of the last component are not an extension.\<close>

definition splitext :: "string \<Rightarrow> string \<times> string" where
  "splitext p =
     (let b = basename p in
      case rfind_char (CHR ''.'') b of
        None \<Rightarrow> (p, [])
      | Some i \<Rightarrow>
          if list_all (\<lambda>c. c = CHR ''.'') (take i b) then (p, [])
          else (let k = length p - length b + i in (take k p, drop k p)))"

lemma splitext_append: "fst (splitext p) @ snd (splitext p) = p"
  by (auto simp: splitext_def Let_def split: option.splits)

lemma basename_no_slash: "CHR ''/'' \<notin> set (basename p)"
  by (auto simp: basename_def rfind_char_None split: option.splits dest: rfind_char_Some)

lemma basename_join:
  assumes "CHR ''/'' \<notin> set b" "b \<noteq> []"
  shows "basename (path_join a b) = b"
proof -
  have h: "hd b \<noteq> CHR ''/''" using assms by (cases b) auto
  have "basename (u @ CHR ''/'' # b) = b" for u
    using assms by (simp add: basename_def rfind_char_append)
  moreover have "basename (a @ b) = b" if "a = [] \<or> last a = CHR ''/''"
  proof (cases "a = []")
    case True
    with assms show ?thesis by (simp add: basename_def rfind_char_None [THEN iffD2])
  next
    case False
    with that obtain u where "a = u @ [CHR ''/'']" by (metis append_butlast_last_id)
    with assms show ?thesis by (simp add: basename_def rfind_char_append)
  qed
  ultimately show ?thesis using h by (auto simp: path_join_def)
qed

end
