(* ===== verification/Py_Value.thy ===== *)
theory Py_Value
  imports Py_Shell
begin

text \<open>
  Python values that reach the tools from outside, through a YAML loader or an executed file, with
  the operations on them that the tools use.
\<close>

section \<open>Values\<close>

text \<open>
  What a YAML loader or an executed Python file hands over. A float holds its text; \<open>YOther\<close> holds
  the name of any other class and the representation of the object.
\<close>

datatype yval =
    YNull
  | YBool bool
  | YInt int
  | YFloat string
  | YStr string
  | YSeq "yval list"
  | YMap "(yval \<times> yval) list"
  | YOther string string

text \<open>\<^verbatim>\<open>str(type(v))\<close>.\<close>

definition type_str :: "yval \<Rightarrow> string" where
  "type_str v =
     ''<class '' @ [squote] @
     (case v of YNull \<Rightarrow> ''NoneType'' | YBool _ \<Rightarrow> ''bool'' | YInt _ \<Rightarrow> ''int'' | YFloat _ \<Rightarrow> ''float''
      | YStr _ \<Rightarrow> ''str'' | YSeq _ \<Rightarrow> ''list'' | YMap _ \<Rightarrow> ''dict'' | YOther n _ \<Rightarrow> n) @ [squote] @ ''>''"

text \<open>String concatenation with a value that must be a string.\<close>

definition as_str :: "yval \<Rightarrow> string py_res" where
  "as_str v = (case v of YStr s \<Rightarrow> Inr s | _ \<Rightarrow> Inl TypeError)"

text \<open>\<^verbatim>\<open>repr(v)\<close>.\<close>

fun repr_val :: "yval \<Rightarrow> string" where
  "repr_val YNull = ''None''"
| "repr_val (YBool b) = (if b then ''True'' else ''False'')"
| "repr_val (YInt i) = int_str i"
| "repr_val (YFloat t) = t"
| "repr_val (YStr s) = py_repr s"
| "repr_val (YSeq vs) = ''['' @ py_join '', '' (map repr_val vs) @ '']''"
| "repr_val (YMap kvs) =
     ''{'' @ py_join '', '' (map (\<lambda>(k, v). repr_val k @ '': '' @ repr_val v) kvs) @ ''}''"
| "repr_val (YOther n r) = r"

text \<open>\<^verbatim>\<open>str(v)\<close>.\<close>

definition str_val :: "yval \<Rightarrow> string" where
  "str_val v = (case v of YStr s \<Rightarrow> s | _ \<Rightarrow> repr_val v)"

text \<open>Truth of a value.\<close>

definition truth :: "yval \<Rightarrow> bool" where
  "truth v =
     (case v of YNull \<Rightarrow> False | YBool b \<Rightarrow> b | YInt i \<Rightarrow> i \<noteq> 0 | YFloat t \<Rightarrow> t \<notin> {''0.0'', ''-0.0''}
      | YStr s \<Rightarrow> s \<noteq> [] | YSeq vs \<Rightarrow> vs \<noteq> [] | YMap kvs \<Rightarrow> kvs \<noteq> [] | YOther _ _ \<Rightarrow> True)"

section \<open>Log messages\<close>

datatype log_level = LogDebug | LogInfo | LogWarning | LogError

type_synonym log = "(log_level \<times> string) list"

end
