(* ===== verification/Riscv_Lib.thy ===== *)
theory Riscv_Lib
  imports Py_Regex Py_Value
begin

text \<open>
  The shared library of the RISC-V test generator, \<^verbatim>\<open>vendor/google_riscv-dv/scripts/lib.py\<close>, on which the
  trace converters and the regression scripts of ibex rest: running commands, reading YAML, choosing
  tests, register names and the expansion of pseudo instructions.

  Parameters: the shell (\<open>sh\<close>, from a command to its outcome), the file system and the YAML loader.
\<close>

section \<open>Return codes and logging\<close>

definition RET_SUCCESS :: int where "RET_SUCCESS = 0"
definition RET_FAIL :: int where "RET_FAIL = 1"
definition RET_FATAL :: int where "RET_FATAL = -1"

text \<open>The format of a message and the lowest level that is shown.\<close>

definition setup_logging :: "bool \<Rightarrow> string \<times> string \<times> log_level" where
  "setup_logging verbose =
     (if verbose
      then (''%(asctime)s %(filename)s:%(lineno)-5s %(levelname)-8s %(message)s'',
            ''%a, %d %b %Y %H:%M:%S'', LogDebug)
      else (''%(asctime)s %(levelname)-8s %(message)s'', ''%a, %d %b %Y %H:%M:%S'', LogInfo))"

definition read_yaml ::
  "(string \<Rightarrow> string option) \<Rightarrow> (string \<Rightarrow> string + yval) \<Rightarrow> string \<Rightarrow> log \<times> yval py_res" where
  "read_yaml fs safe_load yaml_file =
     (case fs yaml_file of
        None \<Rightarrow> ([], Inl (FileNotFoundError yaml_file))
      | Some content \<Rightarrow>
          (case safe_load content of
             Inl exc \<Rightarrow> ([(LogError, exc)], Inl (SystemExit RET_FAIL))
           | Inr yaml_data \<Rightarrow> ([], Inr yaml_data)))"

definition get_env_var ::
  "(string \<Rightarrow> string option) \<Rightarrow> string \<Rightarrow> bool \<Rightarrow> log \<times> string py_res" where
  "get_env_var environ var debug_cmd =
     (case environ var of
        Some val \<Rightarrow> ([], Inr val)
      | None \<Rightarrow>
          if debug_cmd then ([], Inr var)
          else ([(LogWarning, ''Please set the environment variable '' @ var)], Inl (SystemExit RET_FAIL)))"

section \<open>Running commands\<close>

text \<open>
  What becomes of a command: its output and return code, a time-out (after the kill the return code
  is not yet known), or an interrupt by the user while it is started.
\<close>

datatype outcome = Exited string int | TimedOut | Interrupted

text \<open>The debug file is its text so far, \<open>None\<close> without one. A command written there is not run.\<close>

definition note_cmd :: "string \<Rightarrow> string \<Rightarrow> string" where
  "note_cmd cmd text_so_far = text_so_far @ cmd @ [CHR 0x0A, CHR 0x0A]"

definition run_cmd ::
  "(string \<Rightarrow> outcome) \<Rightarrow> string \<Rightarrow> nat \<Rightarrow> bool \<Rightarrow> bool \<Rightarrow> string option \<Rightarrow>
   log \<times> string option \<times> string option py_res" where
  "run_cmd sh cmd timeout_s exit_on_error check_return_code debug_cmd =
     (let l0 = [(LogDebug, cmd)] in
      case debug_cmd of
        Some d \<Rightarrow> (l0, Some (note_cmd cmd d), Inr None)
      | None \<Rightarrow>
          (case sh (''exec '' @ cmd) of
             Interrupted \<Rightarrow> (l0 @ [(LogInfo, [CHR 0x0A] @ ''Exited Ctrl-C from user request.'')], None,
                             Inl (SystemExit 130))
           | TimedOut \<Rightarrow>
               (l0 @ [(LogError, ''Timeout['' @ nat_str 10 timeout_s @ ''s]: '' @ cmd), (LogDebug, [])],
                None, Inr (Some []))
           | Exited output rc \<Rightarrow>
               (if check_return_code \<and> rc > 0
                then (let l1 = l0 @ [(LogInfo, output), (LogError, ''ERROR return code: '' @
                                 (if check_return_code then ''True'' else ''False'') @ ''/'' @
                                 int_str rc @ '', cmd:'' @ cmd)] in
                      if exit_on_error then (l1, None, Inl (SystemExit RET_FAIL))
                      else (l1 @ [(LogDebug, output)], None, Inr (Some output)))
                else (l0 @ [(LogDebug, output)], None, Inr (Some output)))))"

text \<open>
  Waiting for the commands that were started together. \<open>output\<close> is the local variable of that name,
  unset at first; \<open>last_cmd\<close> is the variable \<^verbatim>\<open>cmd\<close>, which still holds the last command of the list.
\<close>

fun wait_all ::
  "nat \<Rightarrow> bool \<Rightarrow> bool \<Rightarrow> string \<Rightarrow> nat \<Rightarrow> nat \<Rightarrow> string option \<Rightarrow> (string \<times> outcome) list \<Rightarrow>
   log \<Rightarrow> log \<times> unit py_res" where
  "wait_all timeout_s exit_on_error check_return_code last_cmd n i output [] l = (l, Inr ())"
| "wait_all timeout_s exit_on_error check_return_code last_cmd n i output ((cmd, out) # rest) l =
     (let l1 = l @ [(LogInfo, ''Command progress: '' @ nat_str 10 (i + 1) @ ''/'' @ nat_str 10 n),
                    (LogDebug, ''Waiting for command: '' @ cmd)] in
      case out of
        Interrupted \<Rightarrow> (l1 @ [(LogInfo, [CHR 0x0A] @ ''Exited Ctrl-C from user request.'')],
                        Inl (SystemExit 130))
      | TimedOut \<Rightarrow>
          (let l2 = l1 @ [(LogError, ''Timeout['' @ nat_str 10 timeout_s @ ''s]: '' @ last_cmd)] in
           case output of
             None \<Rightarrow> (l2, Inl UnboundLocalError)
           | Some o1 \<Rightarrow>
               wait_all timeout_s exit_on_error check_return_code last_cmd n (i + 1) output rest
                 (l2 @ [(LogDebug, o1)]))
      | Exited o1 rc \<Rightarrow>
          (if check_return_code \<and> rc > 0
           then (let l2 = l1 @ [(LogInfo, o1), (LogError, ''ERROR return code: '' @ int_str rc @
                                  '', cmd:'' @ last_cmd)] in
                 if exit_on_error then (l2, Inl (SystemExit RET_FAIL))
                 else wait_all timeout_s exit_on_error check_return_code last_cmd n (i + 1) (Some o1) rest
                        (l2 @ [(LogDebug, o1)]))
           else wait_all timeout_s exit_on_error check_return_code last_cmd n (i + 1) (Some o1) rest
                  (l1 @ [(LogDebug, o1)])))"

definition run_parallel_cmd ::
  "(string \<Rightarrow> outcome) \<Rightarrow> string list \<Rightarrow> nat \<Rightarrow> bool \<Rightarrow> bool \<Rightarrow> string option \<Rightarrow>
   log \<times> string option \<times> unit py_res" where
  "run_parallel_cmd sh cmd_list timeout_s exit_on_error check_return_code debug_cmd =
     (case debug_cmd of
        Some d \<Rightarrow> ([], Some (fold note_cmd cmd_list d), Inr ())
      | None \<Rightarrow>
          (case wait_all timeout_s exit_on_error check_return_code
                  (if cmd_list = [] then [] else last cmd_list) (length cmd_list) 0 None
                  (map (\<lambda>cmd. (cmd, sh (''exec '' @ cmd))) cmd_list) [] of
             (l, r) \<Rightarrow> (l, None, r)))"

definition run_cmd_output ::
  "(string list \<Rightarrow> string \<times> int) \<Rightarrow> string list \<Rightarrow> string option \<Rightarrow> log \<times> string option \<times> unit py_res" where
  "run_cmd_output check_output cmd debug_cmd =
     (let line = py_join '' '' cmd; l0 = [(LogDebug, line)] in
      case debug_cmd of
        Some d \<Rightarrow> (l0, Some (note_cmd line d), Inr ())
      | None \<Rightarrow>
          (case check_output cmd of (output, rc) \<Rightarrow>
             if rc \<noteq> 0 then (l0 @ [(LogDebug, output)], None, Inl (CalledProcessError rc))
             else (l0 @ (if output \<noteq> [] then [(LogDebug, output)] else []), None, Inr ())))"

section \<open>Choosing tests\<close>

text \<open>Lookup \<^verbatim>\<open>entry[key]\<close> in an entry of a list of tests.\<close>

definition entry_get :: "yval \<Rightarrow> string \<Rightarrow> yval py_res" where
  "entry_get entry key =
     (case entry of
        YMap d \<Rightarrow> (case dict_get d (YStr key) of Some v \<Rightarrow> Inr v | None \<Rightarrow> Inl (KeyError key))
      | _ \<Rightarrow> Inl TypeError)"

text \<open>\<^verbatim>\<open>key in entry\<close>: for a string it is a substring test.\<close>

definition entry_has :: "yval \<Rightarrow> string \<Rightarrow> bool py_res" where
  "entry_has entry key =
     (case entry of
        YMap d \<Rightarrow> Inr (dict_has d (YStr key))
      | YSeq vs \<Rightarrow> Inr (YStr key \<in> set vs)
      | YStr s \<Rightarrow> Inr (contains key s)
      | _ \<Rightarrow> Inl TypeError)"

definition as_int :: "yval \<Rightarrow> int py_res" where
  "as_int v = (case v of YInt i \<Rightarrow> Inr i | YBool b \<Rightarrow> Inr (if b then 1 else 0) | _ \<Rightarrow> Inl TypeError)"

text \<open>The elements a loop over the value visits.\<close>

definition as_seq :: "yval \<Rightarrow> yval list py_res" where
  "as_seq v = (case v of YSeq vs \<Rightarrow> Inr vs | YMap kvs \<Rightarrow> Inr (map fst kvs) | YStr s \<Rightarrow> Inr (map (\<lambda>c. YStr [c]) s)
      | _ \<Rightarrow> Inl TypeError)"

definition set_iterations :: "int \<Rightarrow> yval \<Rightarrow> yval" where
  "set_iterations n entry =
     (case entry of YMap d \<Rightarrow> YMap (dict_set (YStr ''iterations'') (YInt n) d) | v \<Rightarrow> v)"

text \<open>An entry that describes a test: the list with the entry appended when it is selected.\<close>

definition match_entry :: "string \<Rightarrow> int \<Rightarrow> yval \<Rightarrow> yval list \<Rightarrow> yval list py_res" where
  "match_entry test iterations entry matched =
     bind_res (entry_get entry ''test'') (\<lambda>name.
       if name \<in> YStr ` set (split_char (CHR '','') test) \<or> test = ''all''
       then bind_res (bind_res (entry_get entry ''iterations'') as_int) (\<lambda>n.
              let entry' = (if iterations > 0 \<and> n > 0 then set_iterations iterations entry else entry);
                  n' = (if iterations > 0 \<and> n > 0 then iterations else n)
              in Inr (if n' > 0 then matched @ [entry'] else matched))
       else Inr matched)"

text \<open>
  The recursion follows the imports of the files. Its depth is not bounded by anything in the code, so
  \<open>n\<close> bounds it here and \<open>None\<close> is a recursion deeper than that.
\<close>

fun process_regression_list ::
    "nat \<Rightarrow> (string \<Rightarrow> yval py_res) \<Rightarrow> string \<Rightarrow> string \<Rightarrow> int \<Rightarrow> string \<Rightarrow> yval list \<Rightarrow>
     yval list py_res option"
  and process_entries ::
    "nat \<Rightarrow> (string \<Rightarrow> yval py_res) \<Rightarrow> yval list \<Rightarrow> string \<Rightarrow> int \<Rightarrow> string \<Rightarrow> yval list \<Rightarrow>
     yval list py_res option" where
  "process_regression_list 0 yaml testlist test iterations root matched = None"
| "process_regression_list (Suc n) yaml testlist test iterations root matched =
     (case bind_res (yaml testlist) as_seq of
        Inl e \<Rightarrow> Some (Inl e)
      | Inr entries \<Rightarrow> process_entries n yaml entries test iterations root matched)"
| "process_entries n yaml [] test iterations root matched = Some (Inr matched)"
| "process_entries n yaml (entry # rest) test iterations root matched =
     (case entry_has entry ''import'' of
        Inl e \<Rightarrow> Some (Inl e)
      | Inr True \<Rightarrow>
          (case bind_res (entry_get entry ''import'') as_str of
             Inl e \<Rightarrow> Some (Inl e)
           | Inr path \<Rightarrow>
               (case process_regression_list n yaml (py_replace ''<riscv_dv_root>'' root path) test
                       iterations root matched of
                  None \<Rightarrow> None
                | Some (Inl e) \<Rightarrow> Some (Inl e)
                | Some (Inr m) \<Rightarrow> process_entries n yaml rest test iterations root m))
      | Inr False \<Rightarrow>
          (case match_entry test iterations entry matched of
             Inl e \<Rightarrow> Some (Inl e)
           | Inr m \<Rightarrow> process_entries n yaml rest test iterations root m))"

text \<open>Effects on the file system: a shell line or a program with its arguments.\<close>

datatype effect = System string | Program "string list"

definition create_output :: "string \<Rightarrow> string option \<Rightarrow> bool \<Rightarrow> string \<Rightarrow> effect list \<times> string" where
  "create_output today output noclean pre =
     (let out = (case output of None \<Rightarrow> pre @ today | Some o1 \<Rightarrow> o1) in
      ((if noclean then [] else [System (''rm -rf '' @ out)]) @ [Program [''mkdir'', ''-p'', out]], out))"

section \<open>Registers and immediates\<close>

definition abi_table :: "(string \<times> string) list" where
  "abi_table =
     [(''x0'', ''zero''), (''x1'', ''ra''), (''x2'', ''sp''), (''x3'', ''gp''),
      (''x4'', ''tp''), (''x5'', ''t0''), (''x6'', ''t1''), (''x7'', ''t2''),
      (''x8'', ''s0''), (''x9'', ''s1''), (''x10'', ''a0''), (''x11'', ''a1''),
      (''x12'', ''a2''), (''x13'', ''a3''), (''x14'', ''a4''), (''x15'', ''a5''),
      (''x16'', ''a6''), (''x17'', ''a7''), (''x18'', ''s2''), (''x19'', ''s3''),
      (''x20'', ''s4''), (''x21'', ''s5''), (''x22'', ''s6''), (''x23'', ''s7''),
      (''x24'', ''s8''), (''x25'', ''s9''), (''x26'', ''s10''), (''x27'', ''s11''),
      (''x28'', ''t3''), (''x29'', ''t4''), (''x30'', ''t5''), (''x31'', ''t6''),
      (''f0'', ''ft0''), (''f1'', ''ft1''), (''f2'', ''ft2''), (''f3'', ''ft3''),
      (''f4'', ''ft4''), (''f5'', ''ft5''), (''f6'', ''ft6''), (''f7'', ''ft7''),
      (''f8'', ''fs0''), (''f9'', ''fs1''), (''f10'', ''fa0''), (''f11'', ''fa1''),
      (''f12'', ''fa2''), (''f13'', ''fa3''), (''f14'', ''fa4''), (''f15'', ''fa5''),
      (''f16'', ''fa6''), (''f17'', ''fa7''), (''f18'', ''fs2''), (''f19'', ''fs3''),
      (''f20'', ''fs4''), (''f21'', ''fs5''), (''f22'', ''fs6''), (''f23'', ''fs7''),
      (''f24'', ''fs8''), (''f25'', ''fs9''), (''f26'', ''fs10''), (''f27'', ''fs11''),
      (''f28'', ''ft8''), (''f29'', ''ft9''), (''f30'', ''ft10''), (''f31'', ''ft11'')]"

definition gpr_to_abi :: "string \<Rightarrow> string" where
  "gpr_to_abi gpr = (case dict_get abi_table gpr of Some a \<Rightarrow> a | None \<Rightarrow> ''na'')"

definition sint_to_hex :: "int \<Rightarrow> string" where
  "sint_to_hex val = py_hex ((val + 2 ^ 32) mod 2 ^ 32)"

section \<open>Pseudo instructions\<close>

text \<open>Pseudo instructions that get another name and further operands at the end.\<close>

definition append_table :: "(string \<times> string \<times> string) list" where
  "append_table =
     [(''mv'', ''addi'', '',0''),
      (''not'', ''xori'', '',-1''),
      (''sext.w'', ''addiw'', '',0''),
      (''seqz'', ''sltiu'', '',1''),
      (''sltz'', ''slt'', '',zero''),
      (''csrr'', ''csrrw'', '',zero''),
      (''rev.p'', ''grevi'', '',1''),
      (''rev2.n'', ''grevi'', '',2''),
      (''rev.n'', ''grevi'', '',3''),
      (''rev4.b'', ''grevi'', '',4''),
      (''rev2.b'', ''grevi'', '',6''),
      (''rev.b'', ''grevi'', '',7''),
      (''rev8.h'', ''grevi'', '',8''),
      (''rev4.h'', ''grevi'', '',12''),
      (''rev2.h'', ''grevi'', '',14''),
      (''rev.h'', ''grevi'', '',15''),
      (''rev16'', ''grevi'', '',16''),
      (''rev8'', ''grevi'', '',24''),
      (''rev4'', ''grevi'', '',28''),
      (''rev2'', ''grevi'', '',30''),
      (''rev'', ''grevi'', '',31''),
      (''orc.p'', ''gorci'', '',1''),
      (''orc2.n'', ''gorci'', '',2''),
      (''orc.n'', ''gorci'', '',3''),
      (''orc4.b'', ''gorci'', '',4''),
      (''orc2.b'', ''gorci'', '',6''),
      (''orc.b'', ''gorci'', '',7''),
      (''orc8.h'', ''gorci'', '',8''),
      (''orc4.h'', ''gorci'', '',12''),
      (''orc2.h'', ''gorci'', '',14''),
      (''orc.h'', ''gorci'', '',15''),
      (''orc16'', ''gorci'', '',16''),
      (''orc8'', ''gorci'', '',24''),
      (''orc4'', ''gorci'', '',28''),
      (''orc2'', ''gorci'', '',30''),
      (''orc'', ''gorci'', '',31''),
      (''zext.b'', ''andi'', '',255''),
      (''zext.h'', ''pack'', '',zero''),
      (''zext.w'', ''pack'', '',zero''),
      (''sext.w'', ''addiw'', '',0''),
      (''zip.n'', ''shfli'', '',1''),
      (''unzip.n'', ''unshfli'', '',1''),
      (''zip2.b'', ''shfli'', '',2''),
      (''unzip2.b'', ''unshfli'', '',2''),
      (''zip.b'', ''shfli'', '',3''),
      (''unzip.b'', ''unshfli'', '',3''),
      (''zip4.h'', ''shfli'', '',4''),
      (''unzip4.h'', ''unshfli'', '',4''),
      (''zip2.h'', ''shfli'', '',6''),
      (''unzip2.h'', ''unshfli'', '',6''),
      (''zip.h'', ''shfli'', '',7''),
      (''unzip.h'', ''unshfli'', '',7''),
      (''zip8'', ''shfli'', '',8''),
      (''unzip8'', ''unshfli'', '',8''),
      (''zip4'', ''shfli'', '',12''),
      (''unzip4'', ''unshfli'', '',12''),
      (''zip2'', ''shfli'', '',14''),
      (''unzip2'', ''unshfli'', '',14''),
      (''zip'', ''shfli'', '',15''),
      (''unzip'', ''unshfli'', '',15'')]"

text \<open>Those with two operands that get the zero register between them.\<close>

definition zero_table :: "(string \<times> string) list" where
  "zero_table =
     [(''neg'', ''sub''), (''negw'', ''subw''), (''snez'', ''sltu''), (''sgtz'', ''slt''),
      (''beqz'', ''beq''), (''bnez'', ''bne''), (''bgez'', ''bge''), (''bltz'', ''blt'')]"

text \<open>Those that get the zero register in front.\<close>

definition front_table :: "(string \<times> string) list" where
  "front_table =
     [(''blez'', ''bge''), (''bgtz'', ''blt''), (''csrw'', ''csrrw''), (''csrs'', ''csrrs''), (''csrc'', ''csrrc''),
      (''csrwi'', ''csrrwi''), (''csrsi'', ''csrrsi''), (''csrci'', ''csrrci''), (''j'', ''jal'')]"

text \<open>Those whose first two operands are swapped.\<close>

definition swap_table :: "(string \<times> string) list" where
  "swap_table = [(''bgt'', ''blt''), (''ble'', ''bge''), (''bgtu'', ''bltu''), (''bleu'', ''bgeu'')]"

definition lower_num :: citem where "lower_num = CRange (CHR ''0'') (CHR ''9'')"

definition BASE_RE :: regex where
  "BASE_RE = rseq
     [RGroup 1 (rplus False (RCls False [CRange (CHR ''a'') (CHR ''z''), lower_num])), rlit (CHR '',''),
      RGroup 2 (RStar False (RCls False [CLit (CHR ''-''), lower_num])), rlit (CHR ''(''),
      RGroup 3 (rplus False (RCls False [CRange (CHR ''a'') (CHR ''z''), lower_num])), rlit (CHR '')'')]"

definition convert_jalr :: "string \<Rightarrow> string" where
  "convert_jalr operands =
     (let ops = (case re_search BASE_RE operands of
                   Some m \<Rightarrow> grp m 1 @ '','' @ grp m 3 @ '','' @ grp m 2
                 | None \<Rightarrow> operands) in
      if rfind_char (CHR '','') ops = None then ''ra,'' @ ops @ '',0'' else ops)"

definition convert_pseudo_instr :: "string \<Rightarrow> string \<Rightarrow> string \<Rightarrow> (string \<times> string) py_res" where
  "convert_pseudo_instr instr_name operands binary =
     (let os = split_char (CHR '','') operands in
      if instr_name = ''nop'' then Inr (''addi'', ''zero,zero,0'')
      else if dict_has append_table instr_name
      then (case the (dict_get append_table instr_name) of (n, extra) \<Rightarrow> Inr (n, operands @ extra))
      else if dict_has zero_table instr_name
      then bind_res (nth_res os 0) (\<lambda>a. bind_res (nth_res os 1) (\<lambda>b.
             Inr (the (dict_get zero_table instr_name), a @ '',zero,'' @ b)))
      else if dict_has front_table instr_name
      then Inr (the (dict_get front_table instr_name), ''zero,'' @ operands)
      else if dict_has swap_table instr_name
      then bind_res (nth_res os 1) (\<lambda>b. bind_res (nth_res os 0) (\<lambda>a. bind_res (nth_res os 2) (\<lambda>c.
             Inr (the (dict_get swap_table instr_name), b @ '','' @ a @ '','' @ c))))
      else if instr_name = ''jr'' then Inr (''jalr'', ''zero,'' @ operands @ '',0'')
      else if instr_name = ''jal''
      then Inr (''jal'', if CHR '','' \<in> set operands then operands else ''ra,'' @ operands)
      else if instr_name = ''jalr'' then Inr (''jalr'', convert_jalr operands)
      else if instr_name = ''ret''
      then (if binary = [] then Inl IndexError
            else if last binary = CHR ''2'' then Inr (''c.jr'', ''ra'')
            else Inr (''jalr'', ''zero,ra,0''))
      else Inr (instr_name, operands))"

section \<open>Properties\<close>

text \<open>The names that the conversion yields are no pseudo instructions.\<close>

definition is_pseudo :: "string \<Rightarrow> bool" where
  "is_pseudo n \<longleftrightarrow> n \<in> {''nop'', ''jr'', ''jal'', ''jalr'', ''ret''} \<or> dict_has append_table n \<or> dict_has zero_table n \<or>
     dict_has front_table n \<or> dict_has swap_table n"

lemma tables_real:
  "list_all (\<lambda>(k, n, e). \<not> is_pseudo n) append_table"
  "list_all (\<lambda>(k, n). \<not> is_pseudo n) zero_table"
  "list_all (\<lambda>(k, n). \<not> is_pseudo n \<or> n = ''jal'') front_table"
  "list_all (\<lambda>(k, n). \<not> is_pseudo n) swap_table"
  "\<not> is_pseudo ''addi''" "\<not> is_pseudo ''c.jr''"
  by code_simp+

lemma table_get:
  "list_all (\<lambda>(k, v). P v) t \<Longrightarrow> dict_has t k \<Longrightarrow> \<exists>v. dict_get t k = Some v \<and> P v"
  using dict_has_get [of t k] by (auto simp: list_all_iff dest: dict_get_SomeD)

lemma not_pseudo: "\<not> is_pseudo n \<Longrightarrow> convert_pseudo_instr n ops b = Inr (n, ops)"
  by (auto simp: is_pseudo_def convert_pseudo_instr_def)

lemma jal_stable: "CHR '','' \<in> set ops \<Longrightarrow> convert_pseudo_instr ''jal'' ops b = Inr (''jal'', ops)"
  by (simp add: convert_pseudo_instr_def append_table_def zero_table_def front_table_def swap_table_def)

lemma jalr_conv: "convert_pseudo_instr ''jalr'' ops b = Inr (''jalr'', convert_jalr ops)"
  by (simp add: convert_pseudo_instr_def append_table_def zero_table_def front_table_def swap_table_def)

lemma search_group:
  assumes "re_search r s = Some m" "i \<in> set (always r)" "map_of (groups r) i = Some r'"
    "distinct (map fst (groups r))"
  shows "grp m i \<in> lang r'"
proof -
  from assms(1) obtain b where "search_from r [] s = Some (b, m)" by (auto simp: re_search_def)
  from search_from_Some [OF this] obtain t where t: "rmatch r (start_at b t) Some = Some m" by blast
  then obtain u where u: "group m i = Some u" using match_group(2) assms(2) by fastforce
  from match_group(1) [OF t u] obtain r'' where "(i, r'') \<in> set (groups r)" "u \<in> lang r''" by blast
  then show ?thesis using assms(3,4) u by (metis grp_def map_of_eq_Some_iff option.case(2) option.inject)
qed

lemma base_re_groups:
  assumes "re_search BASE_RE s = Some m" "i \<in> {1, 2, 3}"
  shows "CHR ''('' \<notin> set (grp m i)"
proof -
  let ?w = "[CRange (CHR ''a'') (CHR ''z''), lower_num]"
  have g: "groups (rplus False (RCls False ?w)) = []" "always (rplus False (RCls False ?w)) = []"
    by (simp_all add: rplus_def)
  have l: "groups (rlit c) = []" "always (rlit c) = []" for c by (simp_all add: rlit_def)
  have "grp m 1 \<in> lang (rplus False (RCls False ?w))" "grp m 3 \<in> lang (rplus False (RCls False ?w))"
    "grp m 2 \<in> lang (RStar False (RCls False [CLit (CHR ''-''), lower_num]))"
    by (rule search_group [OF assms(1)]; simp add: BASE_RE_def g l del: lang.simps rseq.simps)+
  then have "\<forall>c \<in> set (grp m 1) \<union> set (grp m 3). in_class False ?w c"
    "\<forall>c \<in> set (grp m 2). in_class False [CLit (CHR ''-''), lower_num] c"
    by (auto simp: lang_plus_class star_of_class)
  moreover have "\<not> in_class False ?w (CHR ''('')" "\<not> in_class False [CLit (CHR ''-''), lower_num] (CHR ''('')"
    by code_simp+
  ultimately show ?thesis using assms(2) by auto
qed

lemma base_re_absent: "CHR ''('' \<notin> set s \<Longrightarrow> re_search BASE_RE s = None"
proof -
  assume a: "CHR ''('' \<notin> set s"
  then have "\<not> contains ''('' s" by (auto simp: contains_sublist sublist_def)
  then have "re_findall BASE_RE s = []"
    unfolding BASE_RE_def by (rule findall_absent) (simp add: rstr_def)
  then show ?thesis by (simp add: findall_Nil)
qed

lemma convert_jalr_stable:
  assumes "CHR '','' \<in> set ops \<or> CHR ''('' \<notin> set ops"
  shows "convert_jalr (convert_jalr ops) = convert_jalr ops"
proof (cases "re_search BASE_RE ops")
  case (Some m)
  let ?r = "grp m 1 @ '','' @ grp m 3 @ '','' @ grp m 2"
  have "CHR ''('' \<notin> set ?r" using base_re_groups [OF Some] by auto
  then have "re_search BASE_RE ?r = None" by (rule base_re_absent)
  moreover have "convert_jalr ops = ?r" using Some by (simp add: convert_jalr_def rfind_char_None)
  ultimately show ?thesis by (simp add: convert_jalr_def rfind_char_None)
next
  case None
  show ?thesis
  proof (cases "CHR '','' \<in> set ops")
    case True
    with None show ?thesis by (simp add: convert_jalr_def rfind_char_None)
  next
    case False
    then have c: "convert_jalr ops = ''ra,'' @ ops @ '',0''"
      using None by (simp add: convert_jalr_def rfind_char_None)
    moreover have "re_search BASE_RE (''ra,'' @ ops @ '',0'') = None"
      using assms False by (intro base_re_absent) auto
    ultimately show ?thesis by (simp add: convert_jalr_def rfind_char_None)
  qed
qed

lemma convert_result:
  assumes "convert_pseudo_instr n ops b = Inr (n', ops')" "is_pseudo n" "n \<notin> {''jr'', ''jalr''}"
  shows "\<not> is_pseudo n' \<or> n' = ''jal'' \<and> CHR '','' \<in> set ops' \<or> n' = ''jalr'' \<and> CHR ''('' \<notin> set ops' \<and> CHR '','' \<in> set ops'"
proof -
  note c = assms(1) [unfolded convert_pseudo_instr_def Let_def]
  consider "n = ''nop''" | "n \<noteq> ''nop''" "dict_has append_table n"
    | "n \<noteq> ''nop''" "\<not> dict_has append_table n" "dict_has zero_table n"
    | "n \<noteq> ''nop''" "\<not> dict_has append_table n" "\<not> dict_has zero_table n" "dict_has front_table n"
    | "n \<noteq> ''nop''" "\<not> dict_has append_table n" "\<not> dict_has zero_table n" "\<not> dict_has front_table n"
      "dict_has swap_table n"
    | "n \<noteq> ''nop''" "\<not> dict_has append_table n" "\<not> dict_has zero_table n" "\<not> dict_has front_table n"
      "\<not> dict_has swap_table n" "n = ''jal'' \<or> n = ''ret''"
    using assms(2,3) by (auto simp: is_pseudo_def)
  then show ?thesis
  proof cases
    case 1
    with c tables_real(5) show ?thesis by simp
  next
    case 2
    then obtain v where "dict_get append_table n = Some v" "\<not> is_pseudo (fst v)"
      using table_get [of "\<lambda>v. \<not> is_pseudo (fst v)" append_table n] tables_real(1)
      by (auto simp: case_prod_unfold)
    with 2 c show ?thesis by (auto split: prod.splits)
  next
    case 3
    with c table_get [OF tables_real(2), of n] show ?thesis by (auto simp: bind_res_Inr_iff)
  next
    case 4
    with c table_get [OF tables_real(3), of n] show ?thesis by auto
  next
    case 5
    with c table_get [OF tables_real(4), of n] show ?thesis by (auto simp: bind_res_Inr_iff)
  next
    case 6
    with c tables_real(6) show ?thesis by (auto split: if_splits)
  qed
qed

lemma jalr_plain: "CHR ''('' \<notin> set ops \<Longrightarrow> CHR '','' \<in> set ops \<Longrightarrow> convert_jalr ops = ops"
  by (simp add: convert_jalr_def base_re_absent rfind_char_None)



text \<open>The hexadecimal form of a signed integer names the same 32-bit value.\<close>

lemma py_hex_int: "0 \<le> i \<Longrightarrow> py_int 16 (py_hex i) = Some i"
proof -
  assume i: "0 \<le> i"
  have "strip (''0x'' @ nat_str 16 (nat i)) = ''0x'' @ nat_str 16 (nat i)"
  proof (rule strip_of_none, intro ballI)
    fix c assume "c \<in> set (''0x'' @ nat_str 16 (nat i))"
    moreover have "\<not> is_space (CHR ''0'')" "\<not> is_space (CHR ''x'')" by code_simp+
    ultimately show "\<not> is_space c" using nat_str_not_space [of 16 c "nat i"] by auto
  qed
  moreover obtain d ds where d: "nat_str 16 (nat i) = d # ds" by (cases "nat_str 16 (nat i)") auto
  moreover have "d \<noteq> CHR ''_''"
    using parse_digits_nat_str [of 16 "nat i"] d by auto
  ultimately show ?thesis using i parse_digits_nat_str [of 16 "nat i"]
    by (simp add: py_int_def py_hex_def parse_numeral_def has_prefix_def skip_underscore_def)
qed

lemma sint_to_hex_value: "py_int 16 (sint_to_hex v) = Some (v mod 2 ^ 32)"
  unfolding sint_to_hex_def by (subst py_hex_int) simp_all

text \<open>What a selected entry is: one of the wanted tests, with a positive number of iterations.\<close>

definition selected :: "string \<Rightarrow> yval \<Rightarrow> bool" where
  "selected test entry \<longleftrightarrow>
     (\<exists>name n. entry_get entry ''test'' = Inr name \<and> bind_res (entry_get entry ''iterations'') as_int = Inr n \<and>
        n > 0 \<and> (name \<in> YStr ` set (split_char (CHR '','') test) \<or> test = ''all''))"

lemma match_entry_selected:
  assumes "match_entry test iterations entry matched = Inr m"
  shows "m = matched \<or> (\<exists>e. m = matched @ [e] \<and> selected test e)"
proof (cases "m = matched")
  case False
  with assms obtain name n where n: "entry_get entry ''test'' = Inr name"
    "name \<in> YStr ` set (split_char (CHR '','') test) \<or> test = ''all''"
    "bind_res (entry_get entry ''iterations'') as_int = Inr n" "n > 0"
    and m: "m = matched @ [if iterations > 0 then set_iterations iterations entry else entry]"
    by (auto simp: match_entry_def bind_res_Inr_iff Let_def split: if_splits)
  from n(1) obtain d where d: "entry = YMap d" by (cases entry) (auto simp: entry_get_def)
  have "selected test (set_iterations iterations entry)" if "iterations > 0"
    using that n(1,2) by (auto simp: d selected_def set_iterations_def entry_get_def as_int_def)
  moreover have "selected test entry" using n by (auto simp: selected_def)
  ultimately show ?thesis using m by auto
qed simp

lemma process_selected:
  "process_regression_list k yaml testlist test iterations root matched = Some (Inr m) \<Longrightarrow>
     \<exists>new. m = matched @ new \<and> list_all (selected test) new"
  "process_entries k yaml entries test iterations root matched = Some (Inr m) \<Longrightarrow>
     \<exists>new. m = matched @ new \<and> list_all (selected test) new"
proof (induction k yaml testlist test iterations root matched and k yaml entries test iterations root matched
    arbitrary: m and m rule: process_regression_list_process_entries.induct)
  case (2 n yaml testlist test iterations root matched)
  then show ?case by (auto split: sum.splits)
next
  case (4 n yaml entry rest test iterations root matched)
  obtain h where h: "entry_has entry ''import'' = Inr h"
    using "4.prems" by (auto split: sum.splits)
  show ?case
  proof (cases h)
    case True
    with h "4.prems" obtain path m1 where p: "bind_res (entry_get entry ''import'') as_str = Inr path"
      "process_regression_list n yaml (py_replace ''<riscv_dv_root>'' root path) test iterations root matched
         = Some (Inr m1)"
      "process_entries n yaml rest test iterations root m1 = Some (Inr m)"
      by (auto split: sum.splits option.splits)
    from "4.IH"(1) [OF _ _ p(1) p(2)] "4.IH"(2) [OF _ _ p(1,2) _ p(3)] h True show ?thesis by fastforce
  next
    case False
    with h "4.prems" obtain m1 where p: "match_entry test iterations entry matched = Inr m1"
      "process_entries n yaml rest test iterations root m1 = Some (Inr m)"
      by (auto split: sum.splits)
    from "4.IH"(3) [OF _ _ p] h False obtain new where "m = m1 @ new" "list_all (selected test) new" by auto
    then show ?thesis using match_entry_selected [OF p(1)] by auto
  qed
qed auto


text \<open>An entry for a test, without an import.\<close>

definition test_entry :: "string \<Rightarrow> int \<Rightarrow> yval" where
  "test_entry name n = YMap [(YStr ''test'', YStr name), (YStr ''iterations'', YInt n)]"


lemma entry_has_test: "entry_has (YMap d) k = Inr (dict_has d (YStr k))"
  by (simp add: entry_has_def)

text \<open>An entry that describes a test: a dictionary with a name and a number of iterations.\<close>

definition plain_entry :: "yval \<Rightarrow> bool" where
  "plain_entry e =
     (case e of
        YMap d \<Rightarrow> \<not> dict_has d (YStr ''import'') \<and> dict_has d (YStr ''test'') \<and>
          (case dict_get d (YStr ''iterations'') of Some (YInt _) \<Rightarrow> True | _ \<Rightarrow> False)
      | _ \<Rightarrow> False)"

definition wanted_entry :: "string \<Rightarrow> yval \<Rightarrow> bool" where
  "wanted_entry test e =
     (case (entry_get e ''test'', entry_get e ''iterations'') of
        (Inr name, Inr (YInt n)) \<Rightarrow>
          n > 0 \<and> (name \<in> YStr ` set (split_char (CHR '','') test) \<or> test = ''all'')
      | _ \<Rightarrow> False)"

lemma plain_match:
  assumes "plain_entry e"
  shows "match_entry test it e matched =
     Inr (matched @ (if wanted_entry test e then [if it > 0 then set_iterations it e else e] else []))"
proof -
  obtain d where e: "e = YMap d" using assms by (cases e) (auto simp: plain_entry_def)
  then obtain v name where v: "dict_get d (YStr ''iterations'') = Some v" "dict_get d (YStr ''test'') = Some name"
    using assms by (auto simp: plain_entry_def dict_has_get split: option.splits)
  then obtain n where "v = YInt n" using assms e by (cases v) (auto simp: plain_entry_def)
  with e v have d: "e = YMap d" "dict_get d (YStr ''test'') = Some name"
    "dict_get d (YStr ''iterations'') = Some (YInt n)" by simp_all
  then have "entry_get e ''test'' = Inr name" "entry_get e ''iterations'' = Inr (YInt n)"
    by (simp_all add: entry_get_def)
  then show ?thesis by (auto simp: match_entry_def wanted_entry_def as_int_def Let_def)
qed

lemma process_plain:
  "list_all plain_entry es \<Longrightarrow>
   process_entries k yaml es test it root matched =
     Some (Inr (matched @ map (\<lambda>e. if it > 0 then set_iterations it e else e) (filter (wanted_entry test) es)))"
proof (induction es arbitrary: matched)
  case (Cons e es)
  then have "entry_has e ''import'' = Inr False"
    by (auto simp: plain_entry_def entry_has_def split: yval.splits)
  with Cons plain_match [of e test it matched] show ?case by simp
qed simp

text \<open>
  A regression list without imports is processed completely, whatever the recursion limit: the
  result is the list of the wanted tests in the order of the file, with the number of iterations
  replaced when one was given.
\<close>

lemma regression_list_flat:
  assumes "yaml testlist = Inr (YSeq es)" "list_all plain_entry es"
  shows "process_regression_list (Suc k) yaml testlist test it root matched =
     Some (Inr (matched @ map (\<lambda>e. if it > 0 then set_iterations it e else e) (filter (wanted_entry test) es)))"
  using assms by (simp add: as_seq_def process_plain)

text \<open>
  A time-out of the first command of a parallel run is not survived: the variable that holds the
  output is read although no command has set it yet, and the exception leaves the function before
  any other command is waited for.
\<close>

lemma parallel_timeout:
  assumes "sh (''exec '' @ cmd) = TimedOut"
  shows "\<exists>l. run_parallel_cmd sh (cmd # cmds) timeout_s ex chk None = (l, None, Inl UnboundLocalError)"
  using assms by (simp add: run_parallel_cmd_def Let_def split: prod.splits)

text \<open>Without a time-out and an interrupt, a parallel run that tolerates errors waits for every command.\<close>

lemma wait_all_exited:
  "list_all (\<lambda>(c, out). \<exists>t rc. out = Exited t rc) cs \<Longrightarrow>
     \<exists>l'. wait_all ts False chk lc n i outp cs l = (l', Inr ())"
proof (induction cs arbitrary: i outp l)
  case (Cons co cs)
  then obtain c t rc where "co = (c, Exited t rc)" by (auto split: prod.splits)
  with Cons show ?case by (cases chk) (simp_all add: Let_def)
qed simp

end
