(* ===== verification/Trace_Csv.thy ===== *)
theory Trace_Csv
  imports Riscv_Lib
begin

text \<open>
  The common form of instruction traces: \<^verbatim>\<open>vendor/google_riscv-dv/scripts/riscv_trace_csv.py\<close>, with the
  part of the standard library's \<^verbatim>\<open>csv\<close> module that it uses (the default dialect).

  The lemmas show that a trace that is written is read back, whatever quotes, commas and line
  breaks its texts hold, and what becomes of an entry that names no register.
\<close>

section \<open>Comma-separated values\<close>

abbreviation newline :: char where "newline \<equiv> CHR 0x0A"
abbreviation cr :: char where "cr \<equiv> CHR 0x0D"
abbreviation comma :: char where "comma \<equiv> CHR 0x2C"

text \<open>
  Writing with the default dialect: a field is quoted when it holds a separator, a quote or part of
  the line end; a quote inside is doubled; lines end in carriage return and line feed.
\<close>

definition csv_special :: "char \<Rightarrow> bool" where
  "csv_special c \<longleftrightarrow> c = comma \<or> c = dquote \<or> c = cr \<or> c = newline"

definition csv_field :: "string \<Rightarrow> string" where
  "csv_field s =
     (if list_ex csv_special s
      then dquote # concat (map (\<lambda>c. if c = dquote then [dquote, dquote] else [c]) s) @ [dquote]
      else s)"

definition csv_row :: "string list \<Rightarrow> string" where
  "csv_row fs = py_join [comma] (map csv_field fs) @ [cr, newline]"

text \<open>Text files are read with universal newlines.\<close>

fun universal_newlines :: "string \<Rightarrow> string" where
  "universal_newlines [] = []"
| "universal_newlines (c # cs) =
     (if c = cr
      then newline # (case cs of [] \<Rightarrow> [] | d # ds \<Rightarrow> if d = newline then universal_newlines ds else universal_newlines cs)
      else c # universal_newlines cs)"

text \<open>
  The reader is a state machine over the characters. \<open>cur\<close> is the field that is being read, reversed,
  and \<open>row\<close> the fields before it. A text that ends inside a row ends that row. An empty line is a row
  without fields. The limit on the length of a field is left out.
\<close>

datatype csv_state = StartRecord | StartField | InField | InQuoted | QuoteInQuoted

fun csv_step :: "csv_state \<Rightarrow> char \<Rightarrow> string \<Rightarrow> csv_state \<times> string" where
  "csv_step InQuoted c cur = (if c = dquote then (QuoteInQuoted, cur) else (InQuoted, c # cur))"
| "csv_step QuoteInQuoted c cur = (if c = dquote then (InQuoted, c # cur) else (InField, c # cur))"
| "csv_step InField c cur = (InField, c # cur)"
| "csv_step s c cur = (if c = dquote then (InQuoted, cur) else (InField, c # cur))"

fun csv_read :: "csv_state \<Rightarrow> string \<Rightarrow> string list \<Rightarrow> string \<Rightarrow> string list list" where
  "csv_read s cur row [] = (if s = StartRecord then [] else [row @ [rev cur]])"
| "csv_read s cur row (c # cs) =
     (if s = StartRecord \<and> c = newline then [] # csv_read StartRecord [] [] cs
      else if s \<noteq> InQuoted \<and> c = newline then (row @ [rev cur]) # csv_read StartRecord [] [] cs
      else if s \<noteq> InQuoted \<and> c = comma then csv_read StartField [] (row @ [rev cur]) cs
      else (case csv_step s c cur of (s', cur') \<Rightarrow> csv_read s' cur' row cs))"

definition csv_rows :: "string \<Rightarrow> string list list" where
  "csv_rows text = csv_read StartRecord [] [] (universal_newlines text)"

text \<open>
  \<^verbatim>\<open>csv.DictReader\<close>: the first row names the fields, rows without fields are skipped. A field that a
  row lacks is \<^verbatim>\<open>None\<close>; further fields of a row are kept under a key of their own, which nothing reads.
\<close>

definition dict_row :: "string list \<Rightarrow> string list \<Rightarrow> (string, string option) dict" where
  "dict_row names row =
     fold (\<lambda>(n, v). dict_set n v) (zip names (map Some row @ replicate (length names - length row) None)) []"

definition dict_rows :: "string \<Rightarrow> (string, string option) dict list" where
  "dict_rows text =
     (case csv_rows text of
        [] \<Rightarrow> []
      | names # rows \<Rightarrow> map (dict_row names) (filter (\<lambda>r. r \<noteq> []) rows))"

section \<open>Trace entries\<close>

record RiscvInstructionTraceEntry =
  e_gpr :: "string list"
  e_csr :: "string list"
  e_instr :: string
  e_operand :: string
  e_pc :: string
  e_binary :: string
  e_instr_str :: string
  e_mode :: string
  e_imm :: "string option"

text \<open>A new entry. The attribute \<^verbatim>\<open>imm\<close> is only there once something sets it.\<close>

definition new_entry :: RiscvInstructionTraceEntry where
  "new_entry = \<lparr>e_gpr = [], e_csr = [], e_instr = [], e_operand = [], e_pc = [], e_binary = [],
                e_instr_str = [], e_mode = [], e_imm = None\<rparr>"

definition get_trace_string :: "RiscvInstructionTraceEntry \<Rightarrow> string" where
  "get_trace_string e =
     ''pc['' @ e_pc e @ ''] '' @ e_instr_str e @ '': '' @ py_join '' '' (e_gpr e) @ '' '' @ py_join '' '' (e_csr e)"

section \<open>Reading and writing\<close>

definition trace_fields :: "string list" where
  "trace_fields =
     [''pc'', ''instr'', ''gpr'', ''csr'', ''binary'', ''mode'', ''instr_str'', ''operand'', ''pad'']"

definition start_new_trace :: string where
  "start_new_trace = csv_row trace_fields"

definition entry_dict :: "RiscvInstructionTraceEntry \<Rightarrow> (string, string) dict" where
  "entry_dict e =
     [(''instr_str'', e_instr_str e),
      (''gpr'', py_join '';'' (e_gpr e)),
      (''csr'', py_join '';'' (e_csr e)),
      (''operand'', e_operand e),
      (''pc'', e_pc e),
      (''binary'', e_binary e),
      (''instr'', e_instr e),
      (''mode'', e_mode e)]"

text \<open>\<^verbatim>\<open>csv.DictWriter.writerow\<close>: the fields in the order of the header, missing ones empty.\<close>

definition write_trace_entry :: "RiscvInstructionTraceEntry \<Rightarrow> string" where
  "write_trace_entry e =
     csv_row (map (\<lambda>f. case dict_get (entry_dict e) f of Some v \<Rightarrow> v | None \<Rightarrow> []) trace_fields)"

text \<open>\<^verbatim>\<open>row[k]\<close>, and a method call on it.\<close>

definition row_get :: "(string, string option) dict \<Rightarrow> string \<Rightarrow> string option py_res" where
  "row_get row k = (case dict_get row k of None \<Rightarrow> Inl (KeyError k) | Some v \<Rightarrow> Inr v)"

definition row_split :: "(string, string option) dict \<Rightarrow> string \<Rightarrow> string list py_res" where
  "row_split row k =
     bind_res (row_get row k) (\<lambda>v. case v of None \<Rightarrow> Inl AttributeError | Some s \<Rightarrow> Inr (split_char (CHR '';'') s))"

text \<open>
  A text attribute of an entry that was read is the text of the row. A row that lacks the field
  gives \<^verbatim>\<open>None\<close>. The attributes are only put into messages, where \<^verbatim>\<open>None\<close> shows as its name, and
  that name stands for it here.
\<close>

definition row_text :: "(string, string option) dict \<Rightarrow> string \<Rightarrow> string py_res" where
  "row_text row k =
     bind_res (row_get row k) (\<lambda>v. case v of None \<Rightarrow> Inr ''None'' | Some s \<Rightarrow> Inr s)"

definition read_row :: "(string, string option) dict \<Rightarrow> RiscvInstructionTraceEntry py_res" where
  "read_row row =
     bind_res (row_split row ''gpr'') (\<lambda>g.
     bind_res (row_split row ''csr'') (\<lambda>c.
     bind_res (row_text row ''pc'') (\<lambda>p.
     bind_res (row_text row ''operand'') (\<lambda>oper.
     bind_res (row_text row ''binary'') (\<lambda>b.
     bind_res (row_text row ''instr_str'') (\<lambda>s.
     bind_res (row_text row ''instr'') (\<lambda>i.
     bind_res (row_text row ''mode'') (\<lambda>m.
       Inr (new_entry\<lparr>e_gpr := g, e_csr := c, e_pc := p, e_operand := oper, e_binary := b,
                      e_instr_str := s, e_instr := i, e_mode := m\<rparr>)))))))))"

definition read_trace :: "string \<Rightarrow> RiscvInstructionTraceEntry list py_res" where
  "read_trace text = map_res read_row (dict_rows text)"

text \<open>\<^verbatim>\<open>int(s, base)\<close> with its exception.\<close>

definition int_res :: "nat \<Rightarrow> string \<Rightarrow> int py_res" where
  "int_res base s =
     (case py_int base s of
        None \<Rightarrow> Inl (ValueError (''invalid literal for int() with base '' @ nat_str 10 base @ '': '' @ py_repr s))
      | Some v \<Rightarrow> Inr v)"

definition get_imm_hex_val :: "string \<Rightarrow> string py_res" where
  "get_imm_hex_val imm =
     (case imm of
        [] \<Rightarrow> Inl IndexError
      | c # cs \<Rightarrow>
          bind_res (int_res 0 (if c = CHR ''-'' then cs else imm)) (\<lambda>v.
            Inr (drop 2 (sint_to_hex (if c = CHR ''-'' then - v else v)))))"

text \<open>The lines that iterating over a text file yields.\<close>

definition text_lines :: "string \<Rightarrow> string list" where
  "text_lines text = file_lines (universal_newlines text)"

section \<open>Reading back what was written\<close>

lemma csv_read_plain:
  assumes "\<not> list_ex csv_special s" "st \<in> {StartRecord, StartField, InField}"
  shows "csv_read st cur row (s @ t) =
     csv_read (if s = [] then st else InField) (rev s @ cur) row t"
  using assms
proof (induction s arbitrary: st cur)
  case (Cons c s)
  then have c: "c \<noteq> comma" "c \<noteq> dquote" "c \<noteq> newline" by (auto simp: csv_special_def)
  have "csv_read st cur row ((c # s) @ t) = csv_read InField (c # cur) row (s @ t)"
    using Cons.prems c by auto
  with Cons show ?case by simp
qed simp

lemma csv_read_quoted:
  "csv_read InQuoted cur row (concat (map (\<lambda>c. if c = dquote then [dquote, dquote] else [c]) s) @ dquote # t) =
     csv_read QuoteInQuoted (rev s @ cur) row t"
  by (induction s arbitrary: cur) auto

text \<open>A field after the first of a row, and the first, which is not the only one.\<close>

lemma csv_read_field:
  assumes "st = StartField \<or> st = StartRecord \<and> csv_field f \<noteq> []"
  shows "\<exists>st'. st' \<noteq> InQuoted \<and> st' \<noteq> StartRecord \<and> csv_read st [] row (csv_field f @ t) = csv_read st' (rev f) row t"
proof (cases "list_ex csv_special f")
  case True
  have "csv_read st [] row (csv_field f @ t) =
      csv_read InQuoted [] row (concat (map (\<lambda>c. if c = dquote then [dquote, dquote] else [c]) f) @ dquote # t)"
    using assms True by (auto simp: csv_field_def)
  then show ?thesis using csv_read_quoted [of "[]" row f t] by auto
next
  case False
  then have "csv_read st [] row (csv_field f @ t) = csv_read (if f = [] then st else InField) (rev f) row t"
    using csv_read_plain [of f st "[]" row t] assms by (auto simp: csv_field_def)
  then show ?thesis using assms False by (cases "f = []") (auto simp: csv_field_def)
qed

lemma csv_read_fields:
  "fs \<noteq> [] \<Longrightarrow> csv_read StartField [] row (py_join [comma] (map csv_field fs) @ newline # t) =
     (row @ fs) # csv_read StartRecord [] [] t"
proof (induction fs arbitrary: row)
  case (Cons f fs)
  show ?case
  proof (cases "fs = []")
    case True
    obtain st' where "st' \<noteq> InQuoted" "st' \<noteq> StartRecord"
      "csv_read StartField [] row (csv_field f @ newline # t) = csv_read st' (rev f) row (newline # t)"
      using csv_read_field [of StartField f row "newline # t"] by blast
    with True show ?thesis by simp
  next
    case False
    let ?rest = "py_join [comma] (map csv_field fs) @ newline # t"
    obtain st' where "st' \<noteq> InQuoted" "st' \<noteq> StartRecord"
      "csv_read StartField [] row (csv_field f @ comma # ?rest) = csv_read st' (rev f) row (comma # ?rest)"
      using csv_read_field [of StartField f row "comma # ?rest"] by blast
    with False Cons.IH [of "row @ [f]"] show ?thesis by (simp add: py_join_Cons)
  qed
qed simp

lemma start_record_field:
  "c \<noteq> newline \<Longrightarrow> csv_read StartRecord [] [] (c # cs) = csv_read StartField [] [] (c # cs)"
  by simp

lemma csv_field_hd: "csv_field f \<noteq> [] \<Longrightarrow> hd (csv_field f) \<noteq> newline \<and> hd (csv_field f) \<noteq> cr"
  by (cases f) (auto simp: csv_field_def csv_special_def split: if_splits)

text \<open>A row of two fields or more does not look like an empty line.\<close>

lemma csv_read_row:
  assumes "2 \<le> length fs"
  shows "csv_read StartRecord [] [] (py_join [comma] (map csv_field fs) @ newline # t) =
     fs # csv_read StartRecord [] [] t"
proof -
  obtain f g gs where fs: "fs = f # g # gs" using assms by (cases fs; cases "tl fs") auto
  let ?text = "py_join [comma] (map csv_field fs) @ newline # t"
  have "hd ?text \<noteq> newline" "?text \<noteq> []"
    using csv_field_hd [of f] by (cases "csv_field f"; simp add: fs)+
  then have "csv_read StartRecord [] [] ?text = csv_read StartField [] [] ?text"
    by (cases ?text) simp_all
  moreover have "fs \<noteq> []" by (simp add: fs)
  ultimately show ?thesis using csv_read_fields [of fs "[]" t] by simp
qed

text \<open>Without carriage returns in the fields, universal newlines only shorten the line ends.\<close>

lemma universal_newlines_plain:
  "cr \<notin> set s \<Longrightarrow> universal_newlines (s @ cr # newline # t) = s @ newline # universal_newlines t"
  by (induction s) auto

lemma csv_field_no_cr: "cr \<notin> set f \<Longrightarrow> cr \<notin> set (csv_field f)"
  by (auto simp: csv_field_def)

lemma py_join_no_char: "c \<notin> set sep \<Longrightarrow> \<forall>x \<in> set xs. c \<notin> set x \<Longrightarrow> c \<notin> set (py_join sep xs)"
  by (induction sep xs rule: py_join.induct) auto

lemma csv_rows_written:
  assumes "\<forall>fs \<in> set rows. 2 \<le> length fs \<and> (\<forall>f \<in> set fs. cr \<notin> set f)"
  shows "csv_rows (concat (map csv_row rows)) = rows"
  using assms
proof (induction rows)
  case (Cons fs rows)
  then have "cr \<notin> set (py_join [comma] (map csv_field fs))"
    by (intro py_join_no_char) (auto simp: csv_field_no_cr)
  with Cons show ?case by (simp add: csv_rows_def csv_row_def universal_newlines_plain csv_read_row)
qed (simp add: csv_rows_def)

lemma map_res_map: "map_res f (map g xs) = map_res (\<lambda>x. f (g x)) xs"
  by (induction xs) auto

text \<open>What becomes of an entry: a list without items comes back as one empty item.\<close>

definition read_back :: "RiscvInstructionTraceEntry \<Rightarrow> RiscvInstructionTraceEntry" where
  "read_back e =
     e\<lparr>e_gpr := (if e_gpr e = [] then [[]] else e_gpr e), e_csr := (if e_csr e = [] then [[]] else e_csr e),
       e_imm := None\<rparr>"

definition writable :: "RiscvInstructionTraceEntry \<Rightarrow> bool" where
  "writable e \<longleftrightarrow>
     (\<forall>s \<in> set (e_gpr e @ e_csr e). cr \<notin> set s \<and> CHR '';'' \<notin> set s) \<and>
     (\<forall>s \<in> {e_instr e, e_operand e, e_pc e, e_binary e, e_instr_str e, e_mode e}. cr \<notin> set s)"

definition entry_row :: "RiscvInstructionTraceEntry \<Rightarrow> string list" where
  "entry_row e =
     [e_pc e, e_instr e, py_join '';'' (e_gpr e), py_join '';'' (e_csr e), e_binary e, e_mode e, e_instr_str e,
      e_operand e, []]"

lemma write_trace_entry_row: "write_trace_entry e = csv_row (entry_row e)"
  by (simp add: write_trace_entry_def entry_row_def trace_fields_def entry_dict_def)

lemma entry_row_no_cr: "writable e \<Longrightarrow> f \<in> set (entry_row e) \<Longrightarrow> cr \<notin> set f"
  using py_join_no_char [of cr "'';''" "e_gpr e"] py_join_no_char [of cr "'';''" "e_csr e"]
  by (auto simp: entry_row_def writable_def)

lemma split_join_items:
  "\<forall>s \<in> set xs. CHR '';'' \<notin> set s \<Longrightarrow>
     split_char (CHR '';'') (py_join '';'' xs) = (if xs = [] then [[]] else xs)"
  by (cases "xs = []") (auto simp: split_char_join)

lemma read_row_entry:
  "writable e \<Longrightarrow> read_row (dict_row trace_fields (entry_row e)) = Inr (read_back e)"
  by (simp add: read_row_def row_split_def row_text_def row_get_def dict_row_def trace_fields_def entry_row_def
      split_join_items writable_def read_back_def new_entry_def)

text \<open>
  C10. A trace that is written is read back entry by entry, with every text as it was, also when the
  text holds commas, quotes or line feeds. The exceptions are an entry without register updates,
  which comes back with one empty update, and likewise for its control registers; carriage returns
  in a text and semicolons inside an item are excluded.
\<close>

theorem trace_csv_roundtrip:
  assumes "\<forall>e \<in> set es. writable e"
  shows "read_trace (start_new_trace @ concat (map write_trace_entry es)) = Inr (map read_back es)"
proof -
  have "csv_rows (concat (map csv_row (trace_fields # map entry_row es))) = trace_fields # map entry_row es"
    using assms entry_row_no_cr
    by (intro csv_rows_written) (auto simp: trace_fields_def, auto simp: entry_row_def)
  moreover have "start_new_trace @ concat (map write_trace_entry es) =
      concat (map csv_row (trace_fields # map entry_row es))"
    by (simp add: start_new_trace_def write_trace_entry_row [abs_def] comp_def)
  moreover have "filter (\<lambda>r. r \<noteq> []) (map entry_row es) = map entry_row es"
    by (simp add: entry_row_def filter_map comp_def)
  ultimately have "dict_rows (start_new_trace @ concat (map write_trace_entry es)) =
      map (\<lambda>e. dict_row trace_fields (entry_row e)) es"
    by (simp add: dict_rows_def)
  then show ?thesis
    using assms by (simp add: read_trace_def map_res_map map_res_total read_row_entry)
qed

definition trace_demo :: RiscvInstructionTraceEntry where
  "trace_demo = new_entry\<lparr>e_gpr := [''t0:1''], e_pc := ''80'', e_instr := ''addi'', e_operand := ''t0,t0,1''\<rparr>"

theorem trace_csv_roundtrip_witness:
  "read_trace (start_new_trace @ concat (map write_trace_entry [trace_demo])) = Inr [trace_demo\<lparr>e_csr := [[]]\<rparr>]"
  using trace_csv_roundtrip [of "[trace_demo]"]
  by (simp add: writable_def trace_demo_def new_entry_def read_back_def)

end
