(* ===== verification/Ibex_Log.thy ===== *)
theory Ibex_Log
  imports Trace_Csv
begin

text \<open>
  Turning the trace of the ibex core into the common form, and judging the log of a simulation:
  \<^verbatim>\<open>dv/uvm/core_ibex/riscv_dv_extension/ibex_log_to_trace_csv.py\<close>.

  The lemmas show the verdict on a simulation log, that branch offsets lead to the target of the
  trace, and that each instruction line before the first \<^verbatim>\<open>ecall\<close> gives one entry.
\<close>

section \<open>Patterns\<close>

definition dgt :: regex where "dgt = RCls False [CDigit]"
definition hexd :: regex where "hexd = RCls False [CRange (CHR ''0'') (CHR ''9''), CRange (CHR ''a'') (CHR ''f'')]"
definition wsp :: regex where "wsp = RCls False [CSpace]"
definition nspc :: regex where "nspc = RCls False [CNotSpace]"
definition low_num :: regex where "low_num = RCls False [CRange (CHR ''a'') (CHR ''z''), CRange (CHR ''0'') (CHR ''9'')]"

text \<open>Groups: 1 time, 2 cycle, 3 pc, 4 bin, 5 instr.\<close>

definition INSTR_RE :: regex where
  "INSTR_RE = rseq
     [RBol, RStar True wsp, RGroup 1 (rplus True dgt), rplus True wsp, RGroup 2 (rplus True dgt), rplus True wsp,
      RGroup 3 (rplus True hexd), rplus True wsp, RGroup 4 (rplus True hexd), rplus True wsp,
      RGroup 5 (rseq [rplus True nspc, rplus True wsp, rplus True nspc]), RStar True wsp]"

text \<open>Groups: 1 the whole, 2 rd, 3 rd_val.\<close>

definition RD_RE :: regex where
  "RD_RE = RGroup 1 (rseq
     [rlit (CHR ''x''), RGroup 2 (RSeq (RCls False [CRange (CHR ''1'') (CHR ''9'')]) (RStar True dgt)),
      rstr ''=0x'', RGroup 3 (rplus True hexd)])"

text \<open>Groups: 1 rd, 2 imm, 3 rs1.\<close>

definition ADDR_RE :: regex where
  "ADDR_RE = rseq
     [RGroup 1 (rplus False low_num), rlit (CHR '',''),
      RGroup 2 (rplus False (RCls False [CLit (CHR ''-''), CRange (CHR ''0'') (CHR ''9'')])),
      rlit (CHR ''(''), RGroup 3 (rplus True low_num), rlit (CHR '')'')]"

section \<open>Operands\<close>

definition branch_names :: "string list" where
  "branch_names =
     [''beq'', ''bne'', ''blt'', ''bge'', ''bltu'', ''bgeu'', ''c.beqz'', ''c.bnez'', ''beqz'', ''bnez'', ''bgez'',
      ''bltz'', ''blez'', ''bgtz'', ''c.j'', ''j'', ''c.jal'', ''jal'']"

definition relative_imm :: "string \<Rightarrow> string \<Rightarrow> string py_res" where
  "relative_imm pc imm =
     bind_res (int_res 16 imm) (\<lambda>i. bind_res (int_res 16 pc) (\<lambda>p. Inr (sint_to_hex (i - p))))"

definition process_imm :: "string \<Rightarrow> string \<Rightarrow> string \<Rightarrow> string py_res" where
  "process_imm instr_name pc operands =
     (if instr_name \<notin> set branch_names then Inr operands
      else (case rfind_char (CHR '','') operands of
              None \<Rightarrow> relative_imm pc operands
            | Some idx \<Rightarrow>
                bind_res (relative_imm pc (drop (idx + 1) operands)) (\<lambda>imm.
                  Inr (take (idx + 1) operands @ imm))))"

definition convert_operands_to_abi :: "string \<Rightarrow> string" where
  "convert_operands_to_abi operand_str =
     py_join '','' (map (\<lambda>x. if gpr_to_abi x \<noteq> ''na'' then gpr_to_abi x else x) (split_char (CHR '','') operand_str))"

definition expand_trace_entry ::
    "RiscvInstructionTraceEntry \<Rightarrow> string \<Rightarrow> RiscvInstructionTraceEntry py_res" where
  "expand_trace_entry trace operands =
     bind_res (process_imm (e_instr trace) (e_pc trace) operands) (\<lambda>ops1.
     bind_res (convert_pseudo_instr (e_instr trace) ops1 (e_binary trace)) (\<lambda>(instr, ops2).
       (case re_search ADDR_RE ops2 of
          None \<Rightarrow> Inr (trace\<lparr>e_instr := instr, e_operand := convert_operands_to_abi ops2\<rparr>)
        | Some n \<Rightarrow>
            bind_res (get_imm_hex_val (grp n 2)) (\<lambda>imm.
              Inr (trace\<lparr>e_instr := instr, e_imm := Some imm,
                         e_operand := convert_operands_to_abi (py_join '','' [grp n 1, grp n 3, grp n 2])\<rparr>)))))"

section \<open>The log\<close>

text \<open>The register update that a line reports.\<close>

definition gpr_updates :: "string \<Rightarrow> string list" where
  "gpr_updates line =
     (case re_search RD_RE line of
        None \<Rightarrow> []
      | Some c \<Rightarrow> [gpr_to_abi (''x'' @ grp c 2) @ '':'' @ grp c 3])"

definition ibex_entry :: "bool \<Rightarrow> string \<Rightarrow> mstate \<Rightarrow> RiscvInstructionTraceEntry py_res" where
  "ibex_entry full_trace line m =
     bind_res (nth_res (py_words (grp m 5)) 0) (\<lambda>name.
     (let e = new_entry\<lparr>e_instr_str := grp m 5, e_instr := name, e_pc := grp m 3, e_binary := grp m 4\<rparr> in
      bind_res (if full_trace
                then bind_res (nth_res (py_words (grp m 5)) 1) (expand_trace_entry e)
                else Inr e) (\<lambda>e1.
        Inr (e1\<lparr>e_gpr := e_gpr e1 @ gpr_updates line\<rparr>))))"

text \<open>The entries and, at the end, the count or the exception; what is in \<open>out\<close> has been written.\<close>

fun ibex_log_loop ::
    "bool \<Rightarrow> string list \<Rightarrow> nat \<Rightarrow> string \<Rightarrow> string \<times> nat py_res" where
  "ibex_log_loop full_trace [] instr_cnt out = (out, Inr instr_cnt)"
| "ibex_log_loop full_trace (line # ls) instr_cnt out =
     (if re_search (rstr ''ecall'') line \<noteq> None then (out, Inr instr_cnt)
      else (case re_search INSTR_RE line of
              None \<Rightarrow> ibex_log_loop full_trace ls instr_cnt out
            | Some m \<Rightarrow>
                (case ibex_entry full_trace line m of
                   Inl e \<Rightarrow> (out, Inl e)
                 | Inr entry \<Rightarrow>
                     ibex_log_loop full_trace ls (instr_cnt + 1) (out @ write_trace_entry entry))))"

definition process_ibex_sim_log_fd :: "string \<Rightarrow> bool \<Rightarrow> string \<times> nat py_res" where
  "process_ibex_sim_log_fd log_fd full_trace = ibex_log_loop full_trace (text_lines log_fd) 0 start_new_trace"

text \<open>
  The files are a map from names to texts, and \<open>creatable\<close> tells where a file can be created. Both
  files are opened before anything is read, so an output with the name of the log empties it, and
  an output that cannot be created is reported as a missing log. The result has the messages and
  the files afterwards.
\<close>

definition process_ibex_sim_log ::
    "(string \<Rightarrow> bool) \<Rightarrow> (string \<Rightarrow> string option) \<Rightarrow> string \<Rightarrow> string \<Rightarrow> bool \<Rightarrow>
     log \<times> (string \<Rightarrow> string option) \<times> unit py_res" where
  "process_ibex_sim_log creatable files ibex_log csv full_trace =
     (let l0 = [(LogInfo, ''Processing ibex log : '' @ ibex_log)] in
      if files ibex_log = None \<or> files csv = None \<and> \<not> creatable csv
      then (l0, files, Inl (RuntimeError (''Logfile '' @ ibex_log @ '' not found'')))
      else
        (case process_ibex_sim_log_fd (the ((files(csv \<mapsto> [])) ibex_log)) full_trace of
           (out, Inl e) \<Rightarrow> (l0, files(csv \<mapsto> out), Inl e)
         | (out, Inr count) \<Rightarrow>
             (let l1 = l0 @ [(LogInfo, ''Processed instruction count : '' @ nat_str 10 count)] in
              if count = 0
              then (l1, files(csv \<mapsto> out), Inl (RuntimeError (''No instructions in logfile: '' @ ibex_log)))
              else (l1 @ [(LogInfo, ''CSV saved to : '' @ csv)], files(csv \<mapsto> out), Inr ()))))"

section \<open>The simulation log\<close>

record uvm_state =
  u_passed :: bool
  u_failed :: bool
  u_seen :: bool
  u_out :: "string list"

definition error_line :: "string \<Rightarrow> bool" where
  "error_line line \<longleftrightarrow> contains ''UVM_ERROR'' line \<or> contains ''UVM_FATAL'' line \<or> contains ''Error'' line"

definition pass_line :: "string \<Rightarrow> bool" where
  "pass_line line \<longleftrightarrow> contains ''RISC-V UVM TEST PASSED'' line"

definition fail_line :: "string \<Rightarrow> bool" where
  "fail_line line \<longleftrightarrow> contains ''RISC-V UVM TEST FAILED'' line"

fun uvm_loop :: "string list \<Rightarrow> uvm_state \<Rightarrow> uvm_state" where
  "uvm_loop [] st = st"
| "uvm_loop (line # ls) st =
     (let st1 = (if error_line line \<and> \<not> u_seen st
                 then st\<lparr>u_out := u_out st @ [strip line], u_failed := True\<rparr> else st);
          st2 = (if pass_line line then st1\<lparr>u_seen := True, u_passed := True\<rparr> else st1) in
      if fail_line line then st2\<lparr>u_seen := True, u_failed := True\<rparr> else uvm_loop ls st2)"

definition check_ibex_uvm_log :: "string \<Rightarrow> bool \<times> string list" where
  "check_ibex_uvm_log uvm_log =
     (let st = uvm_loop (text_lines uvm_log) \<lparr>u_passed = False, u_failed = False, u_seen = False, u_out = []\<rparr> in
      (if u_failed st then False else u_passed st, u_out st))"

text \<open>
  The script's entry point over its parsed arguments: what is written to the output, what to
  standard error, and the exit status.
\<close>

definition ibex_log_main :: "string \<Rightarrow> int \<Rightarrow> string \<times> nat py_res" where
  "ibex_log_main log_fd full_trace = process_ibex_sim_log_fd log_fd (full_trace \<noteq> 0)"

definition ibex_log_exit :: "nat py_res \<Rightarrow> string \<times> unit py_res" where
  "ibex_log_exit r =
     (case r of
        Inl (RuntimeError err) \<Rightarrow> (''Error: '' @ err @ [newline], Inl (SystemExit RET_FATAL))
      | Inl e \<Rightarrow> ([], Inl e)
      | Inr _ \<Rightarrow> ([], Inr ()))"

section \<open>The verdict on a simulation\<close>

text \<open>No error up to the first line that reports a pass.\<close>

fun clean :: "string list \<Rightarrow> bool" where
  "clean [] = True"
| "clean (l # ls) = (\<not> error_line l \<and> (pass_line l \<or> clean ls))"

lemma uvm_loop_failed:
  "u_failed (uvm_loop ls st) \<longleftrightarrow>
     u_failed st \<or> (\<exists>x \<in> set ls. fail_line x) \<or> \<not> u_seen st \<and> \<not> clean ls"
  by (induction ls st rule: uvm_loop.induct) (auto simp: Let_def)

lemma uvm_loop_passed:
  "\<not> u_failed (uvm_loop ls st) \<Longrightarrow>
     u_passed (uvm_loop ls st) \<longleftrightarrow> u_passed st \<or> (\<exists>x \<in> set ls. pass_line x)"
  by (induction ls st rule: uvm_loop.induct) (auto simp: Let_def split: if_splits)

lemma uvm_loop_out:
  "(u_out st \<noteq> [] \<longrightarrow> u_failed st) \<Longrightarrow> u_out (uvm_loop ls st) \<noteq> [] \<longrightarrow> u_failed (uvm_loop ls st)"
  by (induction ls st rule: uvm_loop.induct) (auto simp: Let_def)

definition early_pass :: "string list \<Rightarrow> bool" where
  "early_pass ls \<longleftrightarrow>
     (\<exists>pre l post. ls = pre @ l # post \<and> pass_line l \<and> (\<forall>x \<in> set (pre @ [l]). \<not> error_line x))"

lemma early_pass_Cons: "early_pass (a # ls) \<longleftrightarrow> \<not> error_line a \<and> (pass_line a \<or> early_pass ls)" (is "?l \<longleftrightarrow> ?r")
proof
  assume ?l
  then obtain pre l post where *: "a # ls = pre @ l # post" "pass_line l" "\<forall>x \<in> set (pre @ [l]). \<not> error_line x"
    unfolding early_pass_def by blast
  then show ?r unfolding early_pass_def by (cases pre) auto
next
  assume r: ?r
  show ?l
  proof (cases "pass_line a")
    case True
    with r have "a # ls = [] @ a # ls \<and> pass_line a \<and> (\<forall>x \<in> set ([] @ [a]). \<not> error_line x)" by simp
    then show ?thesis unfolding early_pass_def by blast
  next
    case False
    with r obtain pre l post where "ls = pre @ l # post" "pass_line l" "\<forall>x \<in> set (pre @ [l]). \<not> error_line x"
      unfolding early_pass_def by blast
    with r have "a # ls = (a # pre) @ l # post \<and> pass_line l \<and> (\<forall>x \<in> set ((a # pre) @ [l]). \<not> error_line x)"
      by simp
    then show ?thesis unfolding early_pass_def by blast
  qed
qed

lemma clean_pass: "clean ls \<and> (\<exists>x \<in> set ls. pass_line x) \<longleftrightarrow> early_pass ls"
proof (induction ls)
  case (Cons a ls)
  then show ?case unfolding early_pass_Cons by auto
qed (simp add: early_pass_def)

text \<open>
  C18. The verdict on a simulation log is a pass exactly when some line reports a pass, no line up to
  and including it shows an error, and no line of the log at all reports a failure; the lines
  returned beside a pass are none.
\<close>

theorem uvm_log_verdict:
  "(fst (check_ibex_uvm_log text) \<longleftrightarrow>
      (\<exists>pre l post. text_lines text = pre @ l # post \<and> pass_line l \<and> list_all (\<lambda>x. \<not> error_line x) (pre @ [l])) \<and>
      list_all (\<lambda>x. \<not> fail_line x) (text_lines text)) \<and>
   (snd (check_ibex_uvm_log text) = [] \<or> fst (check_ibex_uvm_log text) = False)"
proof -
  let ?st = "\<lparr>u_passed = False, u_failed = False, u_seen = False, u_out = []\<rparr>"
  let ?r = "uvm_loop (text_lines text) ?st"
  have "u_out ?r \<noteq> [] \<longrightarrow> u_failed ?r" by (rule uvm_loop_out) simp
  moreover have fst_eq: "fst (check_ibex_uvm_log text) \<longleftrightarrow> \<not> u_failed ?r \<and> (\<exists>x \<in> set (text_lines text). pass_line x)"
    using uvm_loop_passed [of "text_lines text" ?st] by (auto simp: check_ibex_uvm_log_def Let_def)
  moreover have "\<not> u_failed ?r \<longleftrightarrow> list_all (\<lambda>x. \<not> fail_line x) (text_lines text) \<and> clean (text_lines text)"
    by (auto simp: uvm_loop_failed list_all_iff)
  moreover have "snd (check_ibex_uvm_log text) = u_out ?r"
    by (simp add: check_ibex_uvm_log_def Let_def)
  ultimately show ?thesis
    unfolding list_all_iff [of _ "_ @ [_]"] clean_pass [of "text_lines text", unfolded early_pass_def, symmetric] by (intro conjI) auto
qed

section \<open>Branch targets\<close>

lemma py_join_snoc: "xs \<noteq> [] \<Longrightarrow> py_join sep (xs @ [x]) = py_join sep xs @ sep @ x"
proof (induction xs)
  case (Cons a xs)
  then show ?case by (cases xs) simp_all
qed simp

lemma relative_imm_value:
  assumes "py_int 16 imm = Some t" "py_int 16 pc = Some p"
  shows "\<exists>off v. relative_imm pc imm = Inr off \<and> py_int 16 off = Some v \<and> 0 \<le> v \<and> v < 2 ^ 32 \<and>
     (p + v) mod 2 ^ 32 = t mod 2 ^ 32"
  using assms by (simp add: relative_imm_def int_res_def sint_to_hex_value mod_simps)

text \<open>
  C19. For a branch or jump, the absolute target at the end of the operands is replaced by an
  offset, a number of 32 bits, that leads from the program counter back to that target modulo
  \<open>2^32\<close>; the other operands stay. This holds for every program counter and target that are
  hexadecimal numbers, however many operands there are.
\<close>

theorem process_imm_target:
  assumes "name \<in> set branch_names" "py_int 16 imm = Some t" "py_int 16 pc = Some p" "CHR '','' \<notin> set imm"
    and "operands = py_join '','' (regs @ [imm])"
  shows "\<exists>off v. process_imm name pc operands = Inr (py_join '','' (regs @ [off])) \<and> py_int 16 off = Some v \<and>
     0 \<le> v \<and> v < 2 ^ 32 \<and> (p + v) mod 2 ^ 32 = t mod 2 ^ 32"
proof -
  obtain off v where off: "relative_imm pc imm = Inr off" "py_int 16 off = Some v" "0 \<le> v" "v < 2 ^ 32"
    "(p + v) mod 2 ^ 32 = t mod 2 ^ 32"
    using relative_imm_value assms(2,3) by blast
  have "process_imm name pc operands = Inr (py_join '','' (regs @ [off]))"
  proof (cases "regs = []")
    case True
    then show ?thesis using assms off by (simp add: process_imm_def rfind_char_None [THEN iffD2])
  next
    case False
    with assms(4) have "rfind_char (CHR '','') operands = Some (length (py_join '','' regs))"
      using assms(5) by (simp add: py_join_snoc rfind_char_append)
    then show ?thesis using assms off False by (simp add: process_imm_def py_join_snoc)
  qed
  with off show ?thesis by blast
qed

theorem process_imm_target_witness:
  "\<exists>off v. process_imm ''beq'' ''80'' ''x1,x2,70'' = Inr (py_join '','' ([''x1'', ''x2''] @ [off])) \<and>
     py_int 16 off = Some v \<and> 0 \<le> v \<and> v < 2 ^ 32 \<and> (128 + v) mod 2 ^ 32 = 112 mod 2 ^ 32"
proof -
  have "py_int 16 ''70'' = Some 112" "py_int 16 ''80'' = Some 128" by code_simp+
  then show ?thesis by (intro process_imm_target) (auto simp: branch_names_def)
qed

end
