(* ===== verification/Iss_Logs.thy ===== *)
theory Iss_Logs
  imports Ibex_Log
begin

text \<open>
  The traces of the instruction set simulators: \<^verbatim>\<open>spike_log_to_trace_csv.py\<close> and
  \<^verbatim>\<open>ovpsim_log_to_trace_csv.py\<close> of \<^verbatim>\<open>vendor/google_riscv-dv/scripts\<close>.

  Both are state machines over the lines of a log. The lemmas show that the reader of Spike logs
  yields one entry for each instruction of the program, and that the reader of OVPsim logs leaves out
  the last one.
\<close>

section \<open>Spike\<close>

definition hexa :: regex where "hexa = RCls False [CRange (CHR ''a'') (CHR ''f''), CRange (CHR ''0'') (CHR ''9'')]"

text \<open>\<^verbatim>\<open>core\s+\d+:\s+\<close>, the start of most lines.\<close>

definition core_prefix :: regex where
  "core_prefix = rseq [rstr ''core'', rplus True wsp, rplus True dgt, rlit (CHR '':''), rplus True wsp]"

text \<open>Groups: 1 the start, 2 pri, 3 addr, 4 bin, 5 reg, 6 val.\<close>

definition SPIKE_RD_RE :: regex where
  "SPIKE_RD_RE = rseq
     [ropt True (RGroup 1 core_prefix), RGroup 2 dgt, rstr '' 0x'', RGroup 3 (rplus False hexa), rstr '' ('',
      RGroup 4 (RStar False rany), rstr '') '',
      RGroup 5 (rseq [RCls False [CLit (CHR ''x''), CLit (CHR ''f'')], RStar True wsp, RStar False dgt]), rstr '' 0x'',
      RGroup 6 (rplus True hexa)]"

text \<open>Groups: 1 addr, 2 bin, 3 instr.\<close>

definition CORE_RE :: regex where
  "CORE_RE = rseq
     [core_prefix, rstr ''0x'', RGroup 1 (rplus False hexa), rstr '' (0x'', RGroup 2 (RStar False rany), rstr '') '',
      RGroup 3 (RStar False rany), REol]"

definition end_trampoline_re :: regex where
  "end_trampoline_re = rseq [rstr ''core'', RStar True rany, rstr '': 0x'', RStar True (rlit (CHR ''0'')), rstr ''1010 '']"

text \<open>A jump's offset in decimal; an operand without a comma is the offset itself.\<close>

definition spike_jal_imm :: "string \<Rightarrow> string py_res" where
  "spike_jal_imm operand =
     (let k = (case rfind_char (CHR '','') operand of None \<Rightarrow> 0 | Some i \<Rightarrow> i + 1) in
      case drop k operand of
        [] \<Rightarrow> Inl IndexError
      | c # cs \<Rightarrow>
          bind_res (if c = CHR ''-'' then bind_res (int_res 16 cs) (\<lambda>i. Inr (CHR ''-'' # int_str i))
                    else bind_res (int_res 16 (c # cs)) (\<lambda>i. Inr (int_str i))) (\<lambda>imm.
            Inr (take k operand @ imm)))"

definition spike_process_instr :: "RiscvInstructionTraceEntry \<Rightarrow> RiscvInstructionTraceEntry py_res" where
  "spike_process_instr trace =
     bind_res (if e_instr trace = ''jal'' then spike_jal_imm (e_operand trace) else Inr (e_operand trace)) (\<lambda>oper.
       Inr (trace\<lparr>e_operand :=
              (case re_search ADDR_RE oper of
                 None \<Rightarrow> oper
               | Some m \<Rightarrow> grp m 1 @ '','' @ grp m 3 @ '','' @ grp m 2)\<rparr>))"

definition spike_disasm :: "string \<Rightarrow> string" where
  "spike_disasm s = py_replace ''pc - '' ''-'' (py_replace ''pc + '' [] s)"

definition read_spike_instr :: "bool \<Rightarrow> mstate \<Rightarrow> RiscvInstructionTraceEntry py_res" where
  "read_spike_instr full_trace m =
     (let disasm = spike_disasm (grp m 3);
          e = new_entry\<lparr>e_pc := grp m 1, e_instr_str := disasm, e_binary := grp m 2\<rparr> in
      if full_trace
      then (let opcode = hd (split_char (CHR '' '') disasm);
                operand = py_replace '' '' [] (drop (length opcode) disasm) in
            bind_res (convert_pseudo_instr opcode operand (e_binary e)) (\<lambda>(i, oper).
              spike_process_instr (e\<lparr>e_instr := i, e_operand := oper\<rparr>)))
      else Inr e)"

text \<open>The states of the reader: before the program, between instructions, after an instruction.\<close>

datatype spike_state = Trampoline | Instr | Effect RiscvInstructionTraceEntry

definition commit_data :: "mstate \<Rightarrow> RiscvInstructionTraceEntry \<Rightarrow> RiscvInstructionTraceEntry" where
  "commit_data m e =
     e\<lparr>e_gpr := e_gpr e @ [gpr_to_abi (py_replace '' '' [] (grp m 5)) @ '':'' @ grp m 6], e_mode := grp m 2\<rparr>"

text \<open>
  One line. The result has what is yielded, the next state, and whether the loop is left; an
  exception comes with what was yielded before it.
\<close>

definition spike_instr_line ::
    "bool \<Rightarrow> (RiscvInstructionTraceEntry \<times> bool) list \<Rightarrow> mstate \<Rightarrow>
     (RiscvInstructionTraceEntry \<times> bool) list \<times> (spike_state \<times> bool) py_res" where
  "spike_instr_line full_trace ys m =
     (case read_spike_instr full_trace m of
        Inl e \<Rightarrow> (ys, Inl e)
      | Inr instr \<Rightarrow> (ys, Inr (Effect instr, e_instr_str instr = ''ecall'')))"

definition spike_line ::
    "bool \<Rightarrow> spike_state \<Rightarrow> string \<Rightarrow> (RiscvInstructionTraceEntry \<times> bool) list \<times> (spike_state \<times> bool) py_res" where
  "spike_line full_trace st line =
     (case st of
        Trampoline \<Rightarrow> ([], Inr (if re_match end_trampoline_re line \<noteq> None then Instr else Trampoline, False))
      | Instr \<Rightarrow>
          (case re_match CORE_RE line of
             None \<Rightarrow> ([], Inr (Instr, False))
           | Some m \<Rightarrow> spike_instr_line full_trace [] m)
      | Effect instr \<Rightarrow>
          (case re_match CORE_RE line of
             Some m \<Rightarrow> spike_instr_line full_trace [(instr, False)] m
           | None \<Rightarrow>
               if contains ''trap_illegal_instruction'' line then ([(instr, True)], Inr (Instr, False))
               else (case re_match SPIKE_RD_RE line of
                       None \<Rightarrow> ([], Inr (Effect instr, False))
                     | Some m \<Rightarrow> ([], Inr (Effect (commit_data m instr), False)))))"

text \<open>The instruction that is at hand when the loop is left.\<close>

definition spike_rest :: "spike_state \<Rightarrow> (RiscvInstructionTraceEntry \<times> bool) list" where
  "spike_rest st = (case st of Effect instr \<Rightarrow> [(instr, False)] | _ \<Rightarrow> [])"

fun spike_loop ::
    "bool \<Rightarrow> spike_state \<Rightarrow> string list \<Rightarrow> (RiscvInstructionTraceEntry \<times> bool) list \<times> unit py_res" where
  "spike_loop full_trace st [] = (spike_rest st, Inr ())"
| "spike_loop full_trace st (line # ls) =
     (case spike_line full_trace st line of
        (ys, Inl e) \<Rightarrow> (ys, Inl e)
      | (ys, Inr (st', stop)) \<Rightarrow>
          (if stop then (ys @ spike_rest st', Inr ())
           else (case spike_loop full_trace st' ls of (zs, r) \<Rightarrow> (ys @ zs, r))))"

definition read_spike_trace :: "string \<Rightarrow> bool \<Rightarrow> (RiscvInstructionTraceEntry \<times> bool) list \<times> unit py_res" where
  "read_spike_trace text full_trace = spike_loop full_trace Trampoline (text_lines text)"

definition spike_kept :: "bool \<Rightarrow> RiscvInstructionTraceEntry \<Rightarrow> bool" where
  "spike_kept full_trace e \<longleftrightarrow> full_trace \<or> e_gpr e \<noteq> [] \<or> e_instr_str e \<in> {''wfi'', ''ecall''}"

text \<open>
  Here the output is opened first, so it is emptied also when there is no log. The result has the
  messages, the files afterwards, and the number of instructions written.
\<close>

definition process_spike_sim_log ::
    "(string \<Rightarrow> bool) \<Rightarrow> (string \<Rightarrow> string option) \<Rightarrow> string \<Rightarrow> string \<Rightarrow> bool \<Rightarrow>
     log \<times> (string \<Rightarrow> string option) \<times> nat py_res" where
  "process_spike_sim_log creatable files spike_log csv full_trace =
     (let l0 = [(LogInfo, ''Processing spike log : '' @ spike_log)] in
      if files csv = None \<and> \<not> creatable csv then (l0, files, Inl (FileNotFoundError csv))
      else case (files(csv \<mapsto> [])) spike_log of
        None \<Rightarrow> (l0, files(csv \<mapsto> start_new_trace), Inl (FileNotFoundError spike_log))
      | Some text \<Rightarrow>
          (case read_spike_trace text full_trace of
             (ys, r) \<Rightarrow>
               (let kept = filter (spike_kept full_trace) (map fst ys);
                    files' = files(csv \<mapsto> start_new_trace @ concat (map write_trace_entry kept));
                    l1 = l0 @ (if full_trace
                               then map (\<lambda>(e, _). (LogDebug, ''Illegal instruction: '' @ e_instr_str e @ '', opcode:'' @ e_binary e))
                                      (filter snd ys)
                               else []) in
                case r of
                  Inl e \<Rightarrow> (l1, files', Inl e)
                | Inr _ \<Rightarrow>
                    (l1 @ [(LogInfo, ''Processed instruction count : '' @ nat_str 10 (length ys)),
                           (LogInfo, ''CSV saved to : '' @ csv)], files', Inr (length kept)))))"

section \<open>OVPsim\<close>

text \<open>Groups: 1 addr, 2 section, 3 mode, 4 bin, 5 instr_str.\<close>

definition OVP_INSTR_RE :: regex where
  "OVP_INSTR_RE = rseq
     [rstr ''riscvOVPsim'', RStar True rany, rstr '', 0x'', RGroup 1 (RStar False rany),
      RGroup 2 (rseq [rlit (CHR ''(''), RStar True rany, rstr ''):'', ropt True (rlit (CHR '' ''))]),
      RGroup 3 (RStar False (RCls False [CRange (CHR ''A'') (CHR ''Z''), CRange (CHR ''a'') (CHR ''z'')])),
      rplus True wsp, RGroup 4 (RStar False hexa), rplus True wsp, RGroup 5 (RStar False rany), REol]"

text \<open>Groups: 1 r, 2 pre, 3 val. At most two digits, as few as possible.\<close>

definition OVP_RD_RE :: regex where
  "OVP_RD_RE =
     (let d = RCls False [CRange (CHR ''0'') (CHR ''9'')] in
      rseq
        [rlit (CHR '' ''), RGroup 1 (rseq [RStar True (RCls False [CRange (CHR ''a'') (CHR ''z'')]), ropt False (RSeq d (ropt False d))]),
         rlit (CHR '' ''), RGroup 2 (rplus False hexa), rstr '' -> '', RGroup 3 (rplus False hexa), REol])"

text \<open>An unknown mode is \<^verbatim>\<open>None\<close>, which is written as an empty field.\<close>

definition convert_mode :: "string \<Rightarrow> string \<Rightarrow> bool \<Rightarrow> log \<times> string py_res" where
  "convert_mode pri line stop_on_first_error =
     (if contains ''Machine'' pri then ([], Inr ''3'')
      else if contains ''Supervisor'' pri then ([], Inr ''1'')
      else if contains ''User'' pri then ([], Inr ''0'')
      else ([(LogError, ''convert_mode = UNKNOWN PRIV MODE  ['' @ pri @ '']: '' @ line)],
            if stop_on_first_error then Inl (SystemExit RET_FATAL) else Inr []))"

definition is_csr :: "string \<Rightarrow> bool py_res" where
  "is_csr r =
     (if length r > 4 then Inr True
      else case r of
        [] \<Rightarrow> Inl IndexError
      | c # _ \<Rightarrow> Inr (c \<in> set ''mud'' \<or> r \<in> {''frm'', ''fcsr'', ''vl'', ''satp''}))"

definition ovp_process_imm :: "RiscvInstructionTraceEntry \<Rightarrow> RiscvInstructionTraceEntry py_res" where
  "ovp_process_imm trace =
     bind_res (process_imm (e_instr trace) (e_pc trace) (e_operand trace)) (\<lambda>oper. Inr (trace\<lparr>e_operand := oper\<rparr>))"

definition base_operands :: "mstate \<Rightarrow> string" where
  "base_operands m = grp m 1 @ '','' @ grp m 3 @ '','' @ grp m 2"

definition process_jalr :: "RiscvInstructionTraceEntry \<Rightarrow> RiscvInstructionTraceEntry" where
  "process_jalr trace =
     (let oper = (if rfind_char (CHR '','') (e_operand trace) = None then ''ra,'' @ e_operand trace
                  else e_operand trace) in
      trace\<lparr>e_operand := (case re_search BASE_RE oper of
                            Some m \<Rightarrow> base_operands m
                          | None \<Rightarrow> oper @ '',0'')\<rparr>)"

definition after_last_comma :: "string \<Rightarrow> string" where
  "after_last_comma s = (case rfind_char (CHR '','') s of None \<Rightarrow> s | Some i \<Rightarrow> drop (i + 1) s)"

definition rename_compressed :: "int \<Rightarrow> RiscvInstructionTraceEntry \<Rightarrow> RiscvInstructionTraceEntry" where
  "rename_compressed binary_value trace =
     (let name = ''c.'' @ e_instr trace; oper = e_operand trace in
      if contains ''sp,sp,'' oper \<and> name = ''c.addi''
      then trace\<lparr>e_instr := ''c.addi16sp'', e_operand := ''sp,'' @ after_last_comma oper\<rparr>
      else if contains '',sp,'' oper \<and> name = ''c.addi'' then trace\<lparr>e_instr := ''c.addi4spn''\<rparr>
      else if contains ''(sp)'' oper \<and> binary_value mod 4 \<noteq> 0 then trace\<lparr>e_instr := name @ ''sp''\<rparr>
      else trace\<lparr>e_instr := name\<rparr>)"

definition process_compressed_instr :: "RiscvInstructionTraceEntry \<Rightarrow> RiscvInstructionTraceEntry py_res" where
  "process_compressed_instr trace =
     bind_res (int_res 16 (e_binary trace)) (\<lambda>binary_value.
       (let os = split_char (CHR '','') (e_operand trace) in
        if length (e_binary trace) \<noteq> 4 then Inr trace
        else
          (let t1 = rename_compressed binary_value trace;
               t2 = (if \<not> contains ''('' (e_operand t1) \<and> length os > 2
                     then t1\<lparr>e_operand := py_join '','' (tl os)\<rparr> else t1) in
           if e_instr t2 = ''c.jal'' then bind_res (nth_res os 1) (\<lambda>x. Inr (t2\<lparr>e_operand := x\<rparr>)) else Inr t2)))"

definition process_trace :: "RiscvInstructionTraceEntry \<Rightarrow> RiscvInstructionTraceEntry py_res" where
  "process_trace trace =
     bind_res (process_compressed_instr trace) (\<lambda>t1.
     bind_res (ovp_process_imm t1) (\<lambda>t2.
       (let t3 = (if e_instr t2 = ''jalr'' then process_jalr t2 else t2) in
        bind_res (convert_pseudo_instr (e_instr t3) (e_operand t3) (e_binary t3)) (\<lambda>(i, oper).
          Inr (t3\<lparr>e_instr := i,
                  e_operand := (case re_search BASE_RE oper of Some m \<Rightarrow> base_operands m | None \<Rightarrow> oper)\<rparr>)))))"

text \<open>An instruction line, with the messages.\<close>

definition ovp_entry :: "bool \<Rightarrow> string \<Rightarrow> mstate \<Rightarrow> log \<times> RiscvInstructionTraceEntry py_res" where
  "ovp_entry full_trace line m =
     (case convert_mode (grp m 3) line False of
        (l, r) \<Rightarrow>
          (l, bind_res r (\<lambda>md.
                (let e = new_entry\<lparr>e_instr_str := grp m 5, e_pc := grp m 1, e_mode := md, e_binary := grp m 4\<rparr> in
                 if full_trace
                 then (let i = hd (split_char (CHR '' '') (grp m 5)) in
                       process_trace (e\<lparr>e_instr := i, e_operand := py_replace '' '' [] (drop (length i) (grp m 5))\<rparr>))
                 else Inr e))))"

text \<open>A change of a register. Before the first instruction there is no entry to add it to.\<close>

definition ovp_change ::
    "RiscvInstructionTraceEntry option \<Rightarrow> mstate \<Rightarrow> RiscvInstructionTraceEntry option py_res" where
  "ovp_change prev c =
     bind_res (is_csr (grp c 1)) (\<lambda>csr.
       (case prev of
          None \<Rightarrow> Inl AttributeError
        | Some e \<Rightarrow>
            Inr (Some (if csr then e\<lparr>e_csr := e_csr e @ [grp c 1 @ '':'' @ grp c 3]\<rparr>
                       else e\<lparr>e_gpr := e_gpr e @ [grp c 1 @ '':'' @ grp c 3]\<rparr>))))"

text \<open>The loop: messages, entries written, and at the end their number or the exception.\<close>

fun ovp_loop ::
    "bool \<Rightarrow> RiscvInstructionTraceEntry option \<Rightarrow> string list \<Rightarrow>
     log \<times> RiscvInstructionTraceEntry list \<times> unit py_res" where
  "ovp_loop full_trace prev [] = ([], [], Inr ())"
| "ovp_loop full_trace prev (line # ls) =
     (case re_search OVP_INSTR_RE line of
        Some m \<Rightarrow>
          (let ws = (case prev of None \<Rightarrow> [] | Some e \<Rightarrow> [e]) in
           case ovp_entry full_trace line m of
             (l, Inl e) \<Rightarrow> (l, ws, Inl e)
           | (l, Inr entry) \<Rightarrow>
               (case ovp_loop full_trace (Some entry) ls of (l', es, r) \<Rightarrow> (l @ l', ws @ es, r)))
      | None \<Rightarrow>
          (case re_search OVP_RD_RE line of
             None \<Rightarrow> ovp_loop full_trace prev ls
           | Some c \<Rightarrow>
               (case ovp_change prev c of
                  Inl e \<Rightarrow> ([], [], Inl e)
                | Inr prev' \<Rightarrow> ovp_loop full_trace prev' ls)))"

text \<open>
  The log is first cut down in place by two shell commands; \<open>sh\<close> is what a command does to the files.
\<close>

definition ovp_sed1 :: "string \<Rightarrow> string" where
  "ovp_sed1 ovpsim_log = ''sed -i '' @ [squote] @ ''/Info 1:/,$!d'' @ [squote] @ '' '' @ ovpsim_log"

definition ovp_sed2 :: "bool \<Rightarrow> string \<Rightarrow> string" where
  "ovp_sed2 dont_truncate ovpsim_log =
     ''sed -i '' @ [squote] @ (if dont_truncate then ''/^Info --/q'' else ''/ecall/q'') @ [squote] @ '' '' @ ovpsim_log"

definition process_ovpsim_sim_log ::
    "(string \<Rightarrow> (string \<Rightarrow> string option) \<Rightarrow> string \<Rightarrow> string option) \<Rightarrow> (string \<Rightarrow> bool) \<Rightarrow>
     (string \<Rightarrow> string option) \<Rightarrow> string \<Rightarrow> string \<Rightarrow> bool \<Rightarrow> bool \<Rightarrow>
     log \<times> (string \<Rightarrow> string option) \<times> unit py_res" where
  "process_ovpsim_sim_log sh creatable files0 ovpsim_log csv dont_truncate full_trace =
     (let l0 = [(LogInfo, ''Processing ovpsim log : '' @ ovpsim_log)] @
               (if dont_truncate then [(LogInfo, ''Dont truncate logfile after first ecall: '' @ ovpsim_log)] else []);
          files = sh (ovp_sed2 dont_truncate ovpsim_log) (sh (ovp_sed1 ovpsim_log) files0) in
      if files ovpsim_log = None then (l0, files, Inl (FileNotFoundError ovpsim_log))
      else if files csv = None \<and> \<not> creatable csv then (l0, files, Inl (FileNotFoundError csv))
      else
        (case ovp_loop full_trace None (text_lines (the ((files(csv \<mapsto> [])) ovpsim_log))) of
           (l, es, r) \<Rightarrow>
             (let files' = files(csv \<mapsto> start_new_trace @ concat (map write_trace_entry es)) in
              case r of
                Inl e \<Rightarrow> (l0 @ l, files', Inl e)
              | Inr _ \<Rightarrow>
                  (let l1 = l0 @ l @ [(LogInfo, ''Processed instruction count : '' @ nat_str 10 (length es) @ '' '')] in
                   if es = []
                   then (l1 @ [(LogError, ''No Instructions in logfile: '' @ ovpsim_log)], files', Inl (SystemExit RET_FATAL))
                   else (l1 @ [(LogInfo, ''CSV saved to : '' @ csv)], files', Inr ())))))"

section \<open>What the reader of Spike logs yields\<close>

text \<open>The instruction lines of a log, and those of the program, up to the first \<^verbatim>\<open>ecall\<close>.\<close>

definition core_matches :: "string list \<Rightarrow> mstate list" where
  "core_matches ls = List.map_filter (re_match CORE_RE) ls"

lemma core_matches_simps [simp]:
  "core_matches [] = []"
  "core_matches (l # ls) = (case re_match CORE_RE l of None \<Rightarrow> core_matches ls | Some m \<Rightarrow> m # core_matches ls)"
  by (simp_all add: core_matches_def map_filter_simps split: option.splits)

fun upto_ecall :: "mstate list \<Rightarrow> mstate list" where
  "upto_ecall [] = []"
| "upto_ecall (m # ms) = m # (if spike_disasm (grp m 3) = ''ecall'' then [] else upto_ecall ms)"

definition after_trampoline :: "string list \<Rightarrow> string list" where
  "after_trampoline ls = tl (dropWhile (\<lambda>l. re_match end_trampoline_re l = None) ls)"

text \<open>What identifies an instruction, in an entry and in a line.\<close>

definition entry_key :: "RiscvInstructionTraceEntry \<Rightarrow> string \<times> string \<times> string" where
  "entry_key e = (e_pc e, e_binary e, e_instr_str e)"

definition match_key :: "mstate \<Rightarrow> string \<times> string \<times> string" where
  "match_key m = (grp m 1, grp m 2, spike_disasm (grp m 3))"

abbreviation keys_of :: "(RiscvInstructionTraceEntry \<times> bool) list \<Rightarrow> (string \<times> string \<times> string) list" where
  "keys_of ys \<equiv> map (\<lambda>y. entry_key (fst y)) ys"

lemma spike_process_instr_key: "spike_process_instr e = Inr e' \<Longrightarrow> entry_key e' = entry_key e"
  by (auto simp: spike_process_instr_def py_res entry_key_def)

lemma read_spike_instr_key:
  assumes "read_spike_instr full_trace m = Inr e"
  shows "entry_key e = match_key m"
proof (cases full_trace)
  case True
  with assms obtain i oper where "spike_process_instr (new_entry\<lparr>e_pc := grp m 1, e_instr_str := spike_disasm (grp m 3),
      e_binary := grp m 2, e_instr := i, e_operand := oper\<rparr>) = Inr e"
    by (auto simp: read_spike_instr_def Let_def py_res split: prod.splits)
  from spike_process_instr_key [OF this] show ?thesis by (simp add: entry_key_def match_key_def)
next
  case False
  with assms show ?thesis by (auto simp: read_spike_instr_def Let_def entry_key_def match_key_def)
qed

lemma commit_data_key [simp]: "entry_key (commit_data m e) = entry_key e"
  by (simp add: commit_data_def entry_key_def)

lemma spike_rest_keys [simp]:
  "spike_rest (Effect e) = [(e, False)]" "spike_rest Instr = []"
  by (simp_all add: spike_rest_def)

text \<open>Outside the trampoline, a log that is read to its end yields each of its instructions once.\<close>

lemma spike_loop_keys:
  assumes "spike_loop full_trace st ls = (ys, Inr ())" "st \<noteq> Trampoline"
  shows "keys_of ys = keys_of (spike_rest st) @ map match_key (upto_ecall (core_matches ls))"
  using assms
proof (induction ls arbitrary: st ys)
  case (Cons line ls)
  show ?case
  proof (cases "re_match CORE_RE line")
    case None
    with Cons.prems obtain ys1 st1 zs where 1: "spike_line full_trace st line = (ys1, Inr (st1, False))"
        "spike_loop full_trace st1 ls = (zs, Inr ())" "ys = ys1 @ zs" "st1 \<noteq> Trampoline"
        "keys_of ys1 @ keys_of (spike_rest st1) = keys_of (spike_rest st)"
      by (cases st) (auto simp: spike_line_def split: prod.splits if_splits option.splits)
    from Cons.IH [OF 1(2,4)] 1(3,5) None show ?thesis by (metis append.assoc core_matches_simps(2) map_append option.case(1))
  next
    case (Some m)
    with Cons.prems(2) have line: "spike_line full_trace st line = spike_instr_line full_trace (spike_rest st) m"
      by (cases st) (auto simp: spike_line_def)
    with Cons.prems(1) obtain e where e: "read_spike_instr full_trace m = Inr e"
      by (auto simp: spike_instr_line_def split: sum.splits)
    note key = read_spike_instr_key [OF e]
    then have ecall: "e_instr_str e = ''ecall'' \<longleftrightarrow> spike_disasm (grp m 3) = ''ecall''"
      by (simp add: entry_key_def match_key_def)
    show ?thesis
    proof (cases "e_instr_str e = ''ecall''")
      case True
      with Cons.prems(1) line e have "ys = spike_rest st @ [(e, False)]" by (simp add: spike_instr_line_def)
      with Some True ecall key show ?thesis by simp
    next
      case False
      with Cons.prems(1) line e obtain zs where "spike_loop full_trace (Effect e) ls = (zs, Inr ())" "ys = spike_rest st @ zs"
        by (auto simp: spike_instr_line_def split: prod.splits)
      with Cons.IH [of "Effect e" zs] Some False ecall key show ?thesis by simp
    qed
  qed
qed simp

lemma spike_loop_trampoline:
  "spike_loop full_trace Trampoline ls = spike_loop full_trace Instr (after_trampoline ls)"
  by (induction ls) (auto simp: after_trampoline_def spike_line_def spike_rest_def split: prod.splits)

lemma spike_loop_total: "snd (spike_loop False st ls) = Inr ()"
proof (induction ls arbitrary: st)
  case (Cons line ls)
  have "\<exists>ys st' stop. spike_line False st line = (ys, Inr (st', stop))"
    by (cases st) (auto simp: spike_line_def spike_instr_line_def read_spike_instr_def Let_def split: option.splits)
  then show ?case using Cons [of "fst (projr (snd (spike_line False st line)))"] by (auto split: prod.splits)
qed simp

text \<open>
  C17. Reading a Spike log for a comparison always comes to its end, and the entries it yields are
  exactly the instruction lines after Spike's own start-up code, in order and each once, up to and
  including the first \<^verbatim>\<open>ecall\<close>, with the address, encoding and disassembly of the line, however commit
  lines, traps and other lines lie between them.
\<close>

theorem spike_trace_complete:
  "\<exists>ys. read_spike_trace text False = (ys, Inr ()) \<and>
     map (\<lambda>(e, illegal). (e_pc e, e_binary e, e_instr_str e)) ys =
       map (\<lambda>m. (grp m 1, grp m 2, spike_disasm (grp m 3)))
         (upto_ecall (core_matches (after_trampoline (text_lines text))))"
proof -
  obtain ys where ys: "spike_loop False Instr (after_trampoline (text_lines text)) = (ys, Inr ())"
    using spike_loop_total [of Instr "after_trampoline (text_lines text)"] by (metis prod.collapse)
  from spike_loop_keys [OF this] have "keys_of ys = map match_key (upto_ecall (core_matches (after_trampoline (text_lines text))))"
    by simp
  then show ?thesis
    using ys by (simp add: read_spike_trace_def spike_loop_trampoline entry_key_def match_key_def [abs_def] case_prod_unfold)
qed

section \<open>What the reader of OVPsim logs writes\<close>

lemma process_compressed_pc: "process_compressed_instr t = Inr t' \<Longrightarrow> e_pc t' = e_pc t"
  by (auto simp: process_compressed_instr_def rename_compressed_def Let_def py_res split: if_splits)

lemma process_trace_pc: "process_trace t = Inr t' \<Longrightarrow> e_pc t' = e_pc t"
  by (auto simp: process_trace_def ovp_process_imm_def process_jalr_def Let_def py_res
      split: prod.splits if_splits dest!: process_compressed_pc)

lemma ovp_entry_pc: "ovp_entry full_trace line m = (l, Inr e) \<Longrightarrow> e_pc e = grp m 1"
  by (cases full_trace) (auto simp: ovp_entry_def py_res Let_def split: prod.splits dest!: process_trace_pc)

lemma ovp_change_pc: "ovp_change prev c = Inr prev' \<Longrightarrow> map_option e_pc prev' = map_option e_pc prev \<and> prev' \<noteq> None"
  by (auto simp: ovp_change_def py_res split: option.splits)

text \<open>The last instruction of the log is read and never written, with all its register changes.\<close>

lemma ovp_last_not_written:
  assumes "ovp_loop full_trace prev ls = (l, es, Inr ())"
  shows "map e_pc es =
     butlast ((case prev of None \<Rightarrow> [] | Some e \<Rightarrow> [e_pc e]) @
              map (\<lambda>m. grp m 1) (List.map_filter (re_search OVP_INSTR_RE) ls))"
  using assms
proof (induction ls arbitrary: prev l es)
  case Nil
  then show ?case by (auto split: option.splits simp: map_filter_simps)
next
  case (Cons line ls)
  show ?case
  proof (cases "re_search OVP_INSTR_RE line")
    case (Some m)
    with Cons.prems obtain l1 e l2 es2 where
      1: "ovp_entry full_trace line m = (l1, Inr e)" "ovp_loop full_trace (Some e) ls = (l2, es2, Inr ())"
        "es = (case prev of None \<Rightarrow> [] | Some e \<Rightarrow> [e]) @ es2"
      by (auto simp: Let_def split: prod.splits sum.splits)
    from Cons.IH [OF 1(2)] ovp_entry_pc [OF 1(1)] 1(3) Some show ?thesis
      by (auto simp: map_filter_simps split: option.splits)
  next
    case None
    then show ?thesis
      using Cons.prems Cons.IH
      by (fastforce simp: map_filter_simps split: option.splits sum.splits dest!: ovp_change_pc)
  qed
qed

end
