(* ===== verification/Instr_Compare.thy ===== *)
theory Instr_Compare
  imports Trace_Csv
begin

text \<open>
  Comparing two instruction traces by the register updates they make:
  \<^verbatim>\<open>vendor/google_riscv-dv/scripts/instr_trace_compare.py\<close>.

  The abstract view of a trace is the list of its entries that change a register. The lemmas show
  that the comparison passes exactly when these lists agree, with one exception that the code has at
  the end of the second trace.
\<close>

section \<open>Register updates\<close>

text \<open>
  The loop over the updates of one entry. The dictionary of register values is changed in place; an
  empty update ends the loop with the answer that nothing changed.
\<close>

fun update_loop ::
    "string list \<Rightarrow> (string, string) dict \<Rightarrow> bool \<Rightarrow> ((string, string) dict \<times> bool) py_res" where
  "update_loop [] gpr change = Inr (gpr, change)"
| "update_loop (u # us) gpr change =
     (if u = [] then Inr (gpr, False)
      else (case split_char (CHR '':'') u of
              [rd, rd_val] \<Rightarrow>
                (case dict_get gpr rd of
                   Some v \<Rightarrow> update_loop us (dict_set rd rd_val gpr) (change \<or> rd_val \<noteq> v)
                 | None \<Rightarrow>
                     bind_res (int_res 16 rd_val) (\<lambda>i.
                       update_loop us (dict_set rd rd_val gpr) (change \<or> i \<noteq> 0)))
            | _ \<Rightarrow> Inl (SystemExitMsg (''Illegal GPR update format:'' @ u))))"

definition check_update_gpr ::
    "string list \<Rightarrow> (string, string) dict \<Rightarrow> ((string, string) dict \<times> bool) py_res" where
  "check_update_gpr gpr_update gpr = update_loop gpr_update gpr False"

section \<open>The comparison\<close>

text \<open>
  The state of the loop: the indices, what is left of the second trace, the register values of both
  traces, the counters, and what has been written. The entry last read from the second trace is the
  one before its index.
\<close>

record compare_state =
  c_index1 :: nat
  c_index2 :: nat
  c_rest2 :: "RiscvInstructionTraceEntry list"
  c_gpr1 :: "(string, string) dict"
  c_gpr2 :: "(string, string) dict"
  c_matched :: nat
  c_mismatch :: nat
  c_out :: string

text \<open>Moving forward in the second trace until an update happens.\<close>

fun seek ::
    "RiscvInstructionTraceEntry list \<Rightarrow> nat \<Rightarrow> (string, string) dict \<Rightarrow>
     (RiscvInstructionTraceEntry option \<times> RiscvInstructionTraceEntry list \<times> nat \<times> (string, string) dict) py_res" where
  "seek [] i gpr = Inr (None, [], i, gpr)"
| "seek (t # ts) i gpr =
     bind_res (check_update_gpr (e_gpr t) gpr) (\<lambda>(gpr', change).
       if change then Inr (Some t, ts, i + 1, gpr') else seek ts (i + 1) gpr')"

definition show_mismatch ::
    "string \<Rightarrow> string \<Rightarrow> nat \<Rightarrow> nat \<Rightarrow> RiscvInstructionTraceEntry \<Rightarrow> RiscvInstructionTraceEntry \<Rightarrow> string" where
  "show_mismatch name1 name2 n i t1 t2 =
     ''Mismatch['' @ nat_str 10 n @ '']:'' @ [newline] @ name1 @ ''['' @ nat_str 10 i @ ''] : '' @
     get_trace_string t1 @ [newline] @
     name2 @ ''['' @ nat_str 10 i @ ''] : '' @ get_trace_string t2 @ [newline]"

definition note_mismatch ::
    "string \<Rightarrow> string \<Rightarrow> int \<Rightarrow> RiscvInstructionTraceEntry \<Rightarrow> RiscvInstructionTraceEntry \<Rightarrow>
     compare_state \<Rightarrow> compare_state" where
  "note_mismatch name1 name2 limit t1 t2 st =
     (let n = c_mismatch st + 1 in
      st\<lparr>c_mismatch := n,
         c_out := c_out st @ (if int n \<le> limit then show_mismatch name1 name2 n (c_index2 st - 1) t1 t2 else [])\<rparr>)"

text \<open>The loop over the updates of a pair of entries: the first that differs ends it.\<close>

fun find_difference :: "string list \<Rightarrow> string list \<Rightarrow> bool" where
  "find_difference (x # xs) (y # ys) = (if x \<noteq> y then True else find_difference xs ys)"
| "find_difference _ _ = False"

definition compare_entry ::
    "string \<Rightarrow> string \<Rightarrow> int \<Rightarrow> nat \<Rightarrow> RiscvInstructionTraceEntry \<Rightarrow> compare_state \<Rightarrow> compare_state py_res" where
  "compare_entry name1 name2 limit len1 trace st =
     bind_res (seek (c_rest2 st) (c_index2 st) (c_gpr2 st)) (\<lambda>(found, rest, i2, gpr2).
       (let st1 = st\<lparr>c_rest2 := rest, c_index2 := i2, c_gpr2 := gpr2\<rparr> in
        Inr (case found of
               None \<Rightarrow>
                 st1\<lparr>c_mismatch := c_mismatch st1 + 1,
                     c_out := c_out st1 @ ''Mismatch['' @ nat_str 10 (c_mismatch st1 + 1) @ '']:'' @ [newline] @
                       ''['' @ nat_str 10 (c_index1 st1) @ ''] '' @ name1 @ '' : '' @ get_trace_string trace @
                       [newline] @ nat_str 10 (len1 - c_index1 st1 + 1) @ '' instructions left in trace '' @ name1 @
                       [newline]\<rparr>
             | Some t2 \<Rightarrow>
                 if length (e_gpr trace) \<noteq> length (e_gpr t2) \<or> find_difference (e_gpr trace) (e_gpr t2)
                 then note_mismatch name1 name2 limit trace t2 st1
                 else st1\<lparr>c_matched := c_matched st1 + 1\<rparr>)))"

fun in_order ::
    "string \<Rightarrow> string \<Rightarrow> int \<Rightarrow> nat \<Rightarrow> RiscvInstructionTraceEntry list \<Rightarrow> compare_state \<Rightarrow> compare_state py_res" where
  "in_order name1 name2 limit len1 [] st = Inr st"
| "in_order name1 name2 limit len1 (trace # ts) st =
     (let st0 = st\<lparr>c_index1 := c_index1 st + 1\<rparr> in
      if e_gpr trace = [] then in_order name1 name2 limit len1 ts st0
      else bind_res (check_update_gpr (e_gpr trace) (c_gpr1 st0)) (\<lambda>(gpr1, change).
        (let st1 = st0\<lparr>c_gpr1 := gpr1\<rparr> in
         if \<not> change then in_order name1 name2 limit len1 ts st1
         else bind_res (compare_entry name1 name2 limit len1 trace st1) (\<lambda>st2.
           if c_rest2 st2 = [] then Inr st2 else in_order name1 name2 limit len1 ts st2))))"

text \<open>What is left of the second trace. The index is that of the entry found.\<close>

definition left_over :: "string \<Rightarrow> compare_state \<Rightarrow> compare_state py_res" where
  "left_over name2 st =
     bind_res (seek (c_rest2 st) (c_index2 st) (c_gpr2 st)) (\<lambda>(found, rest, i2, gpr2).
       (let st1 = st\<lparr>c_rest2 := rest, c_index2 := i2, c_gpr2 := gpr2\<rparr>; n = length rest + 1 in
        Inr (case found of
               None \<Rightarrow> st1
             | Some t \<Rightarrow>
                 st1\<lparr>c_out := c_out st1 @ nat_str 10 n @ '' instructions left in trace '' @ name2 @ [newline],
                     c_mismatch := c_mismatch st1 + n\<rparr>)))"

definition compare_traces ::
    "string \<Rightarrow> string \<Rightarrow> int \<Rightarrow> RiscvInstructionTraceEntry list \<Rightarrow> RiscvInstructionTraceEntry list \<Rightarrow> string \<Rightarrow>
     compare_state py_res" where
  "compare_traces name1 name2 limit tr1 tr2 out =
     bind_res (in_order name1 name2 limit (length tr1) tr1
                 \<lparr>c_index1 = 0, c_index2 = 0, c_rest2 = tr2, c_gpr1 = [], c_gpr2 = [], c_matched = 0,
                  c_mismatch = 0, c_out = out\<rparr>)
       (left_over name2)"

definition compare_result :: "nat \<Rightarrow> nat \<Rightarrow> string" where
  "compare_result matched mismatch =
     (if mismatch = 0 then ''[PASSED]: '' @ nat_str 10 matched @ '' matched'' @ [newline]
      else ''[FAILED]: '' @ nat_str 10 matched @ '' matched, '' @ nat_str 10 mismatch @ '' mismatch'' @ [newline])"

text \<open>
  The options that have an effect. The limit on coalesced updates and the verbose flag have none,
  since the comparison out of order is not written.
\<close>

record compare_opts =
  o_in_order_mode :: bool
  o_mismatch_print_limit :: int
  o_compare_final_value_only :: bool

definition default_opts :: compare_opts where
  "default_opts = \<lparr>o_in_order_mode = True, o_mismatch_print_limit = 5, o_compare_final_value_only = False\<rparr>"

definition read_file :: "(string \<Rightarrow> string option) \<Rightarrow> string \<Rightarrow> string py_res" where
  "read_file files path =
     (case files path of None \<Rightarrow> Inl (FileNotFoundError path) | Some t \<Rightarrow> Inr t)"

text \<open>Both files are read, then compared; out of order there is nothing to compare.\<close>

definition compare_files ::
    "(string \<Rightarrow> string option) \<Rightarrow> string \<Rightarrow> string \<Rightarrow> string \<Rightarrow> string \<Rightarrow> compare_opts \<Rightarrow> string \<Rightarrow>
     (nat \<times> nat \<times> string) py_res" where
  "compare_files files csv1 csv2 name1 name2 opts out =
     bind_res (read_file files csv1) (\<lambda>text1. bind_res (read_file files csv2) (\<lambda>text2.
     bind_res (read_trace text1) (\<lambda>tr1. bind_res (read_trace text2) (\<lambda>tr2.
       if o_in_order_mode opts \<and> \<not> o_compare_final_value_only opts
       then bind_res (compare_traces name1 name2 (o_mismatch_print_limit opts) tr1 tr2 out) (\<lambda>st.
              Inr (c_matched st, c_mismatch st, c_out st))
       else Inr (0, 0, out)))))"

text \<open>
  What is written, the text after the two opening lines only when the comparison comes to its end,
  and the result.
\<close>

definition compare_trace_csv ::
    "(string \<Rightarrow> string option) \<Rightarrow> string \<Rightarrow> string \<Rightarrow> string \<Rightarrow> string \<Rightarrow> compare_opts \<Rightarrow> string \<times> string py_res" where
  "compare_trace_csv files csv1 csv2 name1 name2 opts =
     (let out0 = name1 @ '' : '' @ csv1 @ [newline] @ name2 @ '' : '' @ csv2 @ [newline] in
      case compare_files files csv1 csv2 name1 name2 opts out0 of
        Inl e \<Rightarrow> (out0, Inl e)
      | Inr (matched, mismatch, out) \<Rightarrow>
          (let res = compare_result matched mismatch in (out @ res @ [newline], Inr res)))"

section \<open>The abstract view\<close>

text \<open>Each entry of a trace, marked by whether it changes a register.\<close>

fun marks ::
    "RiscvInstructionTraceEntry list \<Rightarrow> (string, string) dict \<Rightarrow> RiscvInstructionTraceEntry option list py_res" where
  "marks [] gpr = Inr []"
| "marks (t # ts) gpr =
     bind_res (check_update_gpr (e_gpr t) gpr) (\<lambda>(gpr', change).
       bind_res (marks ts gpr') (\<lambda>ms. Inr ((if change then Some t else None) # ms)))"

text \<open>The updates of a trace, in order.\<close>

definition updates :: "RiscvInstructionTraceEntry option list \<Rightarrow> string list list" where
  "updates ms = concat (map (case_option [] (\<lambda>t. [e_gpr t])) ms)"

lemma updates_simps [simp]:
  "updates [] = []" "updates (None # ms) = updates ms" "updates (Some t # ms) = e_gpr t # updates ms"
  by (simp_all add: updates_def)

text \<open>The updates agree, or the second trace ends in an update and the first has more.\<close>

definition agree :: "string list list \<Rightarrow> RiscvInstructionTraceEntry option list \<Rightarrow> bool" where
  "agree us ms \<longleftrightarrow>
     us = updates ms \<or> ms \<noteq> [] \<and> last ms \<noteq> None \<and> (\<exists>rest. us = updates ms @ rest)"

lemma agree_skip: "ms \<noteq> [] \<Longrightarrow> agree us (None # ms) \<longleftrightarrow> agree us ms"
  by (simp add: agree_def)

lemma agree_found: "ms \<noteq> [] \<Longrightarrow> agree (u # us) (Some t # ms) \<longleftrightarrow> u = e_gpr t \<and> agree us ms"
  by (auto simp: agree_def)

lemma agree_last: "agree (u # us) [Some t] \<longleftrightarrow> u = e_gpr t"
  by (auto simp: agree_def)

text \<open>Seeking goes over the entries without a mark.\<close>

lemma seek_marks:
  assumes "marks ts gpr = Inr ms"
  shows "(\<exists>t rest gpr' ms' j. seek ts i gpr = Inr (Some t, rest, j, gpr') \<and> marks rest gpr' = Inr ms' \<and>
            (ms' = [] \<longleftrightarrow> rest = []) \<and> updates ms = e_gpr t # updates ms' \<and>
            (\<forall>us. agree us ms \<longleftrightarrow> agree us (Some t # ms'))) \<or>
         (\<exists>j gpr'. seek ts i gpr = Inr (None, [], j, gpr') \<and> updates ms = [] \<and>
            (\<forall>us. agree us ms \<longleftrightarrow> us = []))"
  using assms
proof (induction ts arbitrary: i gpr ms)
  case Nil
  then show ?case by (auto simp: agree_def)
next
  case (Cons t ts)
  then obtain gpr' change ms1 where 1: "check_update_gpr (e_gpr t) gpr = Inr (gpr', change)"
      "marks ts gpr' = Inr ms1" "ms = (if change then Some t else None) # ms1"
    by (auto simp: py_res)
  have "ms1 = [] \<longleftrightarrow> ts = []" using 1(2) by (cases ts) (auto simp: py_res)
  show ?case
  proof (cases change)
    case True
    with 1 have "seek (t # ts) i gpr = Inr (Some t, ts, i + 1, gpr') \<and> marks ts gpr' = Inr ms1 \<and>
        (ms1 = [] \<longleftrightarrow> ts = []) \<and> updates ms = e_gpr t # updates ms1 \<and> (\<forall>us. agree us ms \<longleftrightarrow> agree us (Some t # ms1))"
      using \<open>ms1 = [] \<longleftrightarrow> ts = []\<close> by simp
    then show ?thesis by blast
  next
    case False
    have "agree us ms \<longleftrightarrow> agree us ms1" for us
      using 1(3) False by (cases "ms1 = []") (auto simp: agree_skip, auto simp: agree_def)
    moreover have "updates ms = updates ms1" "seek (t # ts) i gpr = seek ts (Suc i) gpr'" using 1 False by simp_all
    ultimately show ?thesis using Cons.IH [OF 1(2), of "Suc i"] by simp
  qed
qed

lemma find_difference_iff:
  "length xs = length ys \<Longrightarrow> find_difference xs ys \<longleftrightarrow> xs \<noteq> ys"
  by (induction xs ys rule: find_difference.induct) auto

lemma differs_iff: "length xs \<noteq> length ys \<or> find_difference xs ys \<longleftrightarrow> xs \<noteq> ys"
  using find_difference_iff by auto

text \<open>The verdict of the loop and of what is left over, from any state.\<close>

definition verdict :: "string \<Rightarrow> string \<Rightarrow> int \<Rightarrow> nat \<Rightarrow> RiscvInstructionTraceEntry list \<Rightarrow> compare_state \<Rightarrow> compare_state py_res" where
  "verdict name1 name2 limit len1 ts st = bind_res (in_order name1 name2 limit len1 ts st) (left_over name2)"

lemma left_over_verdict:
  assumes "marks (c_rest2 st) (c_gpr2 st) = Inr ms"
  shows "\<exists>st'. left_over name2 st = Inr st' \<and> (c_mismatch st' = 0 \<longleftrightarrow> c_mismatch st = 0 \<and> updates ms = [])"
  using seek_marks [OF assms, of "c_index2 st"] by (auto simp: left_over_def Let_def)

lemma agree_Nil: "agree [] ms \<longleftrightarrow> updates ms = []"
proof -
  have "ms \<noteq> [] \<Longrightarrow> last ms \<noteq> None \<Longrightarrow> updates ms \<noteq> []"
    by (cases ms rule: rev_cases) (auto simp: updates_def split: option.splits)
  then show ?thesis by (auto simp: agree_def)
qed

lemma compare_entry_agree:
  assumes "marks (c_rest2 st) (c_gpr2 st) = Inr ms"
  shows "\<exists>st' ms'. compare_entry name1 name2 limit len1 trace st = Inr st' \<and> c_gpr1 st' = c_gpr1 st \<and>
     marks (c_rest2 st') (c_gpr2 st') = Inr ms' \<and> (ms' = [] \<longleftrightarrow> c_rest2 st' = []) \<and>
     (\<forall>us. c_mismatch st' = 0 \<and> (ms' = [] \<or> agree us ms') \<longleftrightarrow> c_mismatch st = 0 \<and> agree (e_gpr trace # us) ms)"
  using seek_marks [OF assms, of "c_index2 st"]
proof (elim disjE exE conjE)
  fix t rest gpr' ms' j
  assume *: "seek (c_rest2 st) (c_index2 st) (c_gpr2 st) = Inr (Some t, rest, j, gpr')" "marks rest gpr' = Inr ms'"
    "(ms' = []) = (rest = [])" "\<forall>us. agree us ms \<longleftrightarrow> agree us (Some t # ms')"
  let ?st1 = "st\<lparr>c_rest2 := rest, c_index2 := j, c_gpr2 := gpr'\<rparr>"
  let ?st' = "if e_gpr trace \<noteq> e_gpr t then note_mismatch name1 name2 limit trace t ?st1
              else ?st1\<lparr>c_matched := c_matched ?st1 + 1\<rparr>"
  have "compare_entry name1 name2 limit len1 trace st = Inr ?st'"
    using differs_iff [of "e_gpr trace" "e_gpr t"]
    by (cases "e_gpr trace = e_gpr t") (auto simp: compare_entry_def *(1) Let_def)
  moreover have "agree (e_gpr trace # us) ms \<longleftrightarrow> e_gpr trace = e_gpr t \<and> (ms' = [] \<or> agree us ms')" for us
    using *(4) by (cases "ms' = []") (simp_all add: agree_last agree_found)
  ultimately show ?thesis
    using *(2,3) by (intro exI [of _ ?st'] exI [of _ ms']) (auto simp: note_mismatch_def Let_def)
next
  fix j gpr'
  assume "seek (c_rest2 st) (c_index2 st) (c_gpr2 st) = Inr (None, [], j, gpr')" "\<forall>us. agree us ms \<longleftrightarrow> us = []"
  then show ?thesis by (simp add: compare_entry_def Let_def)
qed

lemma verdict_agree:
  assumes "marks ts (c_gpr1 st) = Inr m1" "marks (c_rest2 st) (c_gpr2 st) = Inr m2"
  shows "\<exists>st'. verdict name1 name2 limit len1 ts st = Inr st' \<and>
     (c_mismatch st' = 0 \<longleftrightarrow> c_mismatch st = 0 \<and> agree (updates m1) m2)"
  using assms
proof (induction ts arbitrary: st m1 m2)
  case Nil
  then show ?case using left_over_verdict [of st m2 name2] by (simp add: verdict_def agree_Nil)
next
  case (Cons t ts)
  let ?st0 = "st\<lparr>c_index1 := c_index1 st + 1\<rparr>"
  from Cons.prems(1) obtain gpr1 change ms where 1: "check_update_gpr (e_gpr t) (c_gpr1 st) = Inr (gpr1, change)"
      "marks ts gpr1 = Inr ms" "m1 = (if change then Some t else None) # ms"
    by (auto simp: py_res)
  let ?st1 = "?st0\<lparr>c_gpr1 := gpr1\<rparr>"
  have step: "verdict name1 name2 limit len1 (t # ts) st =
      (if \<not> change then verdict name1 name2 limit len1 ts ?st1
       else bind_res (compare_entry name1 name2 limit len1 t ?st1) (\<lambda>st2.
         if c_rest2 st2 = [] then left_over name2 st2 else verdict name1 name2 limit len1 ts st2))"
    using 1(1) by (auto simp: verdict_def Let_def check_update_gpr_def py_res split: if_splits intro!: arg_cong [of _ _ "bind_res _"])
  show ?case
  proof (cases change)
    case False
    with Cons.IH [of ?st1 ms m2] Cons.prems(2) 1 step show ?thesis by simp
  next
    case True
    obtain st' ms' where 2: "compare_entry name1 name2 limit len1 t ?st1 = Inr st'" "c_gpr1 st' = gpr1"
        "marks (c_rest2 st') (c_gpr2 st') = Inr ms'" "ms' = [] \<longleftrightarrow> c_rest2 st' = []"
      and iff: "c_mismatch st' = 0 \<and> (ms' = [] \<or> agree (updates ms) ms') \<longleftrightarrow> c_mismatch st = 0 \<and> agree (updates m1) m2"
      using compare_entry_agree [of ?st1 m2 name1 name2 limit len1 t] Cons.prems(2) 1(3) True by auto
    show ?thesis
    proof (cases "c_rest2 st' = []")
      case True
      with left_over_verdict [OF 2(3), of name2] 2 iff step \<open>change\<close> show ?thesis by auto
    next
      case False
      with Cons.IH [of st' ms ms'] 1(2) 2 iff step \<open>change\<close> show ?thesis by auto
    qed
  qed
qed

lemma compare_traces_agree:
  assumes "marks tr1 [] = Inr m1" "marks tr2 [] = Inr m2"
  shows "\<exists>st. compare_traces name1 name2 limit tr1 tr2 out = Inr st \<and> (c_mismatch st = 0 \<longleftrightarrow> agree (updates m1) m2)"
  using verdict_agree [of tr1 "\<lparr>c_index1 = 0, c_index2 = 0, c_rest2 = tr2, c_gpr1 = [], c_gpr2 = [], c_matched = 0,
      c_mismatch = 0, c_out = out\<rparr>" m1 m2 name1 name2 limit "length tr1"] assms
  by (simp add: verdict_def compare_traces_def)

text \<open>
  C8. The in-order comparison refines the abstract one. For two traces whose updates are well formed
  it always comes to a result, and it finds no mismatch exactly when the updates of the traces are
  the same, in the same order, or the second trace ends in an update and its updates are an initial
  part of those of the first: what the first trace does after that is not looked at.
\<close>

theorem compare_traces_refines:
  assumes "marks tr1 [] = Inr m1" "marks tr2 [] = Inr m2"
  shows "\<exists>st. compare_traces name1 name2 limit tr1 tr2 out = Inr st \<and>
     (c_mismatch st = 0 \<longleftrightarrow>
        updates m1 = updates m2 \<or> m2 \<noteq> [] \<and> last m2 \<noteq> None \<and> (\<exists>rest. updates m1 = updates m2 @ rest))"
  using compare_traces_agree [OF assms] by (simp add: agree_def)

definition upd :: "string \<Rightarrow> RiscvInstructionTraceEntry" where
  "upd u = new_entry\<lparr>e_gpr := [u]\<rparr>"

text \<open>The second update of the first trace goes unnoticed.\<close>

theorem compare_traces_refines_witness:
  "\<exists>st. compare_traces ''ibex'' ''spike'' 5 [upd ''t0:1'', upd ''t1:2''] [upd ''t0:1''] [] = Inr st \<and>
     (c_mismatch st = 0 \<longleftrightarrow>
        updates [Some (upd ''t0:1''), Some (upd ''t1:2'')] = updates [Some (upd ''t0:1'')] \<or>
        [Some (upd ''t0:1'')] \<noteq> [] \<and> last [Some (upd ''t0:1'')] \<noteq> None \<and>
        (\<exists>rest. updates [Some (upd ''t0:1''), Some (upd ''t1:2'')] = updates [Some (upd ''t0:1'')] @ rest))"
proof -
  have i: "int_res 16 ''1'' = Inr 1" "int_res 16 ''2'' = Inr 2" by code_simp+
  have "marks [upd ''t0:1'', upd ''t1:2''] [] = Inr [Some (upd ''t0:1''), Some (upd ''t1:2'')]"
    "marks [upd ''t0:1''] [] = Inr [Some (upd ''t0:1'')]"
    by (simp_all add: upd_def check_update_gpr_def new_entry_def i)
  then show ?thesis by (rule compare_traces_refines)
qed

section \<open>Passing results\<close>

lemma compare_files_Inr:
  assumes "compare_files files csv1 csv2 name1 name2 opts out0 = Inr (n, 0, out)"
    "o_in_order_mode opts" "\<not> o_compare_final_value_only opts"
  shows "\<exists>text1 text2 tr1 tr2 st. files csv1 = Some text1 \<and> files csv2 = Some text2 \<and>
     read_trace text1 = Inr tr1 \<and> read_trace text2 = Inr tr2 \<and>
     compare_traces name1 name2 (o_mismatch_print_limit opts) tr1 tr2 out0 = Inr st \<and> c_mismatch st = 0"
  using assms by (auto simp: compare_files_def read_file_def bind_res_Inr_iff split: option.splits)

lemma compare_result_passed: "prefix ''[PASSED]: '' (compare_result a b) \<longleftrightarrow> b = 0"
  by (auto simp: compare_result_def)

lemma compare_trace_passed:
  assumes "compare_trace_csv files csv1 csv2 name1 name2 opts = (out, Inr res)" "prefix ''[PASSED]: '' res"
    "o_in_order_mode opts" "\<not> o_compare_final_value_only opts"
  shows "\<exists>text1 text2 tr1 tr2 out0 st. files csv1 = Some text1 \<and> files csv2 = Some text2 \<and>
     read_trace text1 = Inr tr1 \<and> read_trace text2 = Inr tr2 \<and>
     compare_traces name1 name2 (o_mismatch_print_limit opts) tr1 tr2 out0 = Inr st \<and> c_mismatch st = 0"
proof -
  from assms(1,2) obtain out0 n out1 where "compare_files files csv1 csv2 name1 name2 opts out0 = Inr (n, 0, out1)"
    by (auto simp: compare_trace_csv_def Let_def compare_result_passed split: sum.splits)
  from compare_files_Inr [OF this assms(3,4)] show ?thesis by blast
qed

end
