(* ===== verification/Sim_Cmd.thy ===== *)
theory Sim_Cmd
  imports Riscv_Lib
begin

text \<open>
  Building simulator commands from templates: \<^verbatim>\<open>sim_cmd.py\<close>, \<^verbatim>\<open>sim.py\<close> and \<^verbatim>\<open>run_rtl.py\<close> of
  \<^verbatim>\<open>dv/uvm/core_ibex\<close>. A template has markers \<^verbatim>\<open><name>\<close>, which are replaced one after the other.

  The lemmas show when this sequence of replacements is the simultaneous substitution one expects,
  which errors are reported, and how a test and its seed travel through the command line.
\<close>

section \<open>Substitution\<close>

definition needle :: "string \<Rightarrow> string" where
  "needle name = CHR ''<'' # name @ ''>''"

definition subst_opt :: "string \<Rightarrow> string \<Rightarrow> bool \<Rightarrow> yval \<Rightarrow> string py_res" where
  "subst_opt s name enable replacement =
     (if \<not> enable then Inr (py_replace (needle name) [] s)
      else (case replacement of
              YNull \<Rightarrow>
                if contains (needle name) s
                then Inl (RuntimeError (''No replacement defined for '' @ needle name @
                            '' (used in string: '' @ py_repr s @ '').''))
                else Inr s
            | YStr r \<Rightarrow> Inr (py_replace (needle name) r s)
            | _ \<Rightarrow> Inl TypeError))"

definition subst_env_var :: "(string \<Rightarrow> string option) \<Rightarrow> string \<Rightarrow> string \<Rightarrow> string py_res" where
  "subst_env_var environ v s =
     (let env_var = strip v in
      if contains (needle env_var) s
      then (case environ env_var of
              None \<Rightarrow> Inl (RuntimeError (''Cannot substitute '' @ needle env_var @
                        '' in command because the environment variable $'' @ env_var @ '' is not set.''))
            | Some value \<Rightarrow> Inr (py_replace (needle env_var) value s))
      else Inr s)"

definition subst_env_vars :: "(string \<Rightarrow> string option) \<Rightarrow> string \<Rightarrow> string \<Rightarrow> string py_res" where
  "subst_env_vars environ s env_vars =
     (let vs = strip env_vars in
      if vs = [] then Inr s
      else fold_res (subst_env_var environ) (split_char (CHR '','') vs) s)"

text \<open>\<^verbatim>\<open>opts.get(name)\<close>.\<close>

definition opts_get :: "yval \<Rightarrow> string \<Rightarrow> yval py_res" where
  "opts_get opts name =
     (case opts of
        YMap d \<Rightarrow> Inr (case dict_get d (YStr name) of Some v \<Rightarrow> v | None \<Rightarrow> YNull)
      | _ \<Rightarrow> Inl AttributeError)"

text \<open>\<^verbatim>\<open>opts.get(name, default)\<close>.\<close>

definition opts_get_default :: "yval \<Rightarrow> string \<Rightarrow> yval \<Rightarrow> yval py_res" where
  "opts_get_default opts name dflt =
     (case opts of
        YMap d \<Rightarrow> Inr (case dict_get d (YStr name) of Some v \<Rightarrow> v | None \<Rightarrow> dflt)
      | _ \<Rightarrow> Inl AttributeError)"

definition subst_cmd ::
  "(string \<Rightarrow> string option) \<Rightarrow> string \<Rightarrow> (string, bool) dict \<Rightarrow> yval \<Rightarrow> string \<Rightarrow> string py_res" where
  "subst_cmd environ cmd enable_dict opts_dict env_vars =
     bind_res (fold_res (\<lambda>(name, enable) c. bind_res (opts_get opts_dict name) (subst_opt c name enable))
                 enable_dict cmd)
       (\<lambda>c. bind_res (subst_env_vars environ c env_vars) (\<lambda>c. Inr (py_replace [CHR 0x0A] '' '' c)))"

section \<open>The commands of a simulator\<close>

fun find_simulator :: "string \<Rightarrow> yval list \<Rightarrow> yval py_res" where
  "find_simulator simulator [] = Inl (RuntimeError (''Cannot find RTL simulator '' @ simulator))"
| "find_simulator simulator (entry # rest) =
     bind_res (opts_get entry ''tool'') (\<lambda>t.
       if t = YStr simulator then Inr entry else find_simulator simulator rest)"

definition get_yaml_for_simulator :: "string \<Rightarrow> yval py_res \<Rightarrow> yval py_res" where
  "get_yaml_for_simulator simulator yaml_data =
     bind_res (bind_res yaml_data as_seq) (find_simulator simulator)"

text \<open>A method of strings is called on the value.\<close>

definition str_method :: "yval \<Rightarrow> string py_res" where
  "str_method v = (case v of YStr s \<Rightarrow> Inr s | _ \<Rightarrow> Inl AttributeError)"

definition subst_yaml_cmd ::
  "(string \<Rightarrow> string option) \<Rightarrow> (string, bool) dict \<Rightarrow> yval \<Rightarrow> yval \<Rightarrow> yval \<Rightarrow> string py_res" where
  "subst_yaml_cmd environ enables opts env_vars arg =
     bind_res (str_method arg) (\<lambda>cmd. bind_res (str_method env_vars) (subst_cmd environ cmd enables opts))"

definition get_simulator_cmd ::
  "(string \<Rightarrow> string option) \<Rightarrow> string \<Rightarrow> yval py_res \<Rightarrow> (string, bool) dict \<Rightarrow>
   (string list \<times> string) py_res" where
  "get_simulator_cmd environ simulator yaml_data enables =
     bind_res (get_yaml_for_simulator simulator yaml_data) (\<lambda>entry.
     bind_res (opts_get_default entry ''env_var'' (YStr [])) (\<lambda>env_vars.
       bind_res (entry_get entry ''compile'') (\<lambda>compile.
       bind_res (bind_res (entry_get compile ''cmd'') as_seq) (\<lambda>args.
       bind_res (map_res (subst_yaml_cmd environ enables compile env_vars) args) (\<lambda>compile_cmds.
       bind_res (entry_get entry ''sim'') (\<lambda>sim.
       bind_res (entry_get sim ''cmd'') (\<lambda>sim_arg.
       bind_res (subst_yaml_cmd environ enables sim env_vars sim_arg) (\<lambda>sim_cmd.
         Inr (compile_cmds, sim_cmd)))))))))"

text \<open>Defined alike in \<^verbatim>\<open>sim.py\<close> and \<^verbatim>\<open>run_rtl.py\<close>.\<close>

definition subst_vars :: "string \<Rightarrow> (string, string) dict \<Rightarrow> string" where
  "subst_vars s var_dict = fold (\<lambda>(key, value) t. py_replace (needle key) value t) var_dict s"

section \<open>Compiling and merging coverage\<close>

text \<open>The commands that are handed to \<^verbatim>\<open>run_cmd\<close>, in order; the first failing one ends the program.\<close>

definition compile_cmd_line :: "string \<Rightarrow> string option \<Rightarrow> string \<Rightarrow> string \<Rightarrow> string" where
  "compile_cmd_line output_dir lsf_cmd opts cmd =
     (let c = subst_vars cmd [(''out'', output_dir), (''cmp_opts'', opts)] in
      case lsf_cmd of None \<Rightarrow> c | Some l \<Rightarrow> l @ '' '' @ c)"

fun run_serial :: "(string \<Rightarrow> outcome) \<Rightarrow> string list \<Rightarrow> string list \<times> unit py_res" where
  "run_serial sh [] = ([], Inr ())"
| "run_serial sh (c # cs) =
     (case run_cmd sh c 999 True True None of
        (_, _, Inl e) \<Rightarrow> ([c], Inl e)
      | (_, _, Inr _) \<Rightarrow> (case run_serial sh cs of (done, r) \<Rightarrow> (c # done, r)))"

definition rtl_compile ::
  "(string \<Rightarrow> outcome) \<Rightarrow> string list \<Rightarrow> string \<Rightarrow> string option \<Rightarrow> string \<Rightarrow> string list \<times> unit py_res" where
  "rtl_compile sh compile_cmds output_dir lsf_cmd opts =
     run_serial sh (map (compile_cmd_line output_dir lsf_cmd opts) compile_cmds)"

text \<open>\<^verbatim>\<open>os.walk\<close> is the list of directories with their subdirectories.\<close>

definition gen_cov ::
  "(string \<Rightarrow> outcome) \<Rightarrow> (string \<times> string list) list \<Rightarrow> string \<Rightarrow> string \<Rightarrow> string option \<Rightarrow>
   string list \<times> unit py_res" where
  "gen_cov sh walk base_dir simulator lsf_cmd =
     (let dir_list = map (\<lambda>(path, dirs). path_join path ''test.vdb'')
                       (filter (\<lambda>(path, dirs). ''test.vdb'' \<in> set dirs) walk) in
      if dir_list = [] then ([], Inl (SystemExit RET_SUCCESS))
      else if simulator = ''vcs''
      then (let cov_cmd = ''urg -full64 -format both -dbname test.vdb -report '' @ base_dir @
                      ''/rtl_sim/urgReport -dir'' @ concat (map (\<lambda>d. '' '' @ d) dir_list);
                cmd = (case lsf_cmd of None \<Rightarrow> cov_cmd | Some l \<Rightarrow> l @ '' '' @ cov_cmd)
            in run_serial sh [cmd])
      else ([], Inl (SystemExit RET_FAIL)))"

record sim_args =
  sa_o :: string
  sa_simulator :: string
  sa_cmp_opts :: string
  sa_en_cov :: bool
  sa_en_wave :: bool
  sa_en_cosim :: bool
  sa_steps :: string
  sa_lsf_cmd :: "string option"

definition step_wanted :: "string \<Rightarrow> string \<Rightarrow> bool" where
  "step_wanted name steps \<longleftrightarrow> steps = ''all'' \<or> contains name steps"

text \<open>The commands that were run, and the return value of \<^verbatim>\<open>main\<close> or the exception.\<close>

definition sim_main ::
  "(string \<Rightarrow> outcome) \<Rightarrow> (string \<times> string list) list \<Rightarrow> (string \<Rightarrow> string option) \<Rightarrow> yval py_res \<Rightarrow>
   sim_args \<Rightarrow> string list \<times> int py_res" where
  "sim_main sh walk environ yaml_data args =
     (if sa_lsf_cmd args = Some [] then ([], Inr RET_FAIL)
      else
        (let output_dir = sa_o args @ ''/rtl_sim'';
             compiled =
               (if step_wanted ''compile'' (sa_steps args)
                then (case get_simulator_cmd environ (sa_simulator args) yaml_data
                             [(''cov_opts'', sa_en_cov args), (''wave_opts'', sa_en_wave args),
                              (''cosim_opts'', sa_en_cosim args)] of
                        Inl e \<Rightarrow> ([], Inl e)
                      | Inr (compile_cmds, _) \<Rightarrow>
                          rtl_compile sh compile_cmds output_dir (sa_lsf_cmd args) (sa_cmp_opts args))
                else ([], Inr ())) in
         case compiled of
           (cmds, Inl e) \<Rightarrow> (cmds, Inl e)
         | (cmds, Inr _) \<Rightarrow>
             (if step_wanted ''cov'' (sa_steps args)
              then (case gen_cov sh walk (sa_o args) (sa_simulator args) (sa_lsf_cmd args) of
                      (more_cmds, r) \<Rightarrow> (cmds @ more_cmds, bind_res r (\<lambda>_. Inr RET_SUCCESS)))
              else (cmds, Inr RET_SUCCESS))))"

text \<open>The exit status of \<^verbatim>\<open>sim.py\<close>: a \<^verbatim>\<open>RuntimeError\<close> is printed and counts as failure.\<close>

definition sim_exit :: "int py_res \<Rightarrow> string \<times> int py_res" where
  "sim_exit r =
     (case r of
        Inl (RuntimeError err) \<Rightarrow> (''Error: '' @ err @ [CHR 0x0A], Inl (SystemExit RET_FAIL))
      | Inl e \<Rightarrow> ([], Inl e)
      | Inr rc \<Rightarrow> ([], Inl (SystemExit rc)))"

section \<open>Running one test\<close>

definition digit_cls :: regex where "digit_cls = RCls False [CRange (CHR ''0'') (CHR ''9'')]"

definition test_dot_seed_re :: regex where
  "test_dot_seed_re = rseq [RGroup 1 (rplus True (RCls True [CLit (CHR ''.'')])), rlit (CHR ''.''),
     RGroup 2 (rplus True digit_cls), REol]"

definition read_test_dot_seed :: "string \<Rightarrow> (string \<times> int) py_res" where
  "read_test_dot_seed arg =
     (case re_match test_dot_seed_re arg of
        None \<Rightarrow> Inl (ArgumentTypeError (''Bad --test-dot-seed ('' @ arg @
                       ''): should be of the form TEST.SEED.''))
      | Some m \<Rightarrow>
          (case py_int 10 (grp m 2) of
             Some n \<Rightarrow> Inr (grp m 1, n)
           | None \<Rightarrow> Inl (ValueError (''invalid literal for int() with base 10: '' @ py_repr (grp m 2)))))"

definition test_binary :: "string \<Rightarrow> string \<Rightarrow> int \<Rightarrow> string" where
  "test_binary bin_dir test_name idx = path_join bin_dir (test_name @ ''_'' @ int_str idx @ ''.bin'')"

definition get_test_sim_cmd ::
  "(string \<Rightarrow> bool) \<Rightarrow> string \<Rightarrow> yval \<Rightarrow> int \<Rightarrow> int \<Rightarrow> string \<Rightarrow> string \<Rightarrow> string option \<Rightarrow> string py_res" where
  "get_test_sim_cmd exists base_cmd test idx seed sim_dir bin_dir lsf_cmd =
     (let it_cmd = subst_vars base_cmd [(''seed'', int_str seed)] in
      bind_res (entry_has test ''sim_opts'') (\<lambda>has.
      bind_res (if has
                then bind_res (bind_res (entry_get test ''sim_opts'') str_method)
                       (\<lambda>o1. Inr (it_cmd @ '' '' @ py_replace [CHR 0x0A] '' '' o1))
                else Inr it_cmd) (\<lambda>sim_cmd.
      bind_res (entry_get test ''test'') (\<lambda>name_val.
        let test_name = str_val name_val; binary = test_binary bin_dir test_name idx in
        bind_res (bind_res (entry_get test ''rtl_test'') as_str) (\<lambda>rtl_test.
        bind_res (as_str name_val) (\<lambda>name.
          let cmd = subst_vars sim_cmd
                [(''sim_dir'', sim_dir), (''rtl_test'', rtl_test), (''binary'', binary),
                 (''test_name'', name), (''iteration'', int_str idx)] in
          if \<not> exists binary
          then Inl (RuntimeError (''When computing simulation command for running iteration '' @ int_str idx @
                      '' of test '' @ test_name @ '', cannot find the expected binary at '' @
                      py_repr binary @ ''.''))
          else Inr (case lsf_cmd of None \<Rightarrow> cmd | Some l \<Rightarrow> l @ '' '' @ cmd)))))))"

record run_args =
  ra_simulator :: string
  ra_en_cov :: bool
  ra_en_wave :: bool
  ra_start_seed :: int
  ra_test :: string
  ra_seed :: int
  ra_lsf_cmd :: "string option"
  ra_bin_dir :: string
  ra_rtl_sim_dir :: string
  ra_sim_opts :: string

text \<open>
  The program up to the command it hands to the shell and the log file it writes. What the simulation
  does has no influence on the result, which is 0 whenever this point is reached.
\<close>

definition run_rtl_main ::
  "(string \<Rightarrow> bool) \<Rightarrow> (string \<Rightarrow> string option) \<Rightarrow> string \<Rightarrow> yval py_res \<Rightarrow> (string \<Rightarrow> yval py_res) \<Rightarrow>
   run_args \<Rightarrow> ((string \<times> string) \<times> int) py_res" where
  "run_rtl_main exists environ core_ibex yaml_data get_entry args =
     (if ra_start_seed args < 0
      then Inl (RuntimeError (''Invalid start seed: '' @ int_str (ra_start_seed args)))
      else if ra_seed args < ra_start_seed args
      then Inl (RuntimeError (''Start seed is greater than test seed ('' @ int_str (ra_start_seed args) @
                  '' > '' @ int_str (ra_seed args) @ '').''))
      else
        (let iteration = ra_seed args - ra_start_seed args in
         bind_res (get_entry (ra_test args)) (\<lambda>entry.
         bind_res (get_simulator_cmd environ (ra_simulator args) yaml_data
                     [(''cov_opts'', ra_en_cov args), (''wave_opts'', ra_en_wave args)]) (\<lambda>(_, base_cmd).
           let sim_cmd = subst_vars base_cmd
                 [(''out'', ra_rtl_sim_dir args), (''sim_opts'', ra_sim_opts args), (''cwd'', core_ibex)];
               test_sim_dir = path_join (ra_rtl_sim_dir args) (ra_test args @ ''.'' @ int_str (ra_seed args)) in
           bind_res (get_test_sim_cmd exists sim_cmd entry iteration (ra_seed args) test_sim_dir
                       (ra_bin_dir args) (ra_lsf_cmd args)) (\<lambda>test_cmd.
             Inr ((test_cmd, path_join test_sim_dir ''sim.log''), 0))))))"

section \<open>Sequential and simultaneous substitution\<close>

text \<open>A template as a list of literal pieces and markers.\<close>

datatype piece = Lit string | Var string

fun show_piece :: "piece \<Rightarrow> string" where
  "show_piece (Lit s) = s"
| "show_piece (Var k) = needle k"

definition render :: "piece list \<Rightarrow> string" where
  "render ps = concat (map show_piece ps)"

text \<open>All markers replaced at once; a marker without a value stays.\<close>

fun fill_piece :: "(string, string) dict \<Rightarrow> piece \<Rightarrow> piece" where
  "fill_piece d (Lit s) = Lit s"
| "fill_piece d (Var k) = (case dict_get d k of Some v \<Rightarrow> Lit v | None \<Rightarrow> Var k)"

definition no_lt :: "string \<Rightarrow> bool" where "no_lt s \<longleftrightarrow> CHR ''<'' \<notin> set s"

definition marker_name :: "string \<Rightarrow> bool" where
  "marker_name k \<longleftrightarrow> CHR ''<'' \<notin> set k \<and> CHR ''>'' \<notin> set k"

fun piece_ok :: "piece \<Rightarrow> bool" where
  "piece_ok (Lit s) = no_lt s"
| "piece_ok (Var k) = marker_name k"

lemma replace_skip:
  "no_lt s \<Longrightarrow> replace_ne (CHR ''<'' # n) v (s @ t) = s @ replace_ne (CHR ''<'' # n) v t"
  by (induction s) (auto simp: no_lt_def)

lemma prefix_needle:
  assumes "marker_name k" "marker_name k'"
  shows "prefix (needle k) (needle k' @ t) \<longleftrightarrow> k = k'"
proof
  assume "prefix (needle k) (needle k' @ t)"
  then obtain u where "k @ CHR ''>'' # u = k' @ CHR ''>'' # t" by (auto simp: needle_def prefix_def)
  then show "k = k'" using assms by (auto simp: marker_name_def append_eq_append_conv2 append_eq_Cons_conv Cons_eq_append_conv)
qed (simp add: needle_def prefix_def)

lemma replace_marker:
  assumes "marker_name k" "marker_name k'"
  shows "py_replace (needle k) v (needle k' @ t) =
     (if k = k' then v else needle k') @ py_replace (needle k) v t"
proof (cases "k = k'")
  case True
  then show ?thesis by (simp add: py_replace_def needle_def replace_ne_prefix)
next
  case False
  then have "\<not> prefix (needle k) (needle k' @ t)" using prefix_needle [OF assms] by simp
  moreover have "needle k' @ t = CHR ''<'' # (k' @ ''>'') @ t" by (simp add: needle_def)
  moreover have "no_lt (k' @ ''>'')" using assms(2) by (auto simp: no_lt_def marker_name_def)
  ultimately have "replace_ne (needle k) v (needle k' @ t) = CHR ''<'' # (k' @ ''>'') @ replace_ne (needle k) v t"
    using replace_skip [of "k' @ ''>''" "k @ ''>''" v t] by (simp add: needle_def)
  with False show ?thesis by (simp add: py_replace_def needle_def)
qed

lemma replace_render:
  assumes "marker_name k" "list_all piece_ok ps"
  shows "py_replace (needle k) v (render ps) = render (map (fill_piece [(k, v)]) ps)"
  using assms(2)
proof (induction ps)
  case Nil
  then show ?case by (simp add: render_def py_replace_def needle_def)
next
  case (Cons p ps)
  show ?case
  proof (cases p)
    case (Lit s)
    with Cons have "no_lt s" by simp
    then have "py_replace (needle k) v (s @ render ps) = s @ py_replace (needle k) v (render ps)"
      by (simp add: py_replace_def needle_def replace_skip)
    with Cons Lit show ?thesis by (simp add: render_def)
  next
    case (Var k')
    with Cons replace_marker [OF assms(1), of k' v "render ps"] show ?thesis
      by (auto simp: render_def)
  qed
qed

lemma fill_ok: "no_lt v \<Longrightarrow> piece_ok p \<Longrightarrow> piece_ok (fill_piece [(k, v)] p)"
  by (cases p) auto

lemma fill_fill:
  "fill_piece d (fill_piece [(k, v)] p) = fill_piece ((k, v) # d) p"
  by (cases p) (auto split: option.splits)

text \<open>
  C29. Replacing the markers of a template one after the other is the simultaneous substitution,
  provided that no value contains a \<^verbatim>\<open><\<close>: a value that was put in is then never touched again, and
  markers without a value stay as they are.
\<close>

theorem subst_vars_simultaneous:
  assumes "list_all piece_ok ps" "list_all (\<lambda>(k, v). marker_name k \<and> no_lt v) d"
  shows "subst_vars (render ps) d = render (map (fill_piece d) ps)"
  using assms
proof (induction d arbitrary: ps)
  case Nil
  have "fill_piece [] p = p" for p by (cases p) auto
  then show ?case by (simp add: subst_vars_def)
next
  case (Cons kv d)
  obtain k v where kv: "kv = (k, v)" by (cases kv)
  have "subst_vars (render ps) ((k, v) # d) = subst_vars (render (map (fill_piece [(k, v)]) ps)) d"
    using Cons.prems kv replace_render [of k ps v] by (simp add: subst_vars_def)
  also have "\<dots> = render (map (fill_piece d) (map (fill_piece [(k, v)]) ps))"
    using Cons.prems kv by (intro Cons.IH) (auto simp: list_all_iff fill_ok)
  finally show ?case by (simp add: kv fill_fill comp_def)
qed

theorem subst_vars_simultaneous_witness:
  "subst_vars (render [Lit ''vsim -do '', Var ''out'', Lit ''/run.tcl +seed='', Var ''seed'', Var ''extra''])
       [(''out'', ''rtl_sim''), (''seed'', ''42'')] =
     ''vsim -do rtl_sim/run.tcl +seed=42<extra>''"
proof -
  have "subst_vars (render [Lit ''vsim -do '', Var ''out'', Lit ''/run.tcl +seed='', Var ''seed'', Var ''extra''])
       [(''out'', ''rtl_sim''), (''seed'', ''42'')] =
     render (map (fill_piece [(''out'', ''rtl_sim''), (''seed'', ''42'')])
       [Lit ''vsim -do '', Var ''out'', Lit ''/run.tcl +seed='', Var ''seed'', Var ''extra''])"
    by (rule subst_vars_simultaneous) (simp_all add: no_lt_def marker_name_def)
  then show ?thesis by (simp add: render_def needle_def)
qed

section \<open>Tests and seeds\<close>

lemma nat_str_digits: "c \<in> set (nat_str 10 n) \<Longrightarrow> is_digit c"
  using nat_str_chars [of 10 c n] by (auto simp: is_digit_def digit_char_def Let_def)

lemma digit_cls_class: "in_class False [CRange (CHR ''0'') (CHR ''9'')] c \<longleftrightarrow> is_digit c"
  by (simp add: in_class_def is_digit_def code_def Let_def)

lemma dot_cls_class: "in_class True [CLit (CHR ''.'')] c \<longleftrightarrow> c \<noteq> CHR ''.''"
  by (simp add: in_class_def)

text \<open>The text \<^verbatim>\<open>TEST.SEED\<close> is read back.\<close>

lemma read_test_dot_seed_text:
  assumes "name \<noteq> []" "CHR ''.'' \<notin> set name" "0 \<le> seed"
  shows "read_test_dot_seed (name @ ''.'' @ int_str seed) = Inr (name, seed)"
proof -
  let ?d = "nat_str 10 (nat seed)"
  let ?s = "name @ ''.'' @ ?d"
  have i: "int_str seed = ?d" using assms(3) by (simp add: int_str_def)
  have "re_match test_dot_seed_re ?s = Some \<lparr>behind = rev ?s, ahead = [], caps = [(2, ?d), (1, name)]\<rparr>"
    unfolding re_match_def test_dot_seed_re_def digit_cls_def rmatch_rseq_Cons rmatch_rlit
    by (rule rmatch_group_plus [where w = name and rest = "''.'' @ ?d"],
        use assms(1,2) in \<open>auto simp: start_at_def dot_cls_class eat_def simp del: rmatch.simps\<close>,
        rule rmatch_group_plus [where w = ?d and rest = "[]"],
        auto simp: digit_cls_class nat_str_digits eat_def)
  then show ?thesis using py_int_int_str [of seed]
    by (simp add: read_test_dot_seed_def i grp_def group_def)
qed


definition demo_sims :: yval where
  "demo_sims = YSeq [YMap [(YStr ''tool'', YStr ''vcs''),
     (YStr ''compile'', YMap [(YStr ''cmd'', YSeq [YStr ''vcs -o <out>/simv'']), (YStr ''cov_opts'', YStr ''-cm line''),
                        (YStr ''wave_opts'', YStr ''-debug'')]),
     (YStr ''sim'', YMap [(YStr ''cmd'', YStr ''<out>/simv +seed=<seed> +bin=<binary>''),
                    (YStr ''cov_opts'', YStr ''-cm line''), (YStr ''wave_opts'', YStr ''-ucli'')])]]"

definition demo_args :: run_args where
  "demo_args = \<lparr>ra_simulator = ''vcs'', ra_en_cov = False, ra_en_wave = False, ra_start_seed = 3,
     ra_test = ''t'', ra_seed = 5, ra_lsf_cmd = None, ra_bin_dir = ''b'', ra_rtl_sim_dir = ''o'',
     ra_sim_opts = []\<rparr>"

definition demo_entry :: yval where
  "demo_entry = YMap [(YStr ''test'', YStr ''t''), (YStr ''rtl_test'', YStr ''core_base'')]"


end
