(* ===== verification/Py_Args.thy ===== *)
theory Py_Args
  imports Py_Value
begin

text \<open>
  The library module \<^verbatim>\<open>argparse\<close> as the programs use it: parsers with options that take no value or one
  value (\<^verbatim>\<open>store\<close>, \<^verbatim>\<open>store_true\<close>, \<^verbatim>\<open>append\<close>), positional arguments (one, any number, at least one) and
  sub-parsers. The order of the work is the one of \<^verbatim>\<open>parse_known_args\<close> of Python 3.11: all strings are
  classified first, then options and positional arguments are consumed in turn, each action running as
  soon as its strings are known. Not modelled are the texts for the user (usage, help and messages): an
  error of the command line is the exit with status 2, a request for help the exit with status 0.

  The lemmas describe how a command line made of options that a parser knows is read back, and that
  what is left over is an error.
\<close>

section \<open>Parsers\<close>

datatype nargs = NOne | NZero | NStar | NPlus | NParser

datatype action_kind = Store | StoreTrue | Append | Help | Subparsers

record action =
  option_strings :: "string list"
  act_dest :: string
  kind :: action_kind
  act_nargs :: nargs
  conv :: "string \<Rightarrow> yval py_res"
  choices :: "yval list option"
  required :: bool
  act_default :: yval

type_synonym namespace = "(string, yval) dict"

record arg_parser =
  actions :: "action list"
  parser_defaults :: namespace

definition str_conv :: "string \<Rightarrow> yval py_res" where "str_conv s = Inr (YStr s)"

definition int_conv :: "string \<Rightarrow> yval py_res" where
  "int_conv s = (case py_int 10 s of None \<Rightarrow> Inl (ValueError ''invalid literal'') | Some i \<Rightarrow> Inr (YInt i))"

text \<open>The calls of \<^verbatim>\<open>add_argument\<close> that occur.\<close>

definition help_action :: action where
  "help_action = \<lparr>option_strings = [''-h'', ''--help''], act_dest = ''help'', kind = Help, act_nargs = NZero,
     conv = str_conv, choices = None, required = False, act_default = YNull\<rparr>"

definition opt_arg :: "string list \<Rightarrow> string \<Rightarrow> action" where
  "opt_arg os d = \<lparr>option_strings = os, act_dest = d, kind = Store, act_nargs = NOne,
     conv = str_conv, choices = None, required = False, act_default = YNull\<rparr>"

definition flag_arg :: "string list \<Rightarrow> string \<Rightarrow> action" where
  "flag_arg os d = \<lparr>option_strings = os, act_dest = d, kind = StoreTrue, act_nargs = NZero,
     conv = str_conv, choices = None, required = False, act_default = YBool False\<rparr>"

definition append_arg :: "string list \<Rightarrow> string \<Rightarrow> action" where
  "append_arg os d = \<lparr>option_strings = os, act_dest = d, kind = Append, act_nargs = NOne,
     conv = str_conv, choices = None, required = False, act_default = YSeq []\<rparr>"

definition pos_arg :: "string \<Rightarrow> nargs \<Rightarrow> action" where
  "pos_arg d n = \<lparr>option_strings = [], act_dest = d, kind = Store, act_nargs = n,
     conv = str_conv, choices = None, required = True, act_default = YNull\<rparr>"

definition sub_arg :: "string \<Rightarrow> string list \<Rightarrow> action" where
  "sub_arg d names = \<lparr>option_strings = [], act_dest = d, kind = Subparsers, act_nargs = NParser,
     conv = str_conv, choices = Some (map YStr names), required = False, act_default = YNull\<rparr>"

section \<open>Classification of the strings\<close>

definition option_map :: "action list \<Rightarrow> (string \<times> action) list" where
  "option_map acts = concat (map (\<lambda>a. map (\<lambda>s. (s, a)) (option_strings a)) acts)"

text \<open>
  An option as it was recognised: the action (none for an unknown option), the option string, whether
  an equals sign separates it from its value, and the value in the same string.
\<close>

type_synonym opt_tuple = "action option \<times> string \<times> bool \<times> string option"

datatype tag = is_arg: TagA | is_dash: TagDash | is_opt: TagO opt_tuple

definition is_negative :: "string \<Rightarrow> bool" where
  "is_negative s =
     (let t = (if s \<noteq> [] \<and> last s = CHR 0x0A then butlast s else s) in
      case t of
        [] \<Rightarrow> False
      | c # ds \<Rightarrow> c = CHR ''-'' \<and>
          (ds \<noteq> [] \<and> list_all is_digit ds \<or>
           (case split_once ''.'' ds of
              None \<Rightarrow> False
            | Some (a, b) \<Rightarrow> list_all is_digit a \<and> b \<noteq> [] \<and> list_all is_digit b)))"

text \<open>Abbreviated options, and short options with their value in the same string.\<close>

definition option_tuples :: "action list \<Rightarrow> string \<Rightarrow> opt_tuple list" where
  "option_tuples acts s =
     (if s ! 1 = CHR ''-''
      then let (pre, eq, v) = (case split_once ''='' s of None \<Rightarrow> (s, False, None) | Some (p, v) \<Rightarrow> (p, True, Some v)) in
           map (\<lambda>(os, a). (Some a, os, eq, v)) (filter (\<lambda>(os, a). prefix pre os) (option_map acts))
      else concat (map (\<lambda>(os, a).
             if os = take 2 s then [(Some a, os, False, Some (drop 2 s))]
             else if prefix s os then [(Some a, os, False, None)] else []) (option_map acts)))"

definition parse_optional :: "action list \<Rightarrow> string \<Rightarrow> opt_tuple option py_res" where
  "parse_optional acts s =
     (if s = [] \<or> hd s \<noteq> CHR ''-'' then Inr None
      else case map_of (option_map acts) s of
        Some a \<Rightarrow> Inr (Some (Some a, s, False, None))
      | None \<Rightarrow>
          if length s = 1 then Inr None
          else let (pre, v) = (case split_once ''='' s of None \<Rightarrow> ('''', None) | Some (p, v) \<Rightarrow> (p, Some v)) in
          case (if v = None then None else map_of (option_map acts) pre) of
            Some a \<Rightarrow> Inr (Some (Some a, pre, True, v))
          | None \<Rightarrow>
              (case option_tuples acts s of
                 t # ts \<Rightarrow> if ts = [] then Inr (Some t) else Inl (SystemExit 2)
               | [] \<Rightarrow>
                   if is_negative s \<and> \<not> list_ex is_negative (map fst (option_map acts)) then Inr None
                   else if CHR '' '' \<in> set s then Inr None
                   else Inr (Some (None, s, False, None))))"

text \<open>After \<^verbatim>\<open>--\<close> every string is an argument.\<close>

fun classify :: "action list \<Rightarrow> string list \<Rightarrow> (string \<times> tag) list py_res" where
  "classify acts [] = Inr []"
| "classify acts (s # ss) =
     (if s = ''--'' then Inr ((s, TagDash) # map (\<lambda>t. (t, TagA)) ss)
      else bind_res (parse_optional acts s) (\<lambda>t.
           bind_res (classify acts ss) (\<lambda>r.
             Inr ((s, case t of None \<Rightarrow> TagA | Some u \<Rightarrow> TagO u) # r))))"

section \<open>How many strings an action takes\<close>

text \<open>An option takes no \<^verbatim>\<open>--\<close>; \<open>None\<close>: too few strings follow.\<close>

definition opt_count :: "nargs \<Rightarrow> tag list \<Rightarrow> nat option" where
  "opt_count n ts =
     (let as = length (takeWhile is_arg ts) in
      case n of
        NOne \<Rightarrow> if as = 0 then None else Some 1
      | NZero \<Rightarrow> Some 0
      | NStar \<Rightarrow> Some as
      | NPlus \<Rightarrow> if as = 0 then None else Some as
      | NParser \<Rightarrow> if as = 0 then None else Some (length (takeWhile (\<lambda>t. \<not> is_dash t) ts)))"

text \<open>The numbers of strings that the pattern of a positional argument can match, longest first.\<close>

definition pos_counts :: "nargs \<Rightarrow> tag list \<Rightarrow> nat list" where
  "pos_counts n ts =
     (let d = length (takeWhile is_dash ts);
          rest = drop d ts;
          more = (\<lambda>p. rev (map (\<lambda>k. d + 1 + k) [0..<length (takeWhile p (tl rest)) + 1]))
      in case n of
           NZero \<Rightarrow> rev [0..<d + 1]
         | NStar \<Rightarrow> rev [0..<length (takeWhile (\<lambda>t. \<not> is_opt t) ts) + 1]
         | NOne \<Rightarrow> if rest \<noteq> [] \<and> is_arg (hd rest) then more is_dash else []
         | NPlus \<Rightarrow> if rest \<noteq> [] \<and> is_arg (hd rest) then more (\<lambda>t. \<not> is_opt t) else []
         | NParser \<Rightarrow> if rest \<noteq> [] \<and> is_arg (hd rest) then more (\<lambda>t. True) else [])"

fun first_some :: "('a \<Rightarrow> 'b option) \<Rightarrow> 'a list \<Rightarrow> 'b option" where
  "first_some f [] = None"
| "first_some f (x # xs) = (case f x of Some y \<Rightarrow> Some y | None \<Rightarrow> first_some f xs)"

text \<open>Matching the patterns one after the other, with the choices of a backtracking matcher.\<close>

fun match_positionals :: "nargs list \<Rightarrow> tag list \<Rightarrow> nat list option" where
  "match_positionals [] ts = Some []"
| "match_positionals (n # ns) ts =
     first_some (\<lambda>c. map_option (Cons c) (match_positionals ns (drop c ts))) (pos_counts n ts)"

text \<open>As many of the actions as match, from the front.\<close>

definition match_partial :: "nargs list \<Rightarrow> tag list \<Rightarrow> nat list" where
  "match_partial ns ts =
     (case first_some (\<lambda>i. match_positionals (take i ns) ts) (rev [1..<length ns + 1]) of
        None \<Rightarrow> [] | Some cs \<Rightarrow> cs)"

section \<open>Running the actions\<close>

record parse_state =
  ns :: namespace
  seen :: "string list"
  extras :: "string list"

text \<open>Only these exceptions of a conversion are errors of the command line; others escape.\<close>

definition arg_value :: "action \<Rightarrow> string \<Rightarrow> yval py_res" where
  "arg_value a s =
     (case conv a s of
        Inl e \<Rightarrow> Inl (case e of ArgumentTypeError _ \<Rightarrow> SystemExit 2 | TypeError \<Rightarrow> SystemExit 2
                     | ValueError _ \<Rightarrow> SystemExit 2 | _ \<Rightarrow> e)
      | Inr v \<Rightarrow> Inr v)"

definition check_value :: "action \<Rightarrow> yval \<Rightarrow> unit py_res" where
  "check_value a v =
     (case choices a of
        None \<Rightarrow> Inr ()
      | Some vs \<Rightarrow> if v \<in> set vs then Inr () else Inl (SystemExit 2))"

definition checked_value :: "action \<Rightarrow> string \<Rightarrow> yval py_res" where
  "checked_value a s = bind_res (arg_value a s) (\<lambda>v. bind_res (check_value a v) (\<lambda>_. Inr v))"

text \<open>The strings of an action as a value; a positional argument drops its first \<^verbatim>\<open>--\<close>.\<close>

definition get_values :: "action \<Rightarrow> string list \<Rightarrow> yval py_res" where
  "get_values a ss0 =
     (let ss = (if option_strings a = [] \<and> act_nargs a \<noteq> NParser then remove1 ''--'' ss0 else ss0) in
      if act_nargs a = NStar \<and> ss = [] \<and> option_strings a = []
      then let v = (if act_default a = YNull then YSeq [] else act_default a) in
           bind_res (check_value a v) (\<lambda>_. Inr v)
      else if act_nargs a = NOne \<and> length ss = 1 then checked_value a (hd ss)
      else if act_nargs a = NParser
      then bind_res (map_res (arg_value a) ss) (\<lambda>vs. bind_res (check_value a (hd vs)) (\<lambda>_. Inr (YSeq vs)))
      else bind_res (map_res (arg_value a) ss) (\<lambda>vs.
           bind_res (map_res (check_value a) vs) (\<lambda>_. Inr (YSeq vs))))"

text \<open>The sub-parser of a name on the strings after it: its namespace and what it did not know.\<close>

type_synonym sub_parsers = "string \<Rightarrow> string list \<Rightarrow> (namespace \<times> string list) py_res"

definition set_all :: "namespace \<Rightarrow> namespace \<Rightarrow> namespace" where
  "set_all new n = fold (\<lambda>(k, v). dict_set k v) new n"

definition the_strs :: "yval \<Rightarrow> string list" where
  "the_strs v = (case v of YSeq vs \<Rightarrow> map str_val vs | _ \<Rightarrow> [])"

definition take_action :: "sub_parsers \<Rightarrow> action \<Rightarrow> string list \<Rightarrow> parse_state \<Rightarrow> parse_state py_res" where
  "take_action sub a ss s0 =
     (let s = s0\<lparr>seen := act_dest a # seen s0\<rparr> in
      bind_res (get_values a ss) (\<lambda>v.
        case kind a of
          Store \<Rightarrow> Inr (s\<lparr>ns := dict_set (act_dest a) v (ns s)\<rparr>)
        | StoreTrue \<Rightarrow> Inr (s\<lparr>ns := dict_set (act_dest a) (YBool True) (ns s)\<rparr>)
        | Append \<Rightarrow>
            Inr (s\<lparr>ns := dict_set (act_dest a)
                   (YSeq ((case dict_get (ns s) (act_dest a) of Some (YSeq vs) \<Rightarrow> vs | _ \<Rightarrow> []) @ [v])) (ns s)\<rparr>)
        | Help \<Rightarrow> Inl (SystemExit 0)
        | Subparsers \<Rightarrow>
            let name = hd (the_strs v) in
            bind_res (sub name (tl (the_strs v))) (\<lambda>(n, ex).
              Inr (s\<lparr>ns := set_all n (dict_set (act_dest a) (YStr name) (ns s)), extras := extras s @ ex\<rparr>))))"

definition take_all :: "sub_parsers \<Rightarrow> (action \<times> string list) list \<Rightarrow> parse_state \<Rightarrow> parse_state py_res" where
  "take_all sub = fold_res (\<lambda>(a, ss). take_action sub a ss)"

lemma take_all_simps [simp]:
  "take_all sub [] = Inr" "take_all sub [(a, ss)] = take_action sub a ss"
  by (rule ext, simp add: take_all_def bind_res_def split: sum.split)+

lemma take_all_Cons: "take_all sub ((a, ss) # xs) s = bind_res (take_action sub a ss s) (take_all sub xs)"
  by (simp add: take_all_def)

section \<open>Options\<close>

text \<open>
  The actions of one option string: several short options can share it, the last with its value. The
  result also has the extra string, if any, and how many of the following strings are taken.
\<close>

function opt_chain ::
  "action list \<Rightarrow> tag list \<Rightarrow> string list \<Rightarrow> action \<Rightarrow> string \<Rightarrow> bool \<Rightarrow> string option \<Rightarrow>
   ((action \<times> string list) list \<times> string list \<times> nat) py_res" where
  "opt_chain acts ts ss a os eq None =
     (case opt_count (act_nargs a) ts of
        None \<Rightarrow> Inl (SystemExit 2)
      | Some c \<Rightarrow> Inr ([(a, take c ss)], [], c))"
| "opt_chain acts ts ss a os eq (Some e) =
     (case opt_count (act_nargs a) [TagA] of
        None \<Rightarrow> Inl (SystemExit 2)
      | Some c \<Rightarrow>
          if c = 0 \<and> os ! 1 \<noteq> CHR ''-'' \<and> e \<noteq> []
          then if eq \<or> hd e = CHR ''-'' then Inl (SystemExit 2)
               else (case map_of (option_map acts) [CHR ''-'', hd e] of
                       None \<Rightarrow> Inr ([(a, [])], [CHR ''-'' # e], 0)
                     | Some b \<Rightarrow>
                         (let r = tl e; eq' = (r \<noteq> [] \<and> hd r = CHR ''='') in
                          bind_res (opt_chain acts ts ss b [CHR ''-'', hd e] eq'
                              (if r = [] then None else if eq' then Some (tl r) else Some r))
                            (\<lambda>(acs, ex, n). Inr ((a, []) # acs, ex, n))))
          else if c = 1 then Inr ([(a, [e])], [], 0)
          else Inl (SystemExit 2))"
  by pat_completeness auto
termination
  by (relation "measure (\<lambda>(acts, ts, ss, a, os, eq, e). case e of None \<Rightarrow> 0 | Some x \<Rightarrow> Suc (length x))")
     (auto simp: Let_def neq_Nil_conv split: if_splits)

section \<open>The loop\<close>

definition take_positionals ::
  "sub_parsers \<Rightarrow> action list \<Rightarrow> (string \<times> tag) list \<Rightarrow> parse_state \<Rightarrow>
   (action list \<times> nat \<times> parse_state) py_res" where
  "take_positionals sub pos args s =
     (let cs = match_partial (map act_nargs pos) (map snd args);
          slices = map (\<lambda>i. (pos ! i, map fst (take (cs ! i) (drop (sum_list (take i cs)) args)))) [0..<length cs]
      in bind_res (take_all sub slices s) (\<lambda>t. Inr (drop (length cs) pos, sum_list cs, t)))"

definition take_optional ::
  "sub_parsers \<Rightarrow> action list \<Rightarrow> string \<Rightarrow> opt_tuple \<Rightarrow> (string \<times> tag) list \<Rightarrow> parse_state \<Rightarrow>
   (nat \<times> parse_state) py_res" where
  "take_optional sub acts str t rest s =
     (case t of
        (None, _) \<Rightarrow> Inr (0, s\<lparr>extras := extras s @ [str]\<rparr>)
      | (Some a, os, eq, e) \<Rightarrow>
          bind_res (opt_chain acts (map snd rest) (map fst rest) a os eq e) (\<lambda>(acs, ex, n).
          bind_res (take_all sub acs (s\<lparr>extras := extras s @ ex\<rparr>)) (\<lambda>u. Inr (n, u))))"

lemma dropWhile_shorter: "dropWhile P xs = y # ys \<Longrightarrow> xs \<noteq> [] \<and> length ys < length xs"
  using length_dropWhile_le [of P xs] by (cases xs) auto

text \<open>Positional arguments and options in turn, as long as there are options.\<close>

function arg_loop ::
  "sub_parsers \<Rightarrow> action list \<Rightarrow> action list \<Rightarrow> (string \<times> tag) list \<Rightarrow> parse_state \<Rightarrow> parse_state py_res" where
  "arg_loop sub acts pos args s =
     (case dropWhile (\<lambda>(str, t). \<not> is_opt t) args of
        [] \<Rightarrow>
          bind_res (take_positionals sub pos args s) (\<lambda>(pos', n, t).
            Inr (t\<lparr>extras := extras t @ map fst (drop n args)\<rparr>))
      | (str, TagO ot) # rest \<Rightarrow>
          let lead = takeWhile (\<lambda>(str, t). \<not> is_opt t) args in
          (case (if lead = [] then Inr (pos, 0, s) else take_positionals sub pos args s) of
             Inl e \<Rightarrow> Inl e
           | Inr (pos', n, t) \<Rightarrow>
               if n > 0 then arg_loop sub acts pos' (drop n args) t
               else (case take_optional sub acts str ot rest (t\<lparr>extras := extras t @ map fst lead\<rparr>) of
                       Inl e \<Rightarrow> Inl e
                     | Inr (m, u) \<Rightarrow> arg_loop sub acts pos' (drop m rest) u))
      | _ # rest \<Rightarrow> Inr s)"
  by pat_completeness auto
termination
  by (relation "measure (\<lambda>(sub, acts, pos, args, s). length args)") (auto dest: dropWhile_shorter)

declare arg_loop.simps [simp del]

section \<open>The whole parse\<close>

definition initial_ns :: "arg_parser \<Rightarrow> namespace" where
  "initial_ns p =
     (let n1 = fold (\<lambda>a n. if kind a = Help \<or> dict_has n (act_dest a) then n
                            else dict_set (act_dest a) (act_default a) n) (actions p) []
      in fold (\<lambda>(k, v) n. if dict_has n k then n else dict_set k v n) (parser_defaults p) n1)"

text \<open>A default that is a string is converted like an argument, unless the argument was given.\<close>

definition convert_default :: "action \<Rightarrow> parse_state \<Rightarrow> parse_state py_res" where
  "convert_default a s =
     (case act_default a of
        YStr d \<Rightarrow>
          if act_dest a \<in> set (seen s) \<or> required a \<or> dict_get (ns s) (act_dest a) \<noteq> Some (YStr d) then Inr s
          else bind_res (arg_value a d) (\<lambda>v. Inr (s\<lparr>ns := dict_set (act_dest a) v (ns s)\<rparr>))
      | _ \<Rightarrow> Inr s)"

definition all_required :: "arg_parser \<Rightarrow> parse_state \<Rightarrow> bool" where
  "all_required p s \<longleftrightarrow> list_all (\<lambda>a. required a \<longrightarrow> act_dest a \<in> set (seen s)) (actions p)"

definition finish_args :: "arg_parser \<Rightarrow> parse_state \<Rightarrow> (namespace \<times> string list) py_res" where
  "finish_args p s =
     bind_res (fold_res convert_default (actions p) s) (\<lambda>s.
       if all_required p s then Inr (ns s, extras s) else Inl (SystemExit 2))"

definition positionals :: "arg_parser \<Rightarrow> action list" where
  "positionals p = filter (\<lambda>a. option_strings a = []) (actions p)"

definition initial_state :: "arg_parser \<Rightarrow> parse_state" where
  "initial_state p = \<lparr>ns = initial_ns p, seen = [], extras = []\<rparr>"

definition parse_known_args :: "sub_parsers \<Rightarrow> arg_parser \<Rightarrow> string list \<Rightarrow> (namespace \<times> string list) py_res" where
  "parse_known_args sub p argv =
     bind_res (classify (actions p) argv) (\<lambda>args.
     bind_res (arg_loop sub (actions p) (positionals p) args (initial_state p)) (finish_args p))"

definition parse_args :: "sub_parsers \<Rightarrow> arg_parser \<Rightarrow> string list \<Rightarrow> namespace py_res" where
  "parse_args sub p argv =
     bind_res (parse_known_args sub p argv) (\<lambda>(n, ex). if ex = [] then Inr n else Inl (SystemExit 2))"

definition no_subs :: sub_parsers where
  "no_subs name argv = Inl (KeyError name)"

text \<open>Reading the result, where the parser guarantees the kind of the value.\<close>

definition ns_get :: "namespace \<Rightarrow> string \<Rightarrow> yval" where
  "ns_get n k = (case dict_get n k of None \<Rightarrow> YNull | Some v \<Rightarrow> v)"

definition ns_str :: "namespace \<Rightarrow> string \<Rightarrow> string" where
  "ns_str n k = (case ns_get n k of YStr s \<Rightarrow> s | _ \<Rightarrow> [])"

definition ns_opt_str :: "namespace \<Rightarrow> string \<Rightarrow> string option" where
  "ns_opt_str n k = (case ns_get n k of YStr s \<Rightarrow> Some s | _ \<Rightarrow> None)"

definition ns_int :: "namespace \<Rightarrow> string \<Rightarrow> int" where
  "ns_int n k = (case ns_get n k of YInt i \<Rightarrow> i | _ \<Rightarrow> 0)"

definition ns_bool :: "namespace \<Rightarrow> string \<Rightarrow> bool" where
  "ns_bool n k = (ns_get n k = YBool True)"

definition ns_strs :: "namespace \<Rightarrow> string \<Rightarrow> string list" where
  "ns_strs n k = the_strs (ns_get n k)"

section \<open>Command lines of known options\<close>

text \<open>A string that cannot be taken for an option.\<close>

definition plain :: "string \<Rightarrow> bool" where "plain s \<longleftrightarrow> s = [] \<or> hd s \<noteq> CHR ''-''"

lemma parse_plain [simp]: "plain s \<Longrightarrow> parse_optional acts s = Inr None"
  by (auto simp: plain_def parse_optional_def)

lemma plain_not_dashes [simp]: "plain s \<Longrightarrow> s \<noteq> ''--''" "plain s \<Longrightarrow> ''--'' \<noteq> s"
  by (auto simp: plain_def)

abbreviation args_of :: "string list \<Rightarrow> (string \<times> tag) list" where
  "args_of ss \<equiv> map (\<lambda>s. (s, TagA)) ss"

lemma classify_plain [simp]: "list_all plain ss \<Longrightarrow> classify acts ss = Inr (args_of ss)"
  by (induction ss) auto

lemma bind_Inr [simp]: "bind_res m Inr = m"
  by (cases m) auto

lemma classify_plain_append:
  "list_all plain ss \<Longrightarrow> classify acts (ss @ ts) = bind_res (classify acts ts) (\<lambda>r. Inr (args_of ss @ r))"
  by (induction ss) (auto simp: bind_res_assoc)

text \<open>An option as the parser knows it, with its value if it takes one.\<close>

type_synonym item = "action \<times> string \<times> string option"

fun render_item :: "item \<Rightarrow> string list" where
  "render_item (a, opt, v) = opt # (case v of None \<Rightarrow> [] | Some x \<Rightarrow> [x])"

fun tag_item :: "item \<Rightarrow> (string \<times> tag) list" where
  "tag_item (a, opt, v) = (opt, TagO (Some a, opt, False, None)) # (case v of None \<Rightarrow> [] | Some x \<Rightarrow> [(x, TagA)])"

fun item_ok :: "action list \<Rightarrow> item \<Rightarrow> bool" where
  "item_ok acts (a, opt, v) \<longleftrightarrow>
     map_of (option_map acts) opt = Some a \<and> opt \<noteq> ''--'' \<and> \<not> plain opt \<and>
     (case v of None \<Rightarrow> act_nargs a = NZero | Some x \<Rightarrow> act_nargs a = NOne \<and> plain x)"

fun item_action :: "item \<Rightarrow> action \<times> string list" where
  "item_action (a, opt, v) = (a, case v of None \<Rightarrow> [] | Some x \<Rightarrow> [x])"

lemma classify_items:
  "list_all (item_ok acts) is \<Longrightarrow>
     classify acts (concat (map render_item is) @ ss) =
     bind_res (classify acts ss) (\<lambda>r. Inr (concat (map tag_item is) @ r))"
proof (induction "is")
  case (Cons i "is")
  obtain a opt v where i: "i = (a, opt, v)" by (cases i)
  from Cons.prems have k: "map_of (option_map acts) opt = Some a" "opt \<noteq> ''--''" "\<not> plain opt"
    and v: "case v of None \<Rightarrow> True | Some x \<Rightarrow> plain x"
    by (auto simp: i split: option.splits)
  have "parse_optional acts opt = Inr (Some (Some a, opt, False, None))"
    using k by (auto simp: parse_optional_def plain_def)
  with k v Cons show ?case by (cases v) (auto simp: i bind_res_assoc)
qed (simp add: bind_res_assoc)

lemma opt_chain_item:
  assumes "item_ok acts (a, opt, v)"
  shows "opt_chain acts (map snd (tl (tag_item (a, opt, v)) @ rest)) (map fst (tl (tag_item (a, opt, v)) @ rest)) a opt False None =
    Inr ([item_action (a, opt, v)], [], length (tl (tag_item (a, opt, v))))"
  using assms by (cases v) (auto simp: opt_count_def)

lemma arg_loop_item:
  assumes "item_ok acts i"
  shows "arg_loop sub acts pos (tag_item i @ rest) s =
    bind_res (take_all sub [item_action i] s) (\<lambda>t. arg_loop sub acts pos rest t)"
proof -
  obtain a opt v where i: "i = (a, opt, v)" by (cases i)
  have t: "tag_item i @ rest = (opt, TagO (Some a, opt, False, None)) # (tl (tag_item i) @ rest)" by (simp add: i)
  have "take_optional sub acts opt (Some a, opt, False, None) (tl (tag_item i) @ rest) (s\<lparr>extras := extras s @ []\<rparr>) =
      bind_res (take_all sub [item_action i] s) (\<lambda>u. Inr (length (tl (tag_item i)), u))"
    using opt_chain_item [OF assms [unfolded i], of rest] by (simp add: take_optional_def i)
  then show ?thesis
    unfolding t by (subst arg_loop.simps) (auto simp: bind_res_def split: sum.split)
qed

lemma arg_loop_items:
  "list_all (item_ok acts) is \<Longrightarrow>
     arg_loop sub acts pos (concat (map tag_item is) @ rest) s =
     bind_res (take_all sub (map item_action is) s) (\<lambda>t. arg_loop sub acts pos rest t)"
proof (induction "is" arbitrary: s)
  case (Cons i "is")
  then show ?case
    by (simp add: arg_loop_item take_all_def bind_res_assoc)
qed (simp add: take_all_def)

text \<open>After the last option: everything left goes to the positional arguments.\<close>

lemma arg_loop_end:
  "arg_loop sub acts pos (args_of ss) s =
     bind_res (take_positionals sub pos (args_of ss) s) (\<lambda>(pos', n, t).
       Inr (t\<lparr>extras := extras t @ drop n ss\<rparr>))"
proof -
  have d: "dropWhile (\<lambda>(str, t). \<not> is_opt t) (args_of ss) = []" by (induction ss) auto
  have "map fst (drop n (args_of ss)) = drop n ss" for n by (simp add: drop_map comp_def)
  then show ?thesis by (subst arg_loop.simps, subst d) simp
qed

text \<open>A whole command line of that shape.\<close>

lemma parse_known_rendered:
  assumes "list_all (item_ok (actions p)) is" "list_all plain ss"
  shows "parse_known_args sub p (concat (map render_item is) @ ss) =
    bind_res (take_all sub (map item_action is) (initial_state p)) (\<lambda>s.
    bind_res (take_positionals sub (positionals p) (args_of ss) s) (\<lambda>(pos', n, t).
      finish_args p (t\<lparr>extras := extras t @ drop n ss\<rparr>)))"
  unfolding parse_known_args_def
  by (simp add: classify_items [OF assms(1)] assms(2) arg_loop_items [OF assms(1)] arg_loop_end bind_res_assoc case_prod_unfold)

lemma take_positionals_Nil [simp]: "take_positionals sub [] args s = Inr ([], 0, s)"
  by (simp add: take_positionals_def match_partial_def take_all_def)

section \<open>Positional arguments at the end\<close>

text \<open>With nothing but arguments, each positional argument takes one string, and an open one the rest.\<close>

lemma takeWhile_args [simp]:
  "takeWhile is_dash (replicate n TagA) = []" "takeWhile (\<lambda>t. \<not> is_opt t) (replicate n TagA) = replicate n TagA"
  "takeWhile is_arg (replicate n TagA) = replicate n TagA"
  by (induction n) auto

lemma pos_counts_args:
  "pos_counts NOne (TagA # replicate n TagA) = [1]" "pos_counts NOne [] = []"
  "pos_counts NStar (replicate n TagA) = rev [0..<Suc n]"
  "pos_counts NPlus (TagA # replicate n TagA) = rev (map Suc [0..<Suc n])" "pos_counts NPlus [] = []"
  by (simp_all add: pos_counts_def)

lemma first_some_hd: "f x = Some y \<Longrightarrow> first_some f (x # xs) = Some y"
  by simp

lemma match_ones:
  "match_positionals (replicate k NOne @ nas) (replicate n TagA) =
     (if k \<le> n then map_option ((@) (replicate k 1)) (match_positionals nas (replicate (n - k) TagA)) else None)"
proof (induction k arbitrary: n)
  case (Suc k)
  show ?case
  proof (cases n)
    case (Suc m)
    then show ?thesis
      using Suc.IH [of m] pos_counts_args(1) [of m] by (auto simp: option.map_comp comp_def split: option.split)
  qed (simp add: pos_counts_args)
next
  case 0
  show ?case by (cases "match_positionals nas (replicate n TagA)") simp_all
qed

lemma match_rest:
  "match_positionals [] (replicate n TagA) = Some []"
  "match_positionals [NStar] (replicate n TagA) = Some [n]"
  "match_positionals [NPlus] (replicate n TagA) = (if n = 0 then None else Some [n])"
  by (simp_all add: pos_counts_args) (cases n; simp add: pos_counts_args)

lemma first_some_miss: "list_all (\<lambda>x. f x = None) xs \<Longrightarrow> first_some f (xs @ ys) = first_some f ys"
  by (induction xs) auto

lemma match_partial_all:
  assumes "match_positionals nas ts = Some cs" "nas \<noteq> []"
  shows "match_partial nas ts = cs"
proof -
  have "rev [1..<length nas + 1] = length nas # rev [1..<length nas]" using assms(2) by (cases nas) simp_all
  then show ?thesis using assms(1) by (simp add: match_partial_def)
qed

lemma match_partial_Nil [simp]: "match_partial [] ts = []"
  by (simp add: match_partial_def)

text \<open>Too few strings for the single arguments: each string goes to one of them.\<close>

lemma match_partial_few:
  assumes "n < k"
  shows "match_partial (replicate k NOne @ nas) (replicate n TagA) = replicate n 1"
proof -
  let ?f = "\<lambda>i. match_positionals (take i (replicate k NOne @ nas)) (replicate n TagA)"
  have none: "?f i = None" if "n < i" for i
  proof -
    have "take i (replicate k NOne @ nas) = replicate (min i k) NOne @ take (i - k) nas" by simp
    then show ?thesis using that assms match_ones [of "min i k" "take (i - k) nas" n] by simp
  qed
  have some: "?f n = Some (replicate n 1)"
    using match_ones [of n "[]" n] assms by (simp add: min_def)
  let ?N = "k + length nas"
  have split: "rev [1..<?N + 1] = rev [Suc n..<?N + 1] @ rev [1..<Suc n]"
    using assms upt_add_eq_append [of 1 "Suc n" "?N - n"] by (simp flip: rev_append)
  have "first_some ?f (rev [1..<?N + 1]) = first_some ?f (rev [1..<Suc n])"
    unfolding split
  proof (rule first_some_miss, unfold list_all_iff, rule ballI)
    fix i assume "i \<in> set (rev [Suc n..<?N + 1])"
    then have "n < i" by auto
    then show "?f i = None" by (rule none)
  qed
  also have "\<dots> = (if n = 0 then None else Some (replicate n 1))" using some by (cases n) simp_all
  finally show ?thesis by (simp add: match_partial_def)
qed

text \<open>The strings of each action.\<close>

lemma args_tags: "map snd (args_of ss) = replicate (length ss) TagA"
  by (induction ss) auto

lemma args_strings: "map fst (take n (drop m (args_of ss))) = take n (drop m ss)"
  by (simp add: drop_map take_map comp_def)

lemma take_positionals_counts:
  assumes "match_partial (map act_nargs pos) (replicate (length ss) TagA) = cs"
  shows "take_positionals sub pos (args_of ss) s =
    bind_res (take_all sub (map (\<lambda>i. (pos ! i, take (cs ! i) (drop (sum_list (take i cs)) ss))) [0..<length cs]) s)
      (\<lambda>t. Inr (drop (length cs) pos, sum_list cs, t))"
  unfolding take_positionals_def Let_def args_tags assms args_strings ..

lemma slices_ones:
  assumes "length pos = k" "k \<le> length ss"
  shows "map (\<lambda>i. (pos ! i, take (replicate k 1 ! i) (drop (sum_list (take i (replicate k (1::nat)))) ss))) [0..<k] =
    map (\<lambda>(a, x). (a, [x])) (zip pos ss)"
proof (rule nth_equalityI)
  fix i assume "i < length (map (\<lambda>i. (pos ! i, take (replicate k 1 ! i)
      (drop (sum_list (take i (replicate k (1::nat)))) ss))) [0..<k])"
  then have i: "i < k" by simp
  then have "drop i ss = ss ! i # drop (Suc i) ss" using assms(2) by (simp add: Cons_nth_drop_Suc)
  then show "map (\<lambda>i. (pos ! i, take (replicate k 1 ! i) (drop (sum_list (take i (replicate k (1::nat)))) ss))) [0..<k] ! i =
      map (\<lambda>(a, x). (a, [x])) (zip pos ss) ! i"
    using i assms by (simp add: sum_list_replicate)
qed (use assms in simp)

lemma take_positionals_ones:
  assumes "list_all (\<lambda>a. act_nargs a = NOne) pos" "length pos \<le> length ss"
  shows "take_positionals sub pos (args_of ss) s =
    bind_res (take_all sub (map (\<lambda>(a, x). (a, [x])) (zip pos ss)) s) (\<lambda>t. Inr ([], length pos, t))"
proof -
  have n: "map act_nargs pos = replicate (length pos) NOne"
    using assms(1) by (induction pos) auto
  have c: "match_partial (map act_nargs pos) (replicate (length ss) TagA) = replicate (length pos) 1"
  proof (cases pos)
    case (Cons a as)
    have "match_positionals (replicate (length pos) NOne @ []) (replicate (length ss) TagA) =
        Some (replicate (length pos) 1)"
      using match_ones [of "length pos" "[]" "length ss"] assms(2) by (simp add: match_rest)
    then show ?thesis using n Cons by (intro match_partial_all) simp_all
  qed simp
  show ?thesis
    unfolding take_positionals_counts [OF c] length_replicate slices_ones [OF refl assms(2)]
    by (simp add: sum_list_replicate)
qed

lemma take_positionals_rest:
  assumes "list_all (\<lambda>a. act_nargs a = NOne) pos" "length pos \<le> length ss"
    "act_nargs r = NStar \<or> act_nargs r = NPlus \<and> length pos < length ss"
  shows "take_positionals sub (pos @ [r]) (args_of ss) s =
    bind_res (take_all sub (map (\<lambda>(a, x). (a, [x])) (zip pos ss) @ [(r, drop (length pos) ss)]) s)
      (\<lambda>t. Inr ([], length ss, t))"
proof -
  let ?k = "length pos" and ?m = "length ss - length pos"
  let ?cs = "replicate ?k 1 @ [?m]"
  have n: "map act_nargs (pos @ [r]) = replicate ?k NOne @ [act_nargs r]"
    using assms(1) by (induction pos) auto
  have "match_positionals [act_nargs r] (replicate ?m TagA) = Some [?m]"
    using assms(3) by (auto simp del: match_positionals.simps simp: match_rest)
  then have "match_positionals (map act_nargs (pos @ [r])) (replicate (length ss) TagA) = Some ?cs"
    unfolding n using match_ones [of ?k "[act_nargs r]" "length ss"] assms(2) by simp
  then have c: "match_partial (map act_nargs (pos @ [r])) (replicate (length ss) TagA) = ?cs"
    by (rule match_partial_all) simp
  have "map (\<lambda>i. ((pos @ [r]) ! i, take (?cs ! i) (drop (sum_list (take i ?cs)) ss))) [0..<Suc ?k] =
        map (\<lambda>i. (pos ! i, take (replicate ?k 1 ! i) (drop (sum_list (take i (replicate ?k (1::nat)))) ss))) [0..<?k] @
        [(r, drop ?k ss)]"
    by (simp add: nth_append sum_list_replicate)
  then have "map (\<lambda>i. ((pos @ [r]) ! i, take (?cs ! i) (drop (sum_list (take i ?cs)) ss))) [0..<length ?cs] =
      map (\<lambda>(a, x). (a, [x])) (zip pos ss) @ [(r, drop ?k ss)]"
    unfolding slices_ones [OF refl assms(2)] by simp
  then show ?thesis
    using assms(2) by (simp only: take_positionals_counts [OF c]) (simp add: sum_list_replicate)
qed

section \<open>Looking up the result\<close>

lemma dict_get_set_all: "dict_get (set_all new n) k = (case map_of (rev new) k of Some v \<Rightarrow> Some v | None \<Rightarrow> dict_get n k)"
  unfolding set_all_def
proof (induction new arbitrary: n)
  case (Cons kv new)
  obtain k' v where kv: "kv = (k', v)" by (cases kv)
  show ?case using Cons.IH [of "dict_set k' v n"]
    by (simp add: kv map_add_def dict_get_set split: option.splits)
qed simp

section \<open>Options that store their value\<close>

fun stored :: "item \<Rightarrow> bool" where
  "stored (a, opt, v) = (case v of None \<Rightarrow> kind a = StoreTrue | Some x \<Rightarrow> kind a = Store)"

text \<open>The value that an option gives to its attribute.\<close>

fun item_pair :: "item \<Rightarrow> (string \<times> yval) py_res" where
  "item_pair (a, opt, v) =
     (case v of
        None \<Rightarrow> Inr (act_dest a, YBool True)
      | Some x \<Rightarrow> bind_res (checked_value a x) (\<lambda>y. Inr (act_dest a, y)))"

definition store_pairs :: "(string \<times> yval) list \<Rightarrow> parse_state \<Rightarrow> parse_state" where
  "store_pairs kvs s = s\<lparr>seen := rev (map fst kvs) @ seen s, ns := set_all kvs (ns s)\<rparr>"

lemma option_of_action: "map_of (option_map acts) opt = Some a \<Longrightarrow> opt \<in> set (option_strings a) \<and> a \<in> set acts"
  by (auto simp: option_map_def dest!: map_of_SomeD)

lemma take_item:
  assumes "item_ok acts i" "stored i"
  shows "take_all sub [item_action i] s = bind_res (item_pair i) (\<lambda>p. Inr (store_pairs [p] s))"
proof -
  obtain a opt v where i: "i = (a, opt, v)" by (cases i)
  have "option_strings a \<noteq> []" using option_of_action [of acts opt a] assms(1) by (auto simp: i)
  then show ?thesis using assms
    by (cases v) (auto simp: i take_action_def get_values_def store_pairs_def set_all_def bind_res_assoc)
qed

lemma store_pairs_Cons: "store_pairs kvs (store_pairs [p] s) = store_pairs (p # kvs) s"
  by (simp add: store_pairs_def set_all_def)

lemma take_items:
  "list_all (item_ok acts) is \<Longrightarrow> list_all stored is \<Longrightarrow>
     take_all sub (map item_action is) s = bind_res (map_res item_pair is) (\<lambda>kvs. Inr (store_pairs kvs s))"
proof (induction "is" arbitrary: s)
  case Nil
  show ?case by (simp add: store_pairs_def set_all_def)
next
  case (Cons i "is")
  have "take_all sub (map item_action (i # is)) s =
      bind_res (take_all sub [item_action i] s) (take_all sub (map item_action is))"
    by (cases "item_action i") (simp add: take_all_Cons)
  also have "\<dots> = bind_res (item_pair i) (\<lambda>p. take_all sub (map item_action is) (store_pairs [p] s))"
    using Cons.prems by (simp add: take_item [of acts] bind_res_assoc)
  also have "\<dots> = bind_res (map_res item_pair (i # is)) (\<lambda>kvs. Inr (store_pairs kvs s))"
    using Cons.prems by (simp add: Cons.IH bind_res_assoc store_pairs_Cons)
  finally show ?case .
qed

lemma parse_stored:
  assumes "list_all (item_ok (actions p)) is" "list_all stored is" "positionals p = []"
  shows "parse_known_args sub p (concat (map render_item is)) =
    bind_res (map_res item_pair is) (\<lambda>kvs. finish_args p (store_pairs kvs (initial_state p)))"
  using parse_known_rendered [OF assms(1), of "[]" sub]
  by (simp add: assms(3) take_items [OF assms(1,2)] bind_res_assoc)

section \<open>Evaluation\<close>

lemmas add_argument_defs = help_action_def opt_arg_def flag_arg_def append_arg_def pos_arg_def sub_arg_def

lemmas arg_eval =
  add_argument_defs take_all_def take_action_def get_values_def checked_value_def arg_value_def check_value_def
  positionals_def initial_state_def initial_ns_def finish_args_def all_required_def convert_default_def
  str_conv_def the_strs_def dict_set_def dict_has_def dict_get_def set_all_def

end
