(* ===== verification/Ibex_Config.thy ===== *)
theory Ibex_Config
  imports Py_Shell Py_Value Py_Args
begin

text \<open>
  The configuration tool \<^verbatim>\<open>util/ibex_config.py\<close>: checking the file of configurations, choosing one, and
  printing its parameters as options of fusesoc or of a simulator.

  The YAML loader is a parameter: it takes the text of the file and returns a value or the message of
  its error. The order in which Python lists the elements of a set is a parameter too.

  The lemmas say when a file is accepted, that a printed command line is read back by a shell as the
  list of options, and that the options of the two phases of a simulator share out the parameters.
\<close>

section \<open>Checking\<close>

fun scalar :: "yval \<Rightarrow> bool" where
  "scalar (YInt _) = True"
| "scalar (YStr _) = True"
| "scalar (YBool _) = True"
| "scalar _ = False"

fun verify_items :: "yval \<Rightarrow> (yval \<times> yval) list \<Rightarrow> unit py_res" where
  "verify_items name [] = Inr ()"
| "verify_items name ((k, v) # items) =
     (if scalar v then verify_items name items
      else bind_res (as_str k) (\<lambda>ks. bind_res (as_str name) (\<lambda>ns.
             Inl (ConfigException (''Parameter '' @ ks @ '' for config '' @ ns @
                    '' must be string, int or bool got '' @ type_str v)))))"

definition verify_config :: "yval \<Rightarrow> yval \<Rightarrow> unit py_res" where
  "verify_config name config_dict =
     (case config_dict of
        YMap items \<Rightarrow> verify_items name items
      | _ \<Rightarrow> bind_res (as_str name) (\<lambda>ns.
               Inl (ConfigException (''Config '' @ ns @ '' must have dictionary giving parameters''))))"

definition sym_diff :: "'a list \<Rightarrow> 'a list \<Rightarrow> 'a list" where
  "sym_diff a b = filter (\<lambda>x. x \<notin> set b) a @ filter (\<lambda>x. x \<notin> set a) b"

text \<open>The parameters of a configuration that passed \<^const>\<open>verify_config\<close>.\<close>

definition config_items :: "yval \<Rightarrow> (yval \<times> yval) list py_res" where
  "config_items c = (case c of YMap items \<Rightarrow> Inr items | _ \<Rightarrow> Inl AttributeError)"

text \<open>The loop with its variables \<^verbatim>\<open>first\<close> and \<^verbatim>\<open>parameters\<close>: \<open>None\<close> is the first turn.\<close>

fun verify_params ::
  "(yval list \<Rightarrow> yval list) \<Rightarrow> yval list option \<Rightarrow> (yval \<times> yval) list \<Rightarrow> unit py_res" where
  "verify_params ord ps [] = Inr ()"
| "verify_params ord ps ((name, c) # rest) =
     bind_res (config_items c) (\<lambda>items.
       (case ps of
          None \<Rightarrow> verify_params ord (Some (map fst items)) rest
        | Some parameters \<Rightarrow>
            (let diff = sym_diff parameters (map fst items) in
             if diff \<noteq> []
             then bind_res (as_str name) (\<lambda>ns. bind_res (map_res as_str (ord diff)) (\<lambda>ds.
                    Inl (ConfigException (''Config '' @ ns @ '' has differing parameters '' @
                           py_join '','' ds))))
             else verify_params ord ps rest)))"

definition verify_config_parameters ::
  "(yval list \<Rightarrow> yval list) \<Rightarrow> (yval \<times> yval) list \<Rightarrow> unit py_res" where
  "verify_config_parameters ord config_dicts = verify_params ord None config_dicts"

fun verify_all :: "(yval \<times> yval) list \<Rightarrow> unit py_res" where
  "verify_all [] = Inr ()"
| "verify_all ((k, v) # rest) = bind_res (verify_config k v) (\<lambda>_. verify_all rest)"

definition get_config_dicts ::
  "(string \<Rightarrow> string + yval) \<Rightarrow> (yval list \<Rightarrow> yval list) \<Rightarrow> string \<Rightarrow> (yval \<times> yval) list py_res" where
  "get_config_dicts yaml_load ord config_file =
     (case yaml_load config_file of
        Inl e \<Rightarrow> Inl (ConfigException (''Could not decode yaml:'' @ [CHR 0x0A] @ e))
      | Inr (YMap config_yaml) \<Rightarrow>
          bind_res (verify_all config_yaml) (\<lambda>_.
          bind_res (verify_config_parameters ord config_yaml) (\<lambda>_. Inr config_yaml))
      | Inr _ \<Rightarrow> Inl AttributeError)"

section \<open>Choosing a configuration\<close>

definition default_config_file :: string where "default_config_file = ''ibex_configs.yaml''"

definition get_config_file_location :: "(string \<Rightarrow> string option) \<Rightarrow> string" where
  "get_config_file_location environ =
     (case environ ''IBEX_CONFIG_FILE'' of None \<Rightarrow> default_config_file | Some f \<Rightarrow> f)"

text \<open>The text on the error stream, and the configuration or the exception that leaves the function.\<close>

definition parse_config ::
  "(string \<Rightarrow> string + yval) \<Rightarrow> (yval list \<Rightarrow> yval list) \<Rightarrow> (string \<Rightarrow> string option) \<Rightarrow>
   string \<Rightarrow> string \<Rightarrow> string \<times> yval py_res" where
  "parse_config yaml_load ord fs config_name config_filename =
     (let nl = [CHR 0x0A] in
      case fs config_filename of
        None \<Rightarrow> (''ERROR: could not find configuration file '' @ py_repr config_filename @ ''.'' @ nl,
                 Inl (SystemExit 1))
      | Some content \<Rightarrow>
          (case get_config_dicts yaml_load ord content of
             Inl (ConfigException ce) \<Rightarrow>
               (''ERROR: failure to process configuration from '' @ py_repr config_filename @
                '' ConfigException('' @ py_repr ce @ '').'' @ nl, Inl (SystemExit 1))
           | Inl e \<Rightarrow> ([], Inl e)
           | Inr config_dicts \<Rightarrow>
               (case dict_get config_dicts (YStr config_name) of
                  None \<Rightarrow> (''ERROR: configuration '' @ py_repr config_name @ '' not found in '' @
                           py_repr config_filename @ ''.'' @ nl, Inl (SystemExit 1))
                | Some c \<Rightarrow> ([], Inr c))))"

section \<open>Printing options\<close>

definition str_bool :: "bool \<Rightarrow> string" where
  "str_bool b = (if b then ''True'' else ''False'')"

text \<open>\<^verbatim>\<open>str(value)\<close> for the values that a checked configuration can hold.\<close>

definition str_scalar :: "yval \<Rightarrow> string py_res" where
  "str_scalar v =
     (case v of YInt i \<Rightarrow> Inr (int_str i) | YStr s \<Rightarrow> Inr s | YBool b \<Rightarrow> Inr (str_bool b)
      | _ \<Rightarrow> Inl TypeError)"

text \<open>The options before quoting.\<close>

fun fusesoc_list :: "(yval \<times> yval) list \<Rightarrow> string list py_res" where
  "fusesoc_list [] = Inr []"
| "fusesoc_list ((p, v) # rest) =
     bind_res (case v of
                 YBool True \<Rightarrow> bind_res (as_str p) (\<lambda>ps. Inr [''--'' @ ps])
               | YBool False \<Rightarrow> Inr []
               | _ \<Rightarrow> bind_res (as_str p) (\<lambda>ps. bind_res (str_scalar v) (\<lambda>vs.
                        Inr [''--'' @ ps @ ''='' @ vs])))
       (\<lambda>os. bind_res (fusesoc_list rest) (\<lambda>r. Inr (os @ r)))"

definition quote_join :: "string list \<Rightarrow> string" where
  "quote_join os = py_join '' '' (map shlex_quote os)"

definition fusesoc_output :: "(yval \<times> yval) list \<Rightarrow> string py_res" where
  "fusesoc_output config_dict = bind_res (fusesoc_list config_dict) (\<lambda>os. Inr (quote_join os))"

record SimOpts =
  cmd_name :: string
  description :: string
  param_set_fn :: "string \<Rightarrow> string \<Rightarrow> string option"
  define_set_fn :: "string \<Rightarrow> string \<Rightarrow> string option"
  hierarchy_sep :: string

record out_args =
  ins_hier_path :: string
  string_define_prefix :: string

definition truthy :: "string option \<Rightarrow> string list" where
  "truthy o1 = (case o1 of None \<Rightarrow> [] | Some s \<Rightarrow> if s = [] then [] else [s])"

definition hier_prefix :: "SimOpts \<Rightarrow> out_args \<Rightarrow> string" where
  "hier_prefix so args =
     (if ins_hier_path args \<noteq> [] then ins_hier_path args @ hierarchy_sep so else [])"

definition simopt :: "SimOpts \<Rightarrow> out_args \<Rightarrow> yval \<times> yval \<Rightarrow> string list py_res" where
  "simopt so args pv =
     bind_res (as_str (fst pv)) (\<lambda>parameter.
       case snd pv of
         YStr value \<Rightarrow> Inr (truthy (define_set_fn so (string_define_prefix args @ parameter) value))
       | v \<Rightarrow>
           bind_res (case v of YBool b \<Rightarrow> Inr (if b then ''1'' else ''0'') | _ \<Rightarrow> str_scalar v)
             (\<lambda>val_str. Inr (truthy (param_set_fn so (hier_prefix so args @ parameter) val_str))))"

definition simopts_list :: "SimOpts \<Rightarrow> out_args \<Rightarrow> (yval \<times> yval) list \<Rightarrow> string list py_res" where
  "simopts_list so args config_dict =
     bind_res (map_res (simopt so args) config_dict) (\<lambda>oss. Inr (concat oss))"

definition simopts_output :: "SimOpts \<Rightarrow> out_args \<Rightarrow> (yval \<times> yval) list \<Rightarrow> string py_res" where
  "simopts_output so args config_dict =
     bind_res (simopts_list so args config_dict) (\<lambda>os. Inr (quote_join os))"

section \<open>The outputters\<close>

abbreviation set_as :: "string \<Rightarrow> string \<Rightarrow> string \<Rightarrow> string option" where
  "set_as pre \<equiv> (\<lambda>p v. Some (pre @ p @ ''='' @ v))"

definition simulators :: "SimOpts list" where
  "simulators =
     [\<lparr>cmd_name = ''vcs_opts'', description = ''VCS compile'', param_set_fn = set_as ''-pvalue+'',
       define_set_fn = set_as ''+define+'', hierarchy_sep = ''.''\<rparr>,
      \<lparr>cmd_name = ''riviera_sim_opts'', description = ''Riviera simulate'', param_set_fn = set_as ''-g/'',
       define_set_fn = (\<lambda>d v. None), hierarchy_sep = ''/''\<rparr>,
      \<lparr>cmd_name = ''riviera_compile_opts'', description = ''Riviera compile'', param_set_fn = (\<lambda>p v. None),
       define_set_fn = set_as ''+define+'', hierarchy_sep = ''/''\<rparr>,
      \<lparr>cmd_name = ''questa_sim_opts'', description = ''Questa simulate'', param_set_fn = set_as ''-g/'',
       define_set_fn = (\<lambda>d v. None), hierarchy_sep = ''/''\<rparr>,
      \<lparr>cmd_name = ''questa_compile_opts'', description = ''Questa compile'', param_set_fn = (\<lambda>p v. None),
       define_set_fn = set_as ''+define+'', hierarchy_sep = ''/''\<rparr>,
      \<lparr>cmd_name = ''xlm_opts'', description = ''Xcelium compile'', param_set_fn = set_as ''-defparam '',
       define_set_fn = set_as ''-define '', hierarchy_sep = ''.''\<rparr>,
      \<lparr>cmd_name = ''dsim_compile_opts'', description = ''DSim compile'', param_set_fn = set_as ''+define+'',
       define_set_fn = (\<lambda>d v. None), hierarchy_sep = ''/''\<rparr>]"

text \<open>The chosen output function; \<^verbatim>\<open>argparse\<close> exits with status 2 on a name it does not know.\<close>

definition output_fn :: "string \<Rightarrow> out_args \<Rightarrow> (yval \<times> yval) list \<Rightarrow> string py_res" where
  "output_fn name args config_dict =
     (if name = ''fusesoc_opts'' then fusesoc_output config_dict
      else (case find (\<lambda>so. cmd_name so = name) simulators of
              None \<Rightarrow> Inl (SystemExit 2)
            | Some so \<Rightarrow> simopts_output so args config_dict))"

text \<open>
  The program over its parsed arguments: output format, configuration, file name if given. The result
  is the text on the standard output and the error stream, or the exception.
\<close>

definition ibex_config_main ::
  "(string \<Rightarrow> string + yval) \<Rightarrow> (yval list \<Rightarrow> yval list) \<Rightarrow> (string \<Rightarrow> string option) \<Rightarrow>
   (string \<Rightarrow> string option) \<Rightarrow> string option \<Rightarrow> out_args \<Rightarrow> string \<Rightarrow> string option \<Rightarrow>
   (string \<times> string) \<times> unit py_res" where
  "ibex_config_main yaml_load ord fs environ fmt args config_name filename =
     (case fmt of
        None \<Rightarrow> ((''ERROR: No output format specified.'' @ [CHR 0x0A], []), Inl (SystemExit 1))
      | Some name \<Rightarrow>
          (if name \<noteq> ''fusesoc_opts'' \<and> find (\<lambda>so. cmd_name so = name) simulators = None
           then (([], []), Inl (SystemExit 2))
           else
             (let f = (case filename of None \<Rightarrow> get_config_file_location environ | Some f \<Rightarrow> f) in
              case parse_config yaml_load ord fs config_name f of
                (err, Inl e) \<Rightarrow> (([], err), Inl e)
              | (err, Inr c) \<Rightarrow>
                  (case bind_res (config_items c) (output_fn name args) of
                     Inl e \<Rightarrow> (([], err), Inl e)
                   | Inr out \<Rightarrow> ((out @ [CHR 0x0A], err), Inr ())))))"

section \<open>The command line\<close>

definition outputter_names :: "string list" where
  "outputter_names = ''fusesoc_opts'' # map cmd_name simulators"

definition ibex_config_parser :: "(string \<Rightarrow> string option) \<Rightarrow> arg_parser" where
  "ibex_config_parser environ =
     \<lparr>actions =
        [help_action, pos_arg ''config_name'' NOne,
         (opt_arg [''--config_filename''] ''config_filename'')\<lparr>act_default := YStr (get_config_file_location environ)\<rparr>,
         sub_arg ''output_fn'' outputter_names],
      parser_defaults = []\<rparr>"

text \<open>
  The parser that each outputter adds. The default that it sets for \<^verbatim>\<open>output_fn\<close>, its own method, is
  represented by its name.
\<close>

definition fusesoc_setup_args :: arg_parser where
  "fusesoc_setup_args = \<lparr>actions = [help_action], parser_defaults = [(''output_fn'', YStr ''fusesoc_opts'')]\<rparr>"

definition sim_setup_args :: "SimOpts \<Rightarrow> arg_parser" where
  "sim_setup_args so =
     \<lparr>actions =
        [help_action, (opt_arg [''--ins_hier_path''] ''ins_hier_path'')\<lparr>act_default := YStr []\<rparr>,
         (opt_arg [''--string_define_prefix''] ''string_define_prefix'')\<lparr>act_default := YStr []\<rparr>],
      parser_defaults = [(''output_fn'', YStr (cmd_name so))]\<rparr>"

definition ibex_config_subs :: sub_parsers where
  "ibex_config_subs name argv =
     (if name = ''fusesoc_opts'' then parse_known_args no_subs fusesoc_setup_args argv
      else (case find (\<lambda>so. cmd_name so = name) simulators of
              None \<Rightarrow> Inl (KeyError name)
            | Some so \<Rightarrow> parse_known_args no_subs (sim_setup_args so) argv))"

text \<open>The program from the strings after its name; the texts that \<^verbatim>\<open>argparse\<close> prints are left out.\<close>

definition ibex_config_cli ::
  "(string \<Rightarrow> string + yval) \<Rightarrow> (yval list \<Rightarrow> yval list) \<Rightarrow> (string \<Rightarrow> string option) \<Rightarrow>
   (string \<Rightarrow> string option) \<Rightarrow> string list \<Rightarrow> (string \<times> string) \<times> unit py_res" where
  "ibex_config_cli yaml_load ord fs environ argv =
     (case parse_args ibex_config_subs (ibex_config_parser environ) argv of
        Inl e \<Rightarrow> (([], []), Inl e)
      | Inr n \<Rightarrow>
          ibex_config_main yaml_load ord fs environ (ns_opt_str n ''output_fn'')
            \<lparr>ins_hier_path = ns_str n ''ins_hier_path'', string_define_prefix = ns_str n ''string_define_prefix''\<rparr>
            (ns_str n ''config_name'') (Some (ns_str n ''config_filename'')))"

text \<open>The options of an output format, in the order of the source, are read back by its parser.\<close>

lemma parse_sim_args:
  assumes "plain hier" "plain pre"
  shows "parse_known_args no_subs (sim_setup_args so) [''--ins_hier_path'', hier, ''--string_define_prefix'', pre] =
    Inr ([(''ins_hier_path'', YStr hier), (''string_define_prefix'', YStr pre), (''output_fn'', YStr (cmd_name so))], [])"
proof -
  let ?acts = "actions (sim_setup_args so)"
  let ?is = "[(?acts ! 1, ''--ins_hier_path'', Some hier), (?acts ! 2, ''--string_define_prefix'', Some pre)]"
  have ok: "list_all (item_ok ?acts) ?is"
    using assms by (simp add: sim_setup_args_def option_map_def help_action_def opt_arg_def plain_def)
  show ?thesis
    using parse_known_rendered [OF ok, of "[]" no_subs] by (simp add: arg_eval sim_setup_args_def)
qed

text \<open>
  The whole command line, as the generator of makefile fragments writes it: the main parser does not
  know the options of the format and leaves them, with everything after its name, to the sub-parser.
\<close>

abbreviation file_arg :: "(string \<Rightarrow> string option) \<Rightarrow> action" where
  "file_arg environ \<equiv> (opt_arg [''--config_filename''] ''config_filename'')\<lparr>act_default := YStr (get_config_file_location environ)\<rparr>"

abbreviation config_acts :: "(string \<Rightarrow> string option) \<Rightarrow> string list \<Rightarrow> action list" where
  "config_acts environ names \<equiv>
     [help_action, pos_arg ''config_name'' NOne, file_arg environ, sub_arg ''output_fn'' names]"

abbreviation sim_tags :: "string \<Rightarrow> string \<Rightarrow> string \<Rightarrow> (string \<times> tag) list" where
  "sim_tags c hier pre \<equiv>
     [(c, TagA), (''--ins_hier_path'', TagO (None, ''--ins_hier_path'', False, None)), (hier, TagA),
      (''--string_define_prefix'', TagO (None, ''--string_define_prefix'', False, None)), (pre, TagA)]"

lemma config_classified:
  assumes "plain config" "plain file" "plain hier" "plain pre" "plain c"
  shows "classify (config_acts environ names)
      [config, ''--config_filename'', file, c, ''--ins_hier_path'', hier, ''--string_define_prefix'', pre] =
    Inr ((config, TagA) # (''--config_filename'', TagO (Some (file_arg environ), ''--config_filename'', False, None)) #
      (file, TagA) # sim_tags c hier pre)"
proof -
  have "parse_optional (config_acts environ names) ''--ins_hier_path'' = Inr (Some (None, ''--ins_hier_path'', False, None))"
    "parse_optional (config_acts environ names) ''--string_define_prefix'' =
      Inr (Some (None, ''--string_define_prefix'', False, None))"
    by (simp_all add: parse_optional_def option_map_def option_tuples_def add_argument_defs split_once_def is_negative_def
        prefix_def is_digit_def code_def)
  moreover have "parse_optional (config_acts environ names) ''--config_filename'' =
      Inr (Some (Some (file_arg environ), ''--config_filename'', False, None))"
    by (simp add: parse_optional_def option_map_def add_argument_defs)
  ultimately show ?thesis by (simp add: assms)
qed

text \<open>The three rounds of the loop: the name, the option, and the sub-command with all that follows.\<close>

lemma config_loop:
  fixes environ names
  defines "acts \<equiv> config_acts environ names" and "P \<equiv> pos_arg ''config_name'' NOne" and "Q \<equiv> sub_arg ''output_fn'' names"
  assumes "plain file"
  shows "arg_loop ibex_config_subs acts [P, Q]
      ((config, TagA) # (''--config_filename'', TagO (Some (file_arg environ), ''--config_filename'', False, None)) #
        (file, TagA) # sim_tags c hier pre) s =
    bind_res (take_action ibex_config_subs P [config] s) (\<lambda>t.
      bind_res (take_action ibex_config_subs (file_arg environ) [file] t)
        (take_action ibex_config_subs Q (map fst (sim_tags c hier pre))))"
proof -
  let ?rest = "sim_tags c hier pre" and ?opt = "(file_arg environ, ''--config_filename'', Some file)"
  have "take_positionals ibex_config_subs [Q] ?rest s =
      bind_res (take_action ibex_config_subs Q (map fst ?rest) s) (\<lambda>t. Inr ([], 5, t))" for s
    by (simp add: Q_def take_positionals_def match_partial_def pos_counts_def add_argument_defs Let_def eval_nat_numeral)
  moreover have "arg_loop ibex_config_subs acts [] [] s = Inr s" for s
    using arg_loop_end [of _ _ "[]" "[]"] by simp
  ultimately have "arg_loop ibex_config_subs acts [Q] ?rest s = take_action ibex_config_subs Q (map fst ?rest) s" for s
    by (subst arg_loop.simps) (simp add: bind_res_def split: sum.split)
  moreover have "arg_loop ibex_config_subs acts [Q]
      ((''--config_filename'', TagO (Some (file_arg environ), ''--config_filename'', False, None)) # (file, TagA) # ?rest) s =
      bind_res (take_action ibex_config_subs (file_arg environ) [file] s) (arg_loop ibex_config_subs acts [Q] ?rest)" for s
    using arg_loop_item [of acts ?opt ibex_config_subs "[Q]" ?rest s] assms
    by (simp add: option_map_def add_argument_defs plain_def)
  ultimately show ?thesis
    by (subst arg_loop.simps)
       (auto simp: P_def Q_def take_positionals_def match_partial_def pos_counts_def add_argument_defs bind_res_def
         split: sum.split)
qed

lemma parse_ibex_config:
  assumes "plain config" "plain file" "plain hier" "plain pre" "so \<in> set simulators"
    "find (\<lambda>s. cmd_name s = cmd_name so) simulators = Some so"
  shows "parse_args ibex_config_subs (ibex_config_parser environ)
      [config, ''--config_filename'', file, cmd_name so, ''--ins_hier_path'', hier, ''--string_define_prefix'', pre] =
    Inr [(''config_name'', YStr config), (''config_filename'', YStr file), (''output_fn'', YStr (cmd_name so)),
         (''ins_hier_path'', YStr hier), (''string_define_prefix'', YStr pre)]"
proof -
  define c where "c = cmd_name so"
  have c: "plain c" "c \<noteq> ''fusesoc_opts''" "YStr c \<in> set (map YStr outputter_names)"
    using assms(5) by (auto simp: c_def simulators_def plain_def outputter_names_def)
  have sub: "ibex_config_subs c [''--ins_hier_path'', hier, ''--string_define_prefix'', pre] =
      Inr ([(''ins_hier_path'', YStr hier), (''string_define_prefix'', YStr pre), (''output_fn'', YStr c)], [])"
    using parse_sim_args [OF assms(3,4), of so] c(2) assms(6) by (simp add: ibex_config_subs_def c_def)
  define names where "names = outputter_names"
  let ?P = "pos_arg ''config_name'' NOne" and ?Q = "sub_arg ''output_fn'' names"
  have pos: "positionals (ibex_config_parser environ) = [?P, ?Q]"
    by (simp add: positionals_def ibex_config_parser_def add_argument_defs names_def)
  have acts: "actions (ibex_config_parser environ) = config_acts environ names"
    by (simp add: ibex_config_parser_def names_def)
  have "parse_args ibex_config_subs (ibex_config_parser environ)
      [config, ''--config_filename'', file, c, ''--ins_hier_path'', hier, ''--string_define_prefix'', pre] =
      bind_res (bind_res (take_action ibex_config_subs ?P [config] (initial_state (ibex_config_parser environ))) (\<lambda>t.
        bind_res (take_action ibex_config_subs (file_arg environ) [file] t) (\<lambda>t.
        bind_res (take_action ibex_config_subs ?Q (map fst (sim_tags c hier pre)) t) (finish_args (ibex_config_parser environ)))))
      (\<lambda>(n, ex). if ex = [] then Inr n else Inl (SystemExit 2))"
    by (simp only: parse_args_def parse_known_args_def acts pos config_classified [OF assms(1-4) c(1)] bind_res_simps
        config_loop [OF assms(2)] bind_res_assoc)
  also have "\<dots> = Inr [(''config_name'', YStr config), (''config_filename'', YStr file), (''output_fn'', YStr c),
         (''ins_hier_path'', YStr hier), (''string_define_prefix'', YStr pre)]"
    using c(3) assms(1)
    by (simp add: arg_eval ibex_config_parser_def sub str_val_def names_def [symmetric] del: set_map)
  finally show ?thesis by (simp add: c_def)
qed

section \<open>Which files are accepted\<close>

lemma verify_items_ok: "verify_items n items = Inr () \<longleftrightarrow> (\<forall>(k, v) \<in> set items. scalar v)"
  by (induction items rule: verify_items.induct [of _ n]) (auto simp: bind_res_Inr_iff)

definition config_ok :: "yval \<Rightarrow> bool" where
  "config_ok c = (case c of YMap items \<Rightarrow> list_all (\<lambda>(k, v). scalar v) items | _ \<Rightarrow> False)"

lemma verify_config_ok: "verify_config n c = Inr () \<longleftrightarrow> config_ok c"
  by (auto simp: verify_config_def config_ok_def verify_items_ok list_all_iff bind_res_Inr_iff
      split: yval.splits)

lemma verify_all_ok: "verify_all cs = Inr () \<longleftrightarrow> list_all (\<lambda>(n, c). config_ok c) cs"
proof (induction cs rule: verify_all.induct)
  case (2 k v rest)
  show ?case
  proof (cases "verify_config k v")
    case (Inl e)
    then show ?thesis using verify_config_ok [of k v] by simp
  next
    case (Inr u)
    then show ?thesis using verify_config_ok [of k v] 2 by simp
  qed
qed simp

definition param_names :: "yval \<Rightarrow> yval set" where
  "param_names c = (case c of YMap items \<Rightarrow> set (map fst items) | _ \<Rightarrow> {})"

lemma sym_diff_Nil: "sym_diff a b = [] \<longleftrightarrow> set a = set b"
  by (auto simp: sym_diff_def filter_empty_conv)

lemma verify_params_Some:
  "list_all (\<lambda>(n, c). config_ok c) cs \<Longrightarrow>
   verify_params ord (Some ps) cs = Inr () \<longleftrightarrow> list_all (\<lambda>(n, c). param_names c = set ps) cs"
proof (induction cs)
  case (Cons nc cs)
  obtain n c where nc: "nc = (n, c)" by (cases nc)
  with Cons.prems obtain items where c: "c = YMap items" by (auto simp: config_ok_def split: yval.splits)
  show ?case
  proof (cases "sym_diff ps (map fst items) = []")
    case True
    then have "set ps = set (map fst items)" by (simp add: sym_diff_Nil)
    with True Cons nc c show ?thesis by (simp add: config_items_def param_names_def)
  next
    case False
    then have "set ps \<noteq> set (map fst items)" by (simp add: sym_diff_Nil)
    with False nc c show ?thesis
      by (auto simp: config_items_def param_names_def bind_res_Inr_iff Let_def)
  qed
qed simp

lemma verify_config_parameters_ok:
  assumes "list_all (\<lambda>(n, c). config_ok c) cs"
  shows "verify_config_parameters ord cs = Inr () \<longleftrightarrow>
     list_all (\<lambda>(n, c). list_all (\<lambda>(m, d). param_names c = param_names d) cs) cs"
proof (cases cs)
  case (Cons nc rest)
  obtain n c where nc: "nc = (n, c)" by (cases nc)
  with assms Cons obtain items where c: "c = YMap items"
    by (auto simp: config_ok_def split: yval.splits)
  have "verify_config_parameters ord cs = Inr () \<longleftrightarrow>
      list_all (\<lambda>(m, d). param_names d = param_names c) rest"
    using assms Cons nc c verify_params_Some [of rest ord "map fst items"]
    by (simp add: verify_config_parameters_def config_items_def param_names_def)
  then show ?thesis using Cons nc by (simp add: list_all_iff case_prod_unfold) metis
qed (simp add: verify_config_parameters_def)

text \<open>
  C21. Exactly the well-formed files are accepted: the file is a mapping of configurations, each a
  mapping whose values are strings, integers or booleans, and all of them have the same set of
  parameters. What is returned is what the loader read.
\<close>

theorem get_config_dicts_accepts:
  "get_config_dicts yaml_load ord f = Inr cs \<longleftrightarrow>
     yaml_load f = Inr (YMap cs) \<and> list_all (\<lambda>(n, c). config_ok c) cs \<and>
     list_all (\<lambda>(n, c). list_all (\<lambda>(m, d). param_names c = param_names d) cs) cs"
proof (cases "\<exists>ds. yaml_load f = Inr (YMap ds)")
  case True
  then obtain ds where d: "yaml_load f = Inr (YMap ds)" by blast
  show ?thesis
  proof (cases "list_all (\<lambda>(n, c). config_ok c) ds")
    case ok: True
    then show ?thesis using d verify_config_parameters_ok [OF ok, of ord]
      by (cases "verify_config_parameters ord ds")
         (auto simp: get_config_dicts_def verify_all_ok [THEN iffD2])
  next
    case False
    then have "verify_all ds \<noteq> Inr ()" by (simp add: verify_all_ok)
    with False d show ?thesis by (cases "verify_all ds") (auto simp: get_config_dicts_def)
  qed
next
  case False
  then show ?thesis by (auto simp: get_config_dicts_def split: sum.splits yval.splits)
qed

section \<open>Reading the options back\<close>

text \<open>What every outputter promises: its line is the quoted form of a list of options.\<close>

locale outputter =
  fixes options :: "'c \<Rightarrow> string list py_res"
    and render :: "'c \<Rightarrow> string py_res"
  assumes quoted: "render c = bind_res (options c) (\<lambda>os. Inr (quote_join os))"
begin

lemma readback: "render c = Inr line \<Longrightarrow> \<exists>os. options c = Inr os \<and> shell_words line = Some os"
  by (auto simp: quoted bind_res_Inr_iff quote_join_def shell_words_join)

lemma raises_iff: "render c = Inl e \<longleftrightarrow> options c = Inl e"
  by (auto simp: quoted bind_res_Inl_iff)

end

interpretation fo: outputter fusesoc_list fusesoc_output
  by unfold_locales (simp add: fusesoc_output_def)

interpretation so: outputter "simopts_list so args" "simopts_output so args" for so args
  by unfold_locales (simp add: simopts_output_def)

text \<open>The options that a format stands for, before quoting.\<close>

definition option_list :: "string \<Rightarrow> out_args \<Rightarrow> (yval \<times> yval) list \<Rightarrow> string list py_res" where
  "option_list name args config_dict =
     (if name = ''fusesoc_opts'' then fusesoc_list config_dict
      else (case find (\<lambda>so. cmd_name so = name) simulators of
              None \<Rightarrow> Inl (SystemExit 2)
            | Some so \<Rightarrow> simopts_list so args config_dict))"

text \<open>A configuration as the file check leaves it, with parameter names that are strings.\<close>

definition checked :: "(yval \<times> yval) list \<Rightarrow> bool" where
  "checked cfg = list_all (\<lambda>(k, v). scalar v \<and> (case k of YStr _ \<Rightarrow> True | _ \<Rightarrow> False)) cfg"

lemma str_scalar_total: "scalar v \<Longrightarrow> \<exists>s. str_scalar v = Inr s"
  by (cases v) (auto simp: str_scalar_def)

lemma fusesoc_total: "checked cfg \<Longrightarrow> \<exists>os. fusesoc_list cfg = Inr os"
proof (induction cfg rule: fusesoc_list.induct)
  case (2 p v rest)
  then obtain k where "p = YStr k" "scalar v" "checked rest"
    by (auto simp: checked_def split: yval.splits)
  with 2 show ?case
    by (cases v) (auto simp: as_str_def str_scalar_def split: bool.splits)
qed simp

lemma simopt_total:
  "scalar v \<Longrightarrow> \<exists>os. simopt so args (YStr k, v) = Inr os"
  by (cases v) (auto simp: simopt_def as_str_def str_scalar_def)

lemma simopts_total: "checked cfg \<Longrightarrow> \<exists>os. simopts_list so args cfg = Inr os"
proof -
  assume c: "checked cfg"
  have "\<exists>oss. map_res (simopt so args) cfg = Inr oss"
    using c
  proof (induction cfg)
    case (Cons kv cfg)
    then obtain k v where "kv = (YStr k, v)" "scalar v" "checked cfg"
      by (auto simp: checked_def split: yval.splits prod.splits)
    with Cons simopt_total [of v so args k] show ?case by auto
  qed simp
  then show ?thesis by (auto simp: simopts_list_def)
qed

text \<open>
  C13. Every output format is faithful on checked configurations: the tool prints a line, and a shell
  reads that line back as exactly the options of the format, whatever characters the names and
  values of the parameters contain.
\<close>

theorem output_readback:
  assumes "checked cfg" "name \<in> insert ''fusesoc_opts'' (set (map cmd_name simulators))"
  shows "\<exists>line os. output_fn name args cfg = Inr line \<and> option_list name args cfg = Inr os \<and>
     shell_words line = Some os"
proof (cases "name = ''fusesoc_opts''")
  case True
  with fusesoc_total [OF assms(1)] show ?thesis
    by (auto simp: output_fn_def option_list_def fusesoc_output_def quote_join_def shell_words_join)
next
  case False
  with assms(2) obtain so where "find (\<lambda>so. cmd_name so = name) simulators = Some so"
    by (cases "find (\<lambda>so. cmd_name so = name) simulators") (auto simp: find_None_iff)
  with False simopts_total [OF assms(1), of so args] show ?thesis
    by (auto simp: output_fn_def option_list_def simopts_output_def quote_join_def shell_words_join)
qed

theorem output_readback_witness:
  "\<exists>line os. output_fn ''vcs_opts'' \<lparr>ins_hier_path = ''top'', string_define_prefix = []\<rparr>
       [(YStr ''RV32M'', YStr ''ibex_pkg::RV32MFast''), (YStr ''WritebackStage'', YBool True)] = Inr line \<and>
     option_list ''vcs_opts'' \<lparr>ins_hier_path = ''top'', string_define_prefix = []\<rparr>
       [(YStr ''RV32M'', YStr ''ibex_pkg::RV32MFast''), (YStr ''WritebackStage'', YBool True)] = Inr os \<and>
     shell_words line = Some os"
  by (rule output_readback) (simp_all add: checked_def simulators_def)

definition is_ystr :: "yval \<times> yval \<Rightarrow> bool" where
  "is_ystr kv = (case snd kv of YStr _ \<Rightarrow> True | _ \<Rightarrow> False)"

text \<open>The name of a parameter and its value as the simulators get it.\<close>

definition key_text :: "yval \<times> yval \<Rightarrow> string" where
  "key_text kv = (case fst kv of YStr k \<Rightarrow> k | _ \<Rightarrow> [])"

definition value_text :: "yval \<times> yval \<Rightarrow> string" where
  "value_text kv =
     (case snd kv of YStr s \<Rightarrow> s | YBool b \<Rightarrow> (if b then ''1'' else ''0'') | YInt i \<Rightarrow> int_str i | _ \<Rightarrow> [])"

lemma simopt_checked:
  "checked [kv] \<Longrightarrow> simopt so args kv =
     Inr (truthy (if is_ystr kv
                  then define_set_fn so (string_define_prefix args @ key_text kv) (value_text kv)
                  else param_set_fn so (hier_prefix so args @ key_text kv) (value_text kv)))"
  by (cases kv; cases "snd kv")
     (auto simp: checked_def simopt_def as_str_def str_scalar_def is_ystr_def key_text_def value_text_def
      split: yval.splits)

lemma simopts_checked:
  "checked cfg \<Longrightarrow> simopts_list so args cfg =
     Inr (concat (map (\<lambda>kv. truthy (if is_ystr kv
                  then define_set_fn so (string_define_prefix args @ key_text kv) (value_text kv)
                  else param_set_fn so (hier_prefix so args @ key_text kv) (value_text kv))) cfg))"
proof -
  assume c: "checked cfg"
  have "simopt so args kv = Inr (truthy (if is_ystr kv
                  then define_set_fn so (string_define_prefix args @ key_text kv) (value_text kv)
                  else param_set_fn so (hier_prefix so args @ key_text kv) (value_text kv)))"
    if "kv \<in> set cfg" for kv
    using that c by (intro simopt_checked) (auto simp: checked_def list_all_iff)
  from map_res_total [of cfg "simopt so args", OF this] show ?thesis by (simp add: simopts_list_def)
qed

lemma concat_map_filter: "concat (map (\<lambda>x. if P x then [g x] else []) xs) = map g (filter P xs)"
  by (induction xs) auto

text \<open>
  The two phases of a simulator share out the parameters: for Riviera and for Questa, the
  compile options are the defines of the string parameters and the simulation options set all the
  others, each list in the order of the configuration.
\<close>

lemma two_phases:
  assumes "checked cfg" "i = 1 \<or> i = 3"
  shows "simopts_list (simulators ! i) args cfg =
       Inr (map (\<lambda>kv. ''-g/'' @ hier_prefix (simulators ! i) args @ key_text kv @ ''='' @ value_text kv)
              (filter (\<lambda>kv. \<not> is_ystr kv) cfg)) \<and>
     simopts_list (simulators ! (i + 1)) args cfg =
       Inr (map (\<lambda>kv. ''+define+'' @ string_define_prefix args @ key_text kv @ ''='' @ value_text kv)
              (filter is_ystr cfg))"
  using assms(2) unfolding simopts_checked [OF assms(1)]
  by (auto simp: simulators_def truthy_def concat_map_filter [symmetric] intro!: arg_cong [of _ _ concat])

end
