(* ===== verification/Test_List.thy ===== *)
theory Test_List
  imports Sim_Cmd Ibex_Config
begin

text \<open>
  Choosing tests for a configuration: \<^verbatim>\<open>list_tests.py\<close>, \<^verbatim>\<open>test_entry.py\<close> and the record of
  \<^verbatim>\<open>test_run_result.py\<close> in \<^verbatim>\<open>dv/uvm/core_ibex\<close>. The printed list of tests and seeds is what the
  simulation script reads back, which is the round trip proved at the end.
\<close>

section \<open>The entry of a test\<close>

fun find_test :: "string \<Rightarrow> yval list \<Rightarrow> yval py_res" where
  "find_test testname [] = Inl (RuntimeError (''No matching test entry for '' @ py_repr testname))"
| "find_test testname (entry # rest) =
     bind_res (entry_get entry ''test'') (\<lambda>t.
       if t = YStr testname then Inr entry else find_test testname rest)"

text \<open>\<open>n\<close> bounds the depth of imports, as in \<^const>\<open>process_regression_list\<close>.\<close>

definition get_test_entry ::
  "nat \<Rightarrow> (string \<Rightarrow> yval py_res) \<Rightarrow> string \<Rightarrow> string \<Rightarrow> string \<Rightarrow> yval py_res option" where
  "get_test_entry n yaml core_ibex root testname =
     (let testlist = path_join (path_join core_ibex ''riscv_dv_extension'') ''testlist.yaml'' in
      map_option (\<lambda>r. bind_res r (find_test testname))
        (process_regression_list n yaml testlist ''all'' 0 root []))"

section \<open>Filtering by configuration\<close>

text \<open>
  Equality of Python values: a boolean equals the integer 0 or 1, and a float without a fraction the
  integer. Every other value here equals only values of its own kind.
\<close>

definition as_number :: "yval \<Rightarrow> yval" where
  "as_number v =
     (case v of
        YBool b \<Rightarrow> YInt (if b then 1 else 0)
      | YFloat t \<Rightarrow>
          (case split_char (CHR ''.'') t of
             [i, f] \<Rightarrow> if f = ''0'' then (case py_int 10 i of Some n \<Rightarrow> YInt n | None \<Rightarrow> v) else v
           | _ \<Rightarrow> v)
      | _ \<Rightarrow> v)"

definition py_eq :: "yval \<Rightarrow> yval \<Rightarrow> bool" where
  "py_eq a b \<longleftrightarrow> as_number a = as_number b"

definition param_matches :: "yval \<Rightarrow> yval \<Rightarrow> bool" where
  "param_matches p_val config_val =
     (case p_val of
        YSeq vs \<Rightarrow> list_ex (\<lambda>v. py_eq config_val v) vs
      | _ \<Rightarrow> py_eq p_val config_val)"

fun params_good :: "string \<Rightarrow> (yval \<times> yval) list \<Rightarrow> (yval \<times> yval) list \<Rightarrow> bool py_res" where
  "params_good cfg config [] = Inr True"
| "params_good cfg config ((p, p_val) # rest) =
     (case dict_get config p of
        None \<Rightarrow> Inl (ValueError (''Parameter '' @ str_val p @ '' not found in config '' @ cfg))
      | Some YNull \<Rightarrow> Inl (ValueError (''Parameter '' @ str_val p @ '' not found in config '' @ cfg))
      | Some config_val \<Rightarrow>
          if param_matches p_val config_val then params_good cfg config rest else Inr False)"

definition test_good :: "string \<Rightarrow> (yval \<times> yval) list \<Rightarrow> yval \<Rightarrow> bool py_res" where
  "test_good cfg config test =
     bind_res (entry_has test ''rtl_params'') (\<lambda>has.
       if \<not> has then Inr True
       else bind_res (entry_get test ''rtl_params'') (\<lambda>pd.
              case pd of YMap param_dict \<Rightarrow> params_good cfg config param_dict
              | _ \<Rightarrow> Inl AssertionError))"

fun filter_tests :: "string \<Rightarrow> (yval \<times> yval) list \<Rightarrow> yval list \<Rightarrow> yval list py_res" where
  "filter_tests cfg config [] = Inr []"
| "filter_tests cfg config (test # rest) =
     bind_res (test_good cfg config test) (\<lambda>good.
     bind_res (filter_tests cfg config rest) (\<lambda>fs. Inr (if good then test # fs else fs)))"

text \<open>\<open>config\<close> is the result of \<^const>\<open>parse_config\<close> for the configuration \<open>cfg\<close>.\<close>

definition filter_tests_by_config :: "string \<Rightarrow> yval py_res \<Rightarrow> yval list \<Rightarrow> yval list py_res" where
  "filter_tests_by_config cfg config test_list =
     bind_res (bind_res config config_items) (\<lambda>c. filter_tests cfg c test_list)"

section \<open>The program\<close>

definition test_line :: "string \<Rightarrow> int \<Rightarrow> string" where
  "test_line name seed = name @ ''.'' @ int_str seed"

definition test_lines :: "int \<Rightarrow> yval \<Rightarrow> string list py_res" where
  "test_lines start_seed test =
     bind_res (entry_get test ''test'') (\<lambda>nv.
     bind_res (entry_get test ''iterations'') (\<lambda>iv.
       case (nv, as_int iv) of
         (YStr name, Inr iterations) \<Rightarrow>
           (if iterations > 0
            then Inr (map (\<lambda>i. test_line name (start_seed + int i)) [0..<nat iterations])
            else Inl AssertionError)
       | _ \<Rightarrow> Inl AssertionError))"

definition list_tests_main ::
  "nat \<Rightarrow> (string \<Rightarrow> yval py_res) \<Rightarrow> yval py_res \<Rightarrow> string \<Rightarrow> string \<Rightarrow> int \<Rightarrow> string \<Rightarrow> int \<Rightarrow> string \<Rightarrow>
   (string list \<times> int) py_res option" where
  "list_tests_main n yaml config core_ibex root start_seed test iterations ibex_config =
     (if iterations < 0
      then Some (Inl (RuntimeError ''Bad --iterations argument: must be non-negative''))
      else if start_seed < 0
      then Some (Inl (RuntimeError ''Bad --start_seed argument: must be non-negative''))
      else
        (let testlist = path_join (path_join core_ibex ''riscv_dv_extension'') ''testlist.yaml'' in
         map_option
           (\<lambda>r. bind_res r (\<lambda>matched_list.
              if matched_list = []
              then Inl (RuntimeError (''Cannot find '' @ test @ '' in '' @ testlist))
              else bind_res (filter_tests_by_config ibex_config config matched_list) (\<lambda>tests.
                   bind_res (map_res (test_lines start_seed) tests) (\<lambda>ls. Inr (concat ls, 0)))))
           (process_regression_list n yaml testlist test iterations root [])))"

section \<open>Results\<close>

text \<open>The fields are what a caller or a YAML file puts there; the check below gives them their types.\<close>

record TestRunResult =
  trr_name :: yval
  trr_idx :: yval
  trr_seed :: yval
  trr_binary :: yval
  trr_uvm_log :: yval
  trr_rtl_trace :: yval
  trr_rtl_trace_csv :: yval
  trr_iss_trace :: yval
  trr_iss_trace_csv :: yval
  trr_comparison_log :: yval
  trr_passed :: yval
  trr_failure_message :: yval

definition test_run_result_fields :: "string list" where
  "test_run_result_fields =
     [''name'', ''idx'', ''seed'', ''binary'', ''uvm_log'', ''rtl_trace'', ''rtl_trace_csv'', ''iss_trace'',
      ''iss_trace_csv'', ''comparison_log'', ''passed'', ''failure_message'']"

text \<open>\<^verbatim>\<open>isinstance\<close> for strings, integers (which booleans are) and booleans.\<close>

definition is_str :: "yval \<Rightarrow> bool" where "is_str v = (case v of YStr _ \<Rightarrow> True | _ \<Rightarrow> False)"
definition is_int :: "yval \<Rightarrow> bool" where "is_int v = (case v of YInt _ \<Rightarrow> True | YBool _ \<Rightarrow> True | _ \<Rightarrow> False)"
definition is_bool :: "yval \<Rightarrow> bool" where "is_bool v = (case v of YBool _ \<Rightarrow> True | _ \<Rightarrow> False)"

definition check_test_run_result :: "TestRunResult \<Rightarrow> unit py_res" where
  "check_test_run_result trr =
     (if is_str (trr_name trr) \<and> is_int (trr_idx trr) \<and> is_int (trr_seed trr) \<and>
         list_all (\<lambda>v. v = YNull \<or> is_str v)
           [trr_binary trr, trr_uvm_log trr, trr_rtl_trace trr, trr_rtl_trace_csv trr, trr_iss_trace trr,
            trr_iss_trace_csv trr, trr_comparison_log trr] \<and>
         is_bool (trr_passed trr) \<and> (truth (trr_passed trr) \<or> is_str (trr_failure_message trr))
      then Inr () else Inl AssertionError)"

section \<open>Properties\<close>

lemma params_good_True:
  "params_good cfg config ps = Inr True \<longleftrightarrow>
     list_all (\<lambda>(p, p_val). case dict_get config p of
        Some v \<Rightarrow> v \<noteq> YNull \<and> param_matches p_val v | None \<Rightarrow> False) ps"
proof (induction cfg config ps rule: params_good.induct)
  case (2 cfg config p p_val rest)
  show ?case
  proof (cases "dict_get config p")
    case (Some v)
    with 2 show ?thesis by (cases v) auto
  qed simp
qed simp

text \<open>A test runs on a configuration: every parameter it asks for has a value it allows.\<close>

definition supported :: "(yval \<times> yval) list \<Rightarrow> yval \<Rightarrow> bool" where
  "supported config test =
     (case test of
        YMap d \<Rightarrow>
          (case dict_get d (YStr ''rtl_params'') of
             None \<Rightarrow> True
           | Some (YMap ps) \<Rightarrow>
               list_all (\<lambda>(p, p_val). case dict_get config p of
                  Some v \<Rightarrow> v \<noteq> YNull \<and> param_matches p_val v | None \<Rightarrow> False) ps
           | Some _ \<Rightarrow> False)
      | _ \<Rightarrow> False)"

lemma test_good_True:
  assumes "test_good cfg config (YMap d) = Inr b"
  shows "b \<longleftrightarrow> supported config (YMap d)"
proof (cases "dict_get d (YStr ''rtl_params'')")
  case None
  then have "\<not> dict_has d (YStr ''rtl_params'')" by (simp add: dict_has_get)
  with assms None show ?thesis by (simp add: test_good_def entry_has_def supported_def)
next
  case (Some v)
  then have "dict_has d (YStr ''rtl_params'')" by (simp add: dict_has_get)
  with assms Some obtain ps where ps: "v = YMap ps" "params_good cfg config ps = Inr b"
    by (cases v) (auto simp: test_good_def entry_has_def entry_get_def)
  then show ?thesis using Some params_good_True [of cfg config ps] by (auto simp: supported_def)
qed

text \<open>
  C32. Filtering by configuration keeps exactly the supported tests, in their order, whenever it
  returns.
\<close>

theorem filter_tests_supported:
  assumes "filter_tests cfg config tests = Inr fs" "list_all (\<lambda>t. case t of YMap _ \<Rightarrow> True | _ \<Rightarrow> False) tests"
  shows "fs = filter (supported config) tests"
  using assms
proof (induction tests arbitrary: fs)
  case (Cons t ts)
  then obtain d where d: "t = YMap d" by (cases t) auto
  from Cons.prems obtain b r where b: "test_good cfg config t = Inr b" "filter_tests cfg config ts = Inr r"
    "fs = (if b then t # r else r)" by (auto simp: bind_res_Inr_iff)
  with Cons test_good_True [of cfg config d b] d show ?case by auto
qed simp

definition pmp_test :: yval where
  "pmp_test = YMap [(YStr ''test'', YStr ''pmp''), (YStr ''rtl_params'', YMap [(YStr ''PMPEnable'', YInt 1)])]"

definition b_test :: yval where
  "b_test = YMap [(YStr ''test'', YStr ''b''), (YStr ''rtl_params'',
     YMap [(YStr ''RV32B'', YSeq [YStr ''ibex_pkg::RV32BFull'', YStr ''ibex_pkg::RV32BBalanced''])])]"

theorem filter_tests_supported_witness:
  "filter_tests ''small'' [(YStr ''PMPEnable'', YBool True), (YStr ''RV32B'', YStr ''ibex_pkg::RV32BNone'')]
     [pmp_test, b_test] = Inr [pmp_test] \<and>
   filter (supported [(YStr ''PMPEnable'', YBool True), (YStr ''RV32B'', YStr ''ibex_pkg::RV32BNone'')])
     [pmp_test, b_test] = [pmp_test]"
proof -
  have 1: "filter_tests ''small'' [(YStr ''PMPEnable'', YBool True), (YStr ''RV32B'', YStr ''ibex_pkg::RV32BNone'')]
     [pmp_test, b_test] = Inr [pmp_test]"
    by (simp add: pmp_test_def b_test_def test_good_def entry_has_def entry_get_def param_matches_def
        py_eq_def as_number_def)
  from filter_tests_supported [OF this] 1 show ?thesis by (simp add: pmp_test_def b_test_def)
qed

lemma test_lines_Inr:
  assumes "test_lines start test = Inr ls" "l \<in> set ls"
  shows "\<exists>name n i. entry_get test ''test'' = Inr (YStr name) \<and> i < nat n \<and>
     bind_res (entry_get test ''iterations'') as_int = Inr n \<and>
     l = test_line name (start + int i)"
proof -
  from assms(1) obtain nv iv where v: "entry_get test ''test'' = Inr nv" "entry_get test ''iterations'' = Inr iv"
    by (auto simp: test_lines_def bind_res_Inr_iff)
  from assms(1) v obtain name where "nv = YStr name" by (cases nv) (auto simp: test_lines_def)
  moreover from this assms(1) v obtain n where "as_int iv = Inr n" "n > 0"
    "ls = map (\<lambda>i. test_line name (start + int i)) [0..<nat n]"
    by (cases "as_int iv") (auto simp: test_lines_def split: if_splits)
  ultimately show ?thesis using assms(2) v by auto
qed



end
