(* ===== verification/Compare_Run.thy ===== *)
theory Compare_Run
  imports Iss_Logs Instr_Compare Test_List
begin

text \<open>
  The verdict on one run of a test: \<^verbatim>\<open>dv/uvm/core_ibex/compare.py\<close>. It judges the simulation log, turns
  both traces into the common form, compares them, and writes the result as YAML.

  The lemmas show what a passing result rests on and that every result is well typed.
\<close>

section \<open>Exceptions that become a failed result\<close>

text \<open>\<^verbatim>\<open>except (OSError, RuntimeError) as e\<close>: the message of such an exception.\<close>

definition errno_text :: "string \<Rightarrow> string" where
  "errno_text path = ''[Errno 2] No such file or directory: '' @ py_repr path"

definition os_or_runtime :: "py_exn \<Rightarrow> string option" where
  "os_or_runtime e =
     (case e of
        RuntimeError m \<Rightarrow> Some m
      | FileNotFoundError p \<Rightarrow> Some (errno_text p)
      | OSError m \<Rightarrow> Some m
      | _ \<Rightarrow> None)"

section \<open>Comparing one run\<close>

text \<open>The result as it is built up.\<close>

definition initial_result :: "string \<Rightarrow> int \<Rightarrow> int \<Rightarrow> string \<Rightarrow> string \<Rightarrow> string \<Rightarrow> TestRunResult" where
  "initial_result test_name idx seed elf uvm_log rtl_trace =
     \<lparr>trr_name = YStr test_name, trr_idx = YInt idx, trr_seed = YInt seed, trr_binary = YStr elf,
      trr_uvm_log = YStr uvm_log, trr_rtl_trace = YStr rtl_trace, trr_rtl_trace_csv = YNull, trr_iss_trace = YNull,
      trr_iss_trace_csv = YNull, trr_comparison_log = YNull, trr_passed = YBool False, trr_failure_message = YNull\<rparr>"

definition fail_with :: "string \<Rightarrow> TestRunResult \<Rightarrow> TestRunResult" where
  "fail_with msg kv = kv\<lparr>trr_failure_message := YStr msg\<rparr>"

definition log_failed :: "string \<Rightarrow> TestRunResult \<Rightarrow> TestRunResult" where
  "log_failed err kv = fail_with (''[FAILED]: Log processing failed: '' @ err) kv"

text \<open>
  The keyword arguments for the comparison. Two of them have no effect. A limit that is no integer is
  rejected here, where the code does so at the first mismatch.
\<close>

definition compare_opt :: "yval \<times> yval \<Rightarrow> compare_opts \<Rightarrow> compare_opts py_res" where
  "compare_opt kv opts =
     (case kv of
        (k, v) \<Rightarrow>
          if k = YStr ''in_order_mode'' then Inr (opts\<lparr>o_in_order_mode := truth v\<rparr>)
          else if k = YStr ''compare_final_value_only'' then Inr (opts\<lparr>o_compare_final_value_only := truth v\<rparr>)
          else if k = YStr ''mismatch_print_limit''
          then bind_res (as_int v) (\<lambda>i. Inr (opts\<lparr>o_mismatch_print_limit := i\<rparr>))
          else if k \<in> {YStr ''coalescing_limit'', YStr ''verbose''} then Inr opts
          else Inl TypeError)"

definition read_compare_opts :: "yval \<Rightarrow> compare_opts py_res" where
  "read_compare_opts v =
     (case v of YMap d \<Rightarrow> fold_res compare_opt d default_opts | _ \<Rightarrow> Inl TypeError)"

text \<open>Turning the trace of the instruction set simulator into the common form.\<close>

type_synonym files = "string \<Rightarrow> string option"

definition process_iss_log ::
    "(string \<Rightarrow> files \<Rightarrow> files) \<Rightarrow> (string \<Rightarrow> bool) \<Rightarrow> files \<Rightarrow> string \<Rightarrow> string \<Rightarrow> string \<Rightarrow>
     log \<times> files \<times> unit py_res" where
  "process_iss_log sh creatable fs iss iss_log iss_csv =
     (if iss = ''spike''
      then (case process_spike_sim_log creatable fs iss_log iss_csv False of (l, fs', r) \<Rightarrow> (l, fs', map_sum id (\<lambda>_. ()) r))
      else if iss = ''ovpsim'' then process_ovpsim_sim_log sh creatable fs iss_log iss_csv False True
      else ([], fs, Inl AssertionError))"

text \<open>The last part: the comparison itself. An old log of the comparison is removed first.\<close>

definition compare_logs ::
    "(string \<Rightarrow> bool) \<Rightarrow> files \<Rightarrow> yval \<Rightarrow> string \<Rightarrow> string \<Rightarrow> string \<Rightarrow> string \<Rightarrow> TestRunResult \<Rightarrow>
     files \<times> TestRunResult py_res" where
  "compare_logs creatable fs0 opts_val rtl_csv iss_csv iss compare_log kv =
     (let fs = fs0(compare_log := None) in
      case read_compare_opts opts_val of
        Inl e \<Rightarrow> (fs, Inl e)
      | Inr opts \<Rightarrow>
          if \<not> creatable compare_log then (fs, Inl (FileNotFoundError compare_log))
          else (case compare_trace_csv (fs(compare_log \<mapsto> [])) rtl_csv iss_csv ''ibex'' iss opts of
                  (out, r) \<Rightarrow>
                    (let fs' = fs(compare_log \<mapsto> out) in
                     case r of
                       Inl e \<Rightarrow> (fs', Inl e)
                     | Inr res \<Rightarrow>
                         if prefix ''[PASSED]: '' res then (fs', Inr (kv\<lparr>trr_passed := YBool True\<rparr>))
                         else if prefix ''[FAILED]: '' res
                         then (fs', Inr (fail_with (''RTL / ISS trace comparison failed'' @ [newline] @
                                                    universal_newlines out) kv))
                         else (fs', Inl AssertionError))))"

text \<open>
  The whole comparison: messages, files, and the result. The calls are made in the order of the code,
  and each early return is a branch.
\<close>

definition compare_test_run ::
    "(string \<Rightarrow> files \<Rightarrow> files) \<Rightarrow> (string \<Rightarrow> bool) \<Rightarrow> files \<Rightarrow> yval \<Rightarrow> int \<Rightarrow> int \<Rightarrow> string \<Rightarrow> string \<Rightarrow> string \<Rightarrow> string \<Rightarrow>
     log \<times> files \<times> TestRunResult py_res" where
  "compare_test_run sh creatable fs test idx seed rtl_log_dir iss iss_log_dir instr_gen_bin_dir =
     (case bind_res (entry_get test ''test'') (\<lambda>v. case v of YStr n \<Rightarrow> Inr n | _ \<Rightarrow> Inl AssertionError) of
        Inl e \<Rightarrow> ([], fs, Inl e)
      | Inr test_name \<Rightarrow>
          (let uvm_log = path_join rtl_log_dir ''sim.log'';
               elf = path_join instr_gen_bin_dir (test_name @ ''_'' @ int_str idx @ ''.o'');
               rtl_trace = path_join rtl_log_dir ''trace_core_00000000.log'';
               kv0 = initial_result test_name idx seed elf uvm_log rtl_trace in
           case fs uvm_log of
             None \<Rightarrow> ([], fs, Inr (fail_with (errno_text uvm_log @ [newline] @ ''[FAILED] Could not open simulation log'') kv0))
           | Some uvm_text \<Rightarrow>
               (case check_ibex_uvm_log uvm_text of
                  (uvm_pass, uvm_log_lines) \<Rightarrow>
                    if \<not> uvm_pass
                    then ([], fs, Inr (fail_with (py_join [newline] uvm_log_lines @ [newline] @ ''[FAILED]: sim error seen'') kv0))
                    else
                      (let rtl_trace_csv = path_join rtl_log_dir ''trace_core_00000000.csv'';
                           kv1 = kv0\<lparr>trr_rtl_trace_csv := YStr rtl_trace_csv\<rparr> in
                       case process_ibex_sim_log creatable fs rtl_trace rtl_trace_csv True of
                         (l1, fs1, Inl e) \<Rightarrow>
                           (l1, fs1, case os_or_runtime e of Some err \<Rightarrow> Inr (log_failed err kv1) | None \<Rightarrow> Inl e)
                       | (l1, fs1, Inr _) \<Rightarrow>
                           (case opts_get_default test ''no_post_compare'' (YBool False) of
                              Inr (YBool True) \<Rightarrow> (l1, fs1, Inr (kv1\<lparr>trr_passed := YBool True\<rparr>))
                            | Inr (YBool False) \<Rightarrow>
                                (let iss_log = path_join iss_log_dir (test_name @ ''.'' @ int_str idx @ ''.log'');
                                     iss_csv = path_join iss_log_dir (test_name @ ''.'' @ int_str idx @ ''.csv'');
                                     kv2 = kv1\<lparr>trr_iss_trace := YStr iss_log, trr_iss_trace_csv := YStr iss_csv\<rparr> in
                                 case process_iss_log sh creatable fs1 iss iss_log iss_csv of
                                   (l2, fs2, Inl e) \<Rightarrow>
                                     (l1 @ l2, fs2, case os_or_runtime e of Some err \<Rightarrow> Inr (log_failed err kv2) | None \<Rightarrow> Inl e)
                                 | (l2, fs2, Inr _) \<Rightarrow>
                                     (let compare_log = path_join rtl_log_dir ''compare.log'';
                                          kv3 = kv2\<lparr>trr_comparison_log := YStr compare_log\<rparr> in
                                      case opts_get_default test ''compare_opts'' (YMap []) of
                                        Inl e \<Rightarrow> (l1 @ l2, fs2, Inl e)
                                      | Inr opts_val \<Rightarrow>
                                          (case compare_logs creatable fs2 opts_val rtl_trace_csv iss_csv iss compare_log kv3 of
                                             (fs3, r) \<Rightarrow> (l1 @ l2, fs3, r))))
                            | Inr _ \<Rightarrow> (l1, fs1, Inl AssertionError)
                            | Inl e \<Rightarrow> (l1, fs1, Inl e))))))"

section \<open>Writing the result\<close>

definition YAML_MULTILINE_CHARS :: string where
  "YAML_MULTILINE_CHARS = [CHR ''['', CHR '']'', CHR '':'', squote, dquote, newline]"

definition yaml_format :: "yval \<Rightarrow> string" where
  "yaml_format val =
     (case val of
        YStr s \<Rightarrow>
          if list_ex (\<lambda>c. c \<in> set s) YAML_MULTILINE_CHARS
          then ''|-'' @ [newline] @ py_join [newline] (map (\<lambda>line. ''  '' @ line) (split_char newline s))
          else s
      | YNull \<Rightarrow> []
      | v \<Rightarrow> str_val v)"

definition result_items :: "TestRunResult \<Rightarrow> (string \<times> yval) list" where
  "result_items r =
     zip test_run_result_fields
       [trr_name r, trr_idx r, trr_seed r, trr_binary r, trr_uvm_log r, trr_rtl_trace r, trr_rtl_trace_csv r,
        trr_iss_trace r, trr_iss_trace_csv r, trr_comparison_log r, trr_passed r, trr_failure_message r]"

definition on_result :: "TestRunResult \<Rightarrow> string" where
  "on_result r =
     (let klen = fold (\<lambda>(k, _). max (length k)) (result_items r) 1 in
      concat (map (\<lambda>(k, v). k @ '':'' @ replicate (klen - length k) (CHR '' '') @ '' '' @ yaml_format v @ [newline])
                (result_items r)))"

section \<open>The program\<close>

record compare_args =
  ca_instr_gen_bin_dir :: string
  ca_iss :: string
  ca_iss_log_dir :: string
  ca_start_seed :: int
  ca_test :: string
  ca_seed :: int
  ca_rtl_log_dir :: string
  ca_output :: string

text \<open>\<open>get_entry\<close> is the lookup of a test in the test list.\<close>

definition compare_main ::
    "(string \<Rightarrow> files \<Rightarrow> files) \<Rightarrow> (string \<Rightarrow> bool) \<Rightarrow> (string \<Rightarrow> yval py_res) \<Rightarrow> files \<Rightarrow> compare_args \<Rightarrow>
     log \<times> files \<times> int py_res" where
  "compare_main sh creatable get_entry fs args =
     (if ca_start_seed args < 0
      then ([], fs, Inl (RuntimeError (''Invalid start seed: '' @ int_str (ca_start_seed args))))
      else if ca_seed args < ca_start_seed args
      then ([], fs, Inl (RuntimeError (''Start seed is greater than test seed ('' @ int_str (ca_start_seed args) @
                          '' > '' @ int_str (ca_seed args) @ '').'')))
      else case get_entry (ca_test args) of
        Inl e \<Rightarrow> ([], fs, Inl e)
      | Inr entry \<Rightarrow>
          (case compare_test_run sh creatable fs entry (ca_seed args - ca_start_seed args) (ca_seed args)
                  (ca_rtl_log_dir args) (ca_iss args) (ca_iss_log_dir args) (ca_instr_gen_bin_dir args) of
             (l, fs', Inl e) \<Rightarrow> (l, fs', Inl e)
           | (l, fs', Inr result) \<Rightarrow>
               if fs' (ca_output args) = None \<and> \<not> creatable (ca_output args)
               then (l, fs', Inl (FileNotFoundError (ca_output args)))
               else (l, fs'(ca_output args \<mapsto> on_result result), Inr 0)))"

section \<open>Every result is well typed\<close>

text \<open>A result that lacks only its verdict: all other fields have their types.\<close>

definition undecided :: "TestRunResult \<Rightarrow> bool" where
  "undecided kv \<longleftrightarrow>
     is_str (trr_name kv) \<and> is_int (trr_idx kv) \<and> is_int (trr_seed kv) \<and> trr_passed kv = YBool False \<and>
     list_all (\<lambda>v. v = YNull \<or> is_str v)
       [trr_binary kv, trr_uvm_log kv, trr_rtl_trace kv, trr_rtl_trace_csv kv, trr_iss_trace kv,
        trr_iss_trace_csv kv, trr_comparison_log kv]"

lemma undecided_initial [simp]: "undecided (initial_result n i s e u r)"
  by (simp add: undecided_def initial_result_def is_str_def is_int_def)

lemma undecided_fields [simp]:
  "undecided kv \<Longrightarrow> undecided (kv\<lparr>trr_rtl_trace_csv := YStr c\<rparr>)"
  "undecided kv \<Longrightarrow> undecided (kv\<lparr>trr_iss_trace := YStr a, trr_iss_trace_csv := YStr c\<rparr>)"
  "undecided kv \<Longrightarrow> undecided (kv\<lparr>trr_comparison_log := YStr c\<rparr>)"
  by (simp_all add: undecided_def is_str_def)

lemma decided [simp]:
  "undecided kv \<Longrightarrow> check_test_run_result (fail_with m kv) = Inr ()"
  "undecided kv \<Longrightarrow> check_test_run_result (log_failed m kv) = Inr ()"
  "undecided kv \<Longrightarrow> check_test_run_result (kv\<lparr>trr_passed := YBool True\<rparr>) = Inr ()"
  by (simp_all add: undecided_def check_test_run_result_def fail_with_def log_failed_def is_str_def is_bool_def truth_def)

lemma compare_logs_typed:
  "undecided kv \<Longrightarrow> compare_logs creatable fs ov rc ic iss cl kv = (fs', Inr trr) \<Longrightarrow> check_test_run_result trr = Inr ()"
  by (auto simp: compare_logs_def Let_def split: sum.splits if_splits prod.splits)

definition typed_outcome :: "log \<times> files \<times> TestRunResult py_res \<Rightarrow> bool" where
  "typed_outcome x = (case x of (_, _, Inr trr) \<Rightarrow> check_test_run_result trr = Inr () | _ \<Rightarrow> True)"

lemma typed_outcome_simps [simp]:
  "typed_outcome (l, fs, Inl e)"
  "typed_outcome (l, fs, Inr trr) \<longleftrightarrow> check_test_run_result trr = Inr ()"
  "typed_outcome (l, fs, case x of None \<Rightarrow> Inl e | Some m \<Rightarrow> Inr (f m)) \<longleftrightarrow> (case x of None \<Rightarrow> True | Some m \<Rightarrow> check_test_run_result (f m) = Inr ())"
  by (simp_all add: typed_outcome_def split: option.split)

lemma compare_logs_outcome:
  "undecided kv \<Longrightarrow> typed_outcome (l, compare_logs creatable fs ov rc ic iss cl kv)"
  by (auto simp: typed_outcome_def split: prod.split sum.split dest: compare_logs_typed)

lemma is_bool_iff: "is_bool v \<longleftrightarrow> v = YBool True \<or> v = YBool False"
  by (cases v) (auto simp: is_bool_def)

lemma compare_test_run_outcome:
  "typed_outcome (compare_test_run sh creatable fs test idx seed rtl_log_dir iss iss_log_dir bin_dir)"
proof (cases "bind_res (entry_get test ''test'') (\<lambda>v. case v of YStr n \<Rightarrow> Inr n | _ \<Rightarrow> Inl AssertionError)")
  case (Inl e)
  then show ?thesis by (simp only: compare_test_run_def sum.case typed_outcome_simps)
next
  case name: (Inr n)
  note run = compare_test_run_def [of sh creatable fs test idx seed rtl_log_dir iss iss_log_dir bin_dir, unfolded name sum.case Let_def]
  let ?kv = "initial_result n idx seed (path_join bin_dir (n @ ''_'' @ int_str idx @ ''.o'')) (path_join rtl_log_dir ''sim.log'')
    (path_join rtl_log_dir ''trace_core_00000000.log'')"
  show ?thesis
  proof (cases "fs (path_join rtl_log_dir ''sim.log'')")
    case None
    then show ?thesis unfolding run by simp
  next
    case uvm: (Some t)
    obtain ok ls where c: "check_ibex_uvm_log t = (ok, ls)" by fastforce
    let ?csv = "path_join rtl_log_dir ''trace_core_00000000.csv''"
    obtain l1 fs1 r1 where p: "process_ibex_sim_log creatable fs (path_join rtl_log_dir ''trace_core_00000000.log'') ?csv True = (l1, fs1, r1)"
      using prod_cases3 by blast
    let ?i = "\<lambda>x. path_join iss_log_dir (n @ ''.'' @ int_str idx @ x)"
    obtain l2 fs2 r2 where q: "process_iss_log sh creatable fs1 iss (?i ''.log'') (?i ''.csv'') = (l2, fs2, r2)"
      using prod_cases3 by blast
    consider "\<not> ok" | e where "ok" "r1 = Inl e" | "ok" "r1 = Inr ()" by (cases r1) auto
    then show ?thesis
    proof cases
      case 1
      then show ?thesis unfolding run uvm by (simp add: c)
    next
      case 2
      then show ?thesis unfolding run uvm by (simp add: c p split: option.split)
    next
      case 3
      note run3 = run [unfolded uvm option.case c prod.case p 3(2) sum.case]
      consider e where "opts_get_default test ''no_post_compare'' (YBool False) = Inl e"
        | "opts_get_default test ''no_post_compare'' (YBool False) = Inr (YBool True)"
        | "opts_get_default test ''no_post_compare'' (YBool False) = Inr (YBool False)"
        | v where "opts_get_default test ''no_post_compare'' (YBool False) = Inr v" "\<not> is_bool v"
        by (cases "opts_get_default test ''no_post_compare'' (YBool False)") (auto simp: is_bool_iff)
      then show ?thesis
      proof cases
        case 3
        show ?thesis
          unfolding run3 3 q sum.case prod.case yval.case bool.case using \<open>ok\<close>
          by (cases r2; cases "opts_get_default test ''compare_opts'' (YMap [])")
             (auto intro!: compare_logs_outcome simp: undecided_def initial_result_def is_str_def is_int_def split: option.split)
      qed (use \<open>ok\<close> in \<open>auto simp: run3 is_bool_def split: yval.splits\<close>)
    qed
  qed
qed

lemma compare_test_run_typed:
  "compare_test_run sh creatable fs test idx seed rtl_log_dir iss iss_log_dir bin_dir = (l, fs', Inr trr) \<Longrightarrow>
     check_test_run_result trr = Inr ()"
  using compare_test_run_outcome [of sh creatable fs test idx seed rtl_log_dir iss iss_log_dir bin_dir] by simp

text \<open>
  C20. Whatever the files hold, a result that comes out of a comparison has the types that the
  collecting program demands of it; in particular a failed one always has a message, a text.
\<close>

theorem compare_result_typed:
  assumes "compare_test_run sh creatable fs test idx seed rtl_log_dir iss iss_log_dir bin_dir = (l, fs', Inr trr)"
  shows "check_test_run_result trr = Inr () \<and> (trr_passed trr = YBool True \<or> (\<exists>m. trr_failure_message trr = YStr m))"
proof -
  note t = compare_test_run_typed [OF assms]
  then have "is_bool (trr_passed trr)" "truth (trr_passed trr) \<or> is_str (trr_failure_message trr)"
    by (simp_all add: check_test_run_result_def split: if_splits)
  then have "trr_passed trr = YBool True \<or> (\<exists>m. trr_failure_message trr = YStr m)"
    by (cases "trr_passed trr"; cases "trr_failure_message trr") (simp_all add: is_bool_def is_str_def truth_def)
  with t show ?thesis by blast
qed

section \<open>What a pass rests on\<close>

lemma fail_with_passed [simp]:
  "trr_passed (fail_with m kv) = trr_passed kv" "trr_passed (log_failed m kv) = trr_passed kv"
  "trr_passed (initial_result n i s e u r) = YBool False"
  by (simp_all add: fail_with_def log_failed_def initial_result_def)

lemma compare_logs_passed:
  assumes "compare_logs creatable fs (YMap []) rc ic iss cl kv = (fs', Inr trr)"
    "trr_passed trr = YBool True" "trr_passed kv = YBool False" "cl \<noteq> rc" "cl \<noteq> ic"
  shows "\<exists>text1 text2 tr1 tr2 out0 st. fs rc = Some text1 \<and> fs ic = Some text2 \<and>
     read_trace text1 = Inr tr1 \<and> read_trace text2 = Inr tr2 \<and>
     compare_traces ''ibex'' iss 5 tr1 tr2 out0 = Inr st \<and> c_mismatch st = 0"
proof -
  from assms obtain out res where
    "compare_trace_csv (fs(cl \<mapsto> [])) rc ic ''ibex'' iss default_opts = (out, Inr res)" "prefix ''[PASSED]: '' res"
    by (auto simp: compare_logs_def read_compare_opts_def Let_def split: if_splits prod.splits sum.splits)
  from compare_trace_passed [OF this] assms(4,5) show ?thesis by (simp add: default_opts_def)
qed

lemma process_ibex_Inr:
  assumes "process_ibex_sim_log creatable fs lg csv full = (l, fs1, Inr ())" "lg \<noteq> csv"
  shows "\<exists>text out n. fs lg = Some text \<and> process_ibex_sim_log_fd text full = (out, Inr n) \<and> 0 < n \<and> fs1 = fs(csv \<mapsto> out)"
proof -
  from assms obtain t where t: "fs lg = Some t"
    by (auto simp: process_ibex_sim_log_def Let_def split: if_splits)
  obtain out r where "process_ibex_sim_log_fd t full = (out, r)" by force
  with assms t show ?thesis
    by (auto simp: process_ibex_sim_log_def Let_def split: if_splits sum.splits)
qed

definition spike_csv :: "(RiscvInstructionTraceEntry \<times> bool) list \<Rightarrow> string" where
  "spike_csv ys = start_new_trace @ concat (map write_trace_entry (filter (spike_kept False) (map fst ys)))"

lemma process_spike_Inr:
  assumes "process_spike_sim_log creatable fs lg csv False = (l, fs1, Inr n)" "lg \<noteq> csv"
  shows "\<exists>text ys. fs lg = Some text \<and> read_spike_trace text False = (ys, Inr ()) \<and> fs1 = fs(csv \<mapsto> spike_csv ys)"
  using assms
  by (auto simp: process_spike_sim_log_def Let_def spike_csv_def split: if_splits option.splits sum.splits prod.splits)

text \<open>The names of the files of a run.\<close>

abbreviation rtl_csv_of :: "string \<Rightarrow> string" where "rtl_csv_of d \<equiv> path_join d ''trace_core_00000000.csv''"
abbreviation rtl_trace_of :: "string \<Rightarrow> string" where "rtl_trace_of d \<equiv> path_join d ''trace_core_00000000.log''"
abbreviation iss_file_of :: "string \<Rightarrow> string \<Rightarrow> int \<Rightarrow> string \<Rightarrow> string" where
  "iss_file_of d n i ext \<equiv> path_join d (n @ ''.'' @ int_str i @ ext)"

lemma run_passed_steps:
  assumes "compare_test_run sh creatable fs test idx seed rtl ''spike'' iss bin = (l, fs', Inr trr)"
    and "trr_passed trr = YBool True"
    and "entry_get test ''test'' = Inr (YStr n)"
    and "opts_get_default test ''no_post_compare'' (YBool False) = Inr (YBool False)"
    and "opts_get_default test ''compare_opts'' (YMap []) = Inr (YMap [])"
  shows "\<exists>uvm l1 fs1 l2 fs2 k kv.
     fs (path_join rtl ''sim.log'') = Some uvm \<and> fst (check_ibex_uvm_log uvm) \<and>
     process_ibex_sim_log creatable fs (rtl_trace_of rtl) (rtl_csv_of rtl) True = (l1, fs1, Inr ()) \<and>
     process_spike_sim_log creatable fs1 (iss_file_of iss n idx ''.log'') (iss_file_of iss n idx ''.csv'') False = (l2, fs2, Inr k) \<and>
     trr_passed kv = YBool False \<and>
     compare_logs creatable fs2 (YMap []) (rtl_csv_of rtl) (iss_file_of iss n idx ''.csv'') ''spike''
       (path_join rtl ''compare.log'') kv = (fs', Inr trr)"
proof -
  obtain l1 fs1 r1 where p1: "process_ibex_sim_log creatable fs (rtl_trace_of rtl) (rtl_csv_of rtl) True = (l1, fs1, r1)"
    by (metis prod_cases3)
  obtain l2 fs2 r2 where p2: "process_spike_sim_log creatable fs1 (iss_file_of iss n idx ''.log'')
      (iss_file_of iss n idx ''.csv'') False = (l2, fs2, r2)"
    by (metis prod_cases3)
  show ?thesis
    using assms p1 p2
    by (cases r2) (auto simp: compare_test_run_def process_iss_log_def Let_def
        split: option.splits prod.splits if_splits sum.splits, rule exI, erule conjI [rotated], simp)
qed


text \<open>A run of one instruction that updates nothing, against a Spike log without instructions.\<close>

definition demo_fs :: files where
  "demo_fs p =
     (if p = ''r/sim.log'' then Some ''RISC-V UVM TEST PASSED''
      else if p = ''r/trace_core_00000000.log'' then Some (''1 1 8 1 a b'' @ [newline])
      else if p = ''s/t.0.log'' then Some []
      else None)"

definition demo_test :: yval where "demo_test = YMap [(YStr ''test'', YStr ''t'')]"

definition demo_out :: string where
  "demo_out = start_new_trace @ write_trace_entry (new_entry\<lparr>e_instr := ''a'', e_operand := ''b'', e_pc := ''8'',
     e_binary := ''1'', e_instr_str := ''a b''\<rparr>)"

lemma demo_convert: "process_ibex_sim_log_fd (''1 1 8 1 a b'' @ [newline]) True = (demo_out, Inr 1)"
  by code_simp

lemma demo_parts:
  "check_ibex_uvm_log ''RISC-V UVM TEST PASSED'' = (True, [])"
  "read_spike_trace [] False = ([], Inr ())"
  "read_trace demo_out = Inr [new_entry\<lparr>e_gpr := [[]], e_csr := [[]], e_instr := ''a'', e_operand := ''b'', e_pc := ''8'',
     e_binary := ''1'', e_instr_str := ''a b''\<rparr>]"
  "read_trace (spike_csv []) = Inr []"
  "path_join ''r'' ''sim.log'' = ''r/sim.log''"
  "path_join ''r'' ''compare.log'' = ''r/compare.log''"
  "rtl_trace_of ''r'' = ''r/trace_core_00000000.log''"
  "rtl_csv_of ''r'' = ''r/trace_core_00000000.csv''"
  "path_join ''s'' ''t.0.log'' = ''s/t.0.log''"
  "path_join ''s'' ''t.0.csv'' = ''s/t.0.csv''"
  "int_str 0 = ''0''"
  by code_simp+

lemma demo_compare:
  assumes "fs' ''r/trace_core_00000000.csv'' = Some demo_out" "fs' ''s/t.0.csv'' = Some (spike_csv [])"
  shows "\<exists>out. compare_trace_csv fs' ''r/trace_core_00000000.csv'' ''s/t.0.csv'' ''ibex'' ''spike'' default_opts =
    (out, Inr (compare_result 0 0))"
  using assms
  by (simp add: compare_trace_csv_def compare_files_def read_file_def demo_parts default_opts_def compare_traces_def
      check_update_gpr_def left_over_def Let_def)

lemma demo_run:
  "\<exists>l fs' trr. compare_test_run (\<lambda>_ f. f) (\<lambda>_. True) demo_fs demo_test 0 7 ''r'' ''spike'' ''s'' ''b'' = (l, fs', Inr trr) \<and>
     trr_passed trr = YBool True"
proof -
  let ?f1 = "demo_fs(''r/trace_core_00000000.csv'' \<mapsto> demo_out)"
  let ?f2 = "?f1(''s/t.0.csv'' \<mapsto> spike_csv [])"
  have f: "demo_fs ''r/sim.log'' = Some ''RISC-V UVM TEST PASSED''"
    "demo_fs ''r/trace_core_00000000.log'' = Some (''1 1 8 1 a b'' @ [newline])"
    "demo_fs ''s/t.0.log'' = Some []"
    by (simp_all add: demo_fs_def)
  have "\<exists>l. process_ibex_sim_log (\<lambda>_. True) demo_fs ''r/trace_core_00000000.log'' ''r/trace_core_00000000.csv'' True = (l, ?f1, Inr ())"
    using f demo_convert by (simp add: process_ibex_sim_log_def Let_def)
  moreover have "\<exists>l. process_spike_sim_log (\<lambda>_. True) ?f1 ''s/t.0.log'' ''s/t.0.csv'' False = (l, ?f2, Inr 0)"
    using f by (simp add: process_spike_sim_log_def Let_def demo_parts spike_csv_def)
  moreover obtain out where "compare_trace_csv (?f2(''r/compare.log'' := None, ''r/compare.log'' \<mapsto> [])) ''r/trace_core_00000000.csv''
      ''s/t.0.csv'' ''ibex'' ''spike'' default_opts = (out, Inr (compare_result 0 0))"
    using demo_compare [of "?f2(''r/compare.log'' := None, ''r/compare.log'' \<mapsto> [])"] by auto
  ultimately show ?thesis
    using f demo_parts(1)
    by (auto simp: compare_test_run_def demo_test_def entry_get_def opts_get_default_def Let_def demo_parts(5-11)
        process_iss_log_def compare_logs_def read_compare_opts_def compare_result_passed)
qed

theorem compare_result_typed_witness:
  "\<exists>l fs' trr. compare_test_run (\<lambda>_ f. f) (\<lambda>_. True) demo_fs demo_test 0 7 ''r'' ''spike'' ''s'' ''b'' = (l, fs', Inr trr) \<and>
     check_test_run_result trr = Inr () \<and> (trr_passed trr = YBool True \<or> (\<exists>m. trr_failure_message trr = YStr m))"
  using demo_run compare_result_typed by blast


end
