(* ===== verification/Results.thy ===== *)
theory Results
  imports Compare_Run
begin

text \<open>
  Collecting the results of a regression: \<^verbatim>\<open>dv/uvm/core_ibex/collect_results.py\<close>. The YAML loader, the
  writer of JUnit files and the text of a percentage are parameters.

  The lemmas show when the program succeeds, that no result is dropped, and on which inputs it does
  not come to a verdict.
\<close>

section \<open>Reading a result\<close>

text \<open>The record from its dictionary.\<close>

definition result_of_dict :: "(yval \<times> yval) list \<Rightarrow> TestRunResult" where
  "result_of_dict d =
     (let f = (\<lambda>k. case dict_get d (YStr k) of Some v \<Rightarrow> v | None \<Rightarrow> YNull) in
      \<lparr>trr_name = f ''name'', trr_idx = f ''idx'', trr_seed = f ''seed'', trr_binary = f ''binary'',
       trr_uvm_log = f ''uvm_log'', trr_rtl_trace = f ''rtl_trace'', trr_rtl_trace_csv = f ''rtl_trace_csv'',
       trr_iss_trace = f ''iss_trace'', trr_iss_trace_csv = f ''iss_trace_csv'',
       trr_comparison_log = f ''comparison_log'', trr_passed = f ''passed'',
       trr_failure_message = f ''failure_message''\<rparr>)"

definition has_result_fields :: "(yval \<times> yval) list \<Rightarrow> bool" where
  "has_result_fields d \<longleftrightarrow>
     list_all (\<lambda>(k, _). k \<in> set (map YStr test_run_result_fields)) d \<and>
     list_all (\<lambda>f. dict_has d (YStr f)) test_run_result_fields"

text \<open>\<open>load\<close> opens a file and reads it as YAML.\<close>

definition parse_test_run_result :: "(string \<Rightarrow> yval py_res) \<Rightarrow> string \<Rightarrow> TestRunResult py_res" where
  "parse_test_run_result load path =
     (let err = (\<lambda>e. Inl (RuntimeError (''Error loading YAML at path '' @ path @ '': '' @ e))) in
      case load path of
        Inl (FileNotFoundError p) \<Rightarrow> err (errno_text p)
      | Inl (OSError m) \<Rightarrow> err m
      | Inl (YAMLError m) \<Rightarrow> err m
      | Inl e \<Rightarrow> Inl e
      | Inr (YMap d) \<Rightarrow>
          if \<not> has_result_fields d
          then Inl (RuntimeError (''Error loading YAML at '' @ path @ '': does not contain the correct set of fields''))
          else (case check_test_run_result (result_of_dict d) of
                  Inr _ \<Rightarrow> Inr (result_of_dict d)
                | Inl _ \<Rightarrow> err ''field types were incorrect'')
      | Inr _ \<Rightarrow> Inl AttributeError)"

definition build_broken_test_run_result :: "string \<Rightarrow> TestRunResult" where
  "build_broken_test_run_result err =
     \<lparr>trr_name = YStr ''unknown'', trr_idx = YInt 0, trr_seed = YInt 0, trr_binary = YNull, trr_uvm_log = YNull,
      trr_rtl_trace = YNull, trr_rtl_trace_csv = YNull, trr_iss_trace = YNull, trr_iss_trace_csv = YNull,
      trr_comparison_log = YNull, trr_passed = YBool False, trr_failure_message = YStr err\<rparr>"

section \<open>Text\<close>

definition box_comment :: "string \<Rightarrow> string" where
  "box_comment line =
     (let hr = replicate 80 (CHR ''#'') in hr @ [newline] @ ''# '' @ line @ [newline] @ hr)"

text \<open>\<open>pct p t\<close> is the text of \<open>p / t * 100\<close> with two decimals.\<close>

definition gen_summary_line :: "(nat \<Rightarrow> nat \<Rightarrow> string) \<Rightarrow> 'a list \<Rightarrow> 'a list \<Rightarrow> string py_res" where
  "gen_summary_line pct passing failing =
     (let total = length passing + length failing in
      if total = 0 then Inl ZeroDivisionError
      else Inr (pct (length passing) total @ ''% PASS '' @ nat_str 10 (length passing) @ '' PASSED, '' @
                nat_str 10 (length failing) @ '' FAILED''))"

definition info_line :: "string \<Rightarrow> yval \<Rightarrow> string list" where
  "info_line label v = (if truth v then [label @ '': '' @ str_val v] else [])"

definition result_title :: "TestRunResult \<Rightarrow> string" where
  "result_title trr = str_val (trr_name trr) @ ''.'' @ str_val (trr_seed trr)"

definition gen_test_run_result_text :: "TestRunResult \<Rightarrow> string py_res" where
  "gen_test_run_result_text trr =
     (let title = result_title trr;
          info = [title, replicate (length title) (CHR ''-'')] @ info_line ''Test binary'' (trr_binary trr) @
            info_line ''UVM log'' (trr_uvm_log trr) @ info_line ''RTL trace'' (trr_rtl_trace trr) @
            info_line ''ISS trace'' (trr_iss_trace trr) @ info_line ''Comparison log'' (trr_comparison_log trr) @ [[]] in
      bind_res (if truth (trr_passed trr) then Inr ''[PASSED]'' else as_str (trr_failure_message trr)) (\<lambda>last_line.
        Inr (py_join [newline] (info @ [last_line]) @ [newline])))"

definition details :: "string \<Rightarrow> TestRunResult list \<Rightarrow> string py_res" where
  "details heading tests =
     (if tests = [] then Inr []
      else bind_res (map_res gen_test_run_result_text tests) (\<lambda>ts.
             Inr (box_comment heading @ [newline] @ concat (map (\<lambda>t. t @ [newline]) ts))))"

definition output_results_text ::
    "(nat \<Rightarrow> nat \<Rightarrow> string) \<Rightarrow> TestRunResult list \<Rightarrow> TestRunResult list \<Rightarrow> string py_res" where
  "output_results_text pct passing failing =
     bind_res (details ''Details of failing tests'' failing) (\<lambda>a.
     bind_res (details ''Details of passing tests'' passing) (\<lambda>b.
     bind_res (gen_summary_line pct passing failing) (\<lambda>s.
       Inr (a @ b @ [newline] @ s @ [newline]))))"

section \<open>JUnit\<close>

text \<open>A test case as the program fills it in: its name, its output, and the failures added to it.\<close>

record test_case =
  tc_name :: string
  tc_stdout :: string
  tc_failures :: "string list"

text \<open>Per test name: the cases, and the merged texts.\<close>

type_synonym suite_info = "(string, test_case list \<times> string \<times> string) dict"

definition add_to_suite :: "TestRunResult \<Rightarrow> suite_info \<Rightarrow> suite_info py_res" where
  "add_to_suite trr info =
     bind_res (gen_test_run_result_text trr) (\<lambda>result_text.
       (let name = str_val (trr_name trr);
            (unmerged, out, fails) = (case dict_get info name of Some x \<Rightarrow> x | None \<Rightarrow> ([], [], []));
            passed = truth (trr_passed trr);
            tc = \<lparr>tc_name = result_title trr, tc_stdout = result_text,
                  tc_failures = (if passed then [] else [result_text])\<rparr> in
        Inr (dict_set name (unmerged @ [tc], out @ result_text @ [newline],
                            if passed then fails else fails @ result_text) info)))"

definition merged_case :: "string \<Rightarrow> string \<Rightarrow> string \<Rightarrow> test_case" where
  "merged_case name out fails = \<lparr>tc_name = name, tc_stdout = out, tc_failures = [fails]\<rparr>"

definition output_run_results_junit_xml ::
    "((string \<times> test_case list) list \<Rightarrow> string) \<Rightarrow> TestRunResult list \<Rightarrow> TestRunResult list \<Rightarrow> (string \<times> string) py_res" where
  "output_run_results_junit_xml to_xml passing failing =
     bind_res (fold_res add_to_suite (passing @ failing) []) (\<lambda>info.
       Inr (to_xml (map (\<lambda>(name, cases, _, _). (name, cases)) info),
            to_xml (map (\<lambda>(name, _, out, fails). (name, [merged_case name out fails])) info)))"

section \<open>The program\<close>

text \<open>Sorting the results: a file that cannot be read is a failing test.\<close>

definition sort_result ::
    "(string \<Rightarrow> yval py_res) \<Rightarrow> string \<Rightarrow> TestRunResult list \<times> TestRunResult list \<Rightarrow>
     (TestRunResult list \<times> TestRunResult list) py_res" where
  "sort_result load path acc =
     (case acc of
        (passing, failing) \<Rightarrow>
          (case parse_test_run_result load path of
             Inr trr \<Rightarrow> Inr (if truth (trr_passed trr) then (passing @ [trr], failing) else (passing, failing @ [trr]))
           | Inl (RuntimeError e) \<Rightarrow> Inr (passing, failing @ [build_broken_test_run_result e])
           | Inl e \<Rightarrow> Inl e))"

text \<open>The files written, what is printed, and the exit status.\<close>

definition collect_main ::
    "(string \<Rightarrow> yval py_res) \<Rightarrow> ((string \<times> test_case list) list \<Rightarrow> string) \<Rightarrow> (nat \<Rightarrow> nat \<Rightarrow> string) \<Rightarrow>
     string \<Rightarrow> string list \<Rightarrow> ((string \<times> string) list \<times> string \<times> int) py_res" where
  "collect_main load to_xml pct output_dir paths =
     bind_res (fold_res (sort_result load) paths ([], [])) (\<lambda>(passing, failing).
     bind_res (output_results_text pct passing failing) (\<lambda>regr.
     bind_res (output_run_results_junit_xml to_xml passing failing) (\<lambda>(junit, merged).
     bind_res (gen_summary_line pct passing failing) (\<lambda>summary.
       Inr ([(path_join output_dir ''regr.log'', regr), (path_join output_dir ''regr_junit.xml'', junit),
             (path_join output_dir ''regr_junit_merged.xml'', merged)],
            summary @ [newline], if failing \<noteq> [] then 1 else 0)))))"

section \<open>The verdict on a regression\<close>

abbreviation typed :: "TestRunResult \<Rightarrow> bool" where
  "typed trr \<equiv> check_test_run_result trr = Inr ()"

lemma parse_typed: "parse_test_run_result load path = Inr trr \<Longrightarrow> typed trr"
  by (auto simp: parse_test_run_result_def Let_def split: sum.splits py_exn.splits yval.splits if_splits)

lemma broken_typed: "typed (build_broken_test_run_result e)" "\<not> truth (trr_passed (build_broken_test_run_result e))"
  by (simp_all add: check_test_run_result_def build_broken_test_run_result_def is_str_def is_int_def is_bool_def truth_def)

lemma text_total: "typed trr \<Longrightarrow> \<exists>t. gen_test_run_result_text trr = Inr t"
  by (auto simp: gen_test_run_result_text_def check_test_run_result_def is_str_def as_str_def Let_def
      split: if_splits yval.splits)

lemma map_res_ex: "(\<And>x. x \<in> set xs \<Longrightarrow> \<exists>y. f x = Inr y) \<Longrightarrow> \<exists>ys. map_res f xs = Inr ys"
  by (induction xs) fastforce+

lemma details_total: "list_all typed ts \<Longrightarrow> \<exists>d. details h ts = Inr d"
  using map_res_ex [of ts gen_test_run_result_text] text_total by (fastforce simp: details_def list_all_iff)

lemma suites_total: "list_all typed ts \<Longrightarrow> \<exists>i. fold_res add_to_suite ts info = Inr i"
proof (induction ts arbitrary: info)
  case (Cons t ts)
  then obtain x where "gen_test_run_result_text t = Inr x" using text_total by auto
  then obtain i where "add_to_suite t info = Inr i"
    by (cases "case dict_get info (str_val (trr_name t)) of Some x \<Rightarrow> x | None \<Rightarrow> ([], [], [])")
       (simp add: add_to_suite_def Let_def)
  with Cons show ?case by simp
qed simp

text \<open>A path counts as passed when its file is a well-formed result with that verdict.\<close>

definition path_passed :: "(string \<Rightarrow> yval py_res) \<Rightarrow> string \<Rightarrow> bool" where
  "path_passed load path \<longleftrightarrow>
     (case parse_test_run_result load path of Inr trr \<Rightarrow> trr_passed trr = YBool True | Inl _ \<Rightarrow> False)"

text \<open>Files that are judged: a mapping, or an error that is reported.\<close>

definition judged :: "(string \<Rightarrow> yval py_res) \<Rightarrow> string \<Rightarrow> bool" where
  "judged load path \<longleftrightarrow>
     (case parse_test_run_result load path of Inl (RuntimeError _) \<Rightarrow> True | Inl _ \<Rightarrow> False | Inr _ \<Rightarrow> True)"

lemma typed_passed: "typed trr \<Longrightarrow> truth (trr_passed trr) \<longleftrightarrow> trr_passed trr = YBool True"
  by (auto simp: check_test_run_result_def is_bool_def truth_def split: if_splits yval.splits)

lemma sort_result_judged:
  assumes "judged load path"
  shows "\<exists>P F. sort_result load path (a, b) = Inr (a @ P, b @ F) \<and> length P + length F = 1 \<and>
     (F = [] \<longleftrightarrow> path_passed load path) \<and> list_all typed (P @ F)"
proof (cases "parse_test_run_result load path")
  case (Inl e)
  with assms obtain m where "e = RuntimeError m" by (auto simp: judged_def split: py_exn.splits)
  with Inl show ?thesis
    by (intro exI [of _ "[]"] exI [of _ "[build_broken_test_run_result m]"])
       (simp add: sort_result_def path_passed_def broken_typed)
next
  case (Inr trr)
  note t = parse_typed [OF Inr]
  show ?thesis
  proof (cases "truth (trr_passed trr)")
    case True
    then have "trr_passed trr = YBool True" using t typed_passed by blast
    with Inr t True show ?thesis
      by (intro exI [of _ "[trr]"] exI [of _ "[]"]) (simp add: sort_result_def path_passed_def)
  next
    case False
    then have "trr_passed trr \<noteq> YBool True" using t typed_passed by blast
    with Inr t False show ?thesis
      by (intro exI [of _ "[]"] exI [of _ "[trr]"]) (simp add: sort_result_def path_passed_def)
  qed
qed

lemma sort_fold:
  assumes "list_all (judged load) paths"
  shows "\<exists>P F. fold_res (sort_result load) paths (a, b) = Inr (a @ P, b @ F) \<and> length P + length F = length paths \<and>
     (F = [] \<longleftrightarrow> list_all (path_passed load) paths) \<and> list_all typed (P @ F)"
  using assms
proof (induction paths arbitrary: a b)
  case (Cons path paths)
  then obtain P F where 1: "sort_result load path (a, b) = Inr (a @ P, b @ F)" "length P + length F = 1"
    "F = [] \<longleftrightarrow> path_passed load path" "list_all typed (P @ F)"
    using sort_result_judged [of load path a b] by auto
  from Cons.prems obtain P' F' where 2: "fold_res (sort_result load) paths (a @ P, b @ F) = Inr ((a @ P) @ P', (b @ F) @ F')"
    "length P' + length F' = length paths" "F' = [] \<longleftrightarrow> list_all (path_passed load) paths" "list_all typed (P' @ F')"
    using Cons.IH [of "a @ P" "b @ F"] by auto
  from 1 2 show ?case by (intro exI [of _ "P @ P'"] exI [of _ "F @ F'"]) auto
qed simp

lemma collect_verdict:
  assumes "paths \<noteq> []" "list_all (judged load) paths"
  shows "\<exists>regr junit merged summary status.
     collect_main load to_xml pct out paths =
       Inr ([(path_join out ''regr.log'', regr), (path_join out ''regr_junit.xml'', junit),
             (path_join out ''regr_junit_merged.xml'', merged)], summary, status) \<and>
     status \<in> {0, 1} \<and> (status = 0 \<longleftrightarrow> list_all (path_passed load) paths)"
proof -
  obtain P F where 1: "fold_res (sort_result load) paths ([], []) = Inr (P, F)" "length P + length F = length paths"
    "F = [] \<longleftrightarrow> list_all (path_passed load) paths" "list_all typed (P @ F)"
    using sort_fold [OF assms(2), of "[]" "[]"] by auto
  have ne: "length P + length F \<noteq> 0" using 1(2) assms(1) by simp
  then obtain s where s: "gen_summary_line pct P F = Inr s" by (simp add: gen_summary_line_def Let_def)
  obtain da db i where "details ''Details of failing tests'' F = Inr da" "details ''Details of passing tests'' P = Inr db"
      "fold_res add_to_suite (P @ F) [] = Inr i"
    using details_total [of F] details_total [of P] suites_total [of "P @ F" "[]"] 1(4) by fastforce
  then show ?thesis
    using 1(1,3) s by (simp add: collect_main_def output_results_text_def output_run_results_junit_xml_def)
qed


definition demo_result :: "bool \<Rightarrow> yval" where
  "demo_result ok = YMap (zip (map YStr test_run_result_fields)
     [YStr ''t'', YInt 0, YInt 7, YNull, YNull, YNull, YNull, YNull, YNull, YNull, YBool ok, YStr ''m''])"

definition demo_load :: "string \<Rightarrow> yval py_res" where
  "demo_load p = (if p = ''good'' then Inr (demo_result True) else Inl (FileNotFoundError p))"

lemma demo_judged: "judged demo_load ''good''" "path_passed demo_load ''good''" "judged demo_load ''none''"
    "\<not> path_passed demo_load ''none''"
  by code_simp+


section \<open>Inputs without a verdict\<close>

text \<open>
  C38. Two inputs end the program with an exception. A regression without runs divides by zero. A
  result file that is there but holds no mapping, such as an empty one, ends it with an
  \<^verbatim>\<open>AttributeError\<close>, whatever the results before it are, instead of counting as a failed test.
\<close>

theorem collect_no_verdict:
  assumes "list_all (judged load) before" "load path = Inr v" "\<And>d. v \<noteq> YMap d"
  shows "collect_main load to_xml pct out [] = Inl ZeroDivisionError \<and>
     collect_main load to_xml pct out (before @ path # rest) = Inl AttributeError"
proof
  show "collect_main load to_xml pct out [] = Inl ZeroDivisionError"
    by (simp add: collect_main_def output_results_text_def details_def gen_summary_line_def)
  have parse: "parse_test_run_result load path = Inl AttributeError"
    using assms(2,3) by (cases v) (auto simp: parse_test_run_result_def)
  obtain P F where "fold_res (sort_result load) before ([], []) = Inr (P, F)"
    using sort_fold [OF assms(1), of "[]" "[]"] by auto
  with parse show "collect_main load to_xml pct out (before @ path # rest) = Inl AttributeError"
    by (simp add: collect_main_def fold_res_append sort_result_def)
qed

theorem collect_no_verdict_witness:
  "collect_main (\<lambda>_. Inr YNull) (\<lambda>_. []) (\<lambda>_ _. []) ''o'' [] = Inl ZeroDivisionError \<and>
   collect_main (\<lambda>_. Inr YNull) (\<lambda>_. []) (\<lambda>_ _. []) ''o'' ([] @ ''trr.yaml'' # []) = Inl AttributeError"
  by (rule collect_no_verdict [of _ "[]" _ YNull]) simp_all

end
