(* ===== verification/Makefrag.thy ===== *)
theory Makefrag
  imports Ibex_Config Riscv_Lib
begin

text \<open>
  The makefile fragment with the options of a configuration:
  \<^verbatim>\<open>dv/uvm/core_ibex/sim_makefrag_gen.py\<close>, which runs the configuration tool as a process and copies what
  that prints.

  The lemmas compose the two programs: they show what the fragment holds when the process is the
  configuration tool, and that the fragment for one of the simulators does not hold the options.
\<close>

section \<open>The generator\<close>

text \<open>What a finished process leaves: exit code, standard output, standard error.\<close>

record process_result =
  returncode :: int
  stdout :: string
  stderr :: string

text \<open>The global variables of the module.\<close>

record makefrag_env =
  ibex_config_path :: string
  ibex_config_name :: string
  ibex_config_filename :: string

definition ibex_config_cmd :: "makefrag_env \<Rightarrow> string \<Rightarrow> string list \<Rightarrow> string list" where
  "ibex_config_cmd env output_type extra_args =
     [ibex_config_path env, ibex_config_name env, ''--config_filename'', ibex_config_filename env, output_type] @ extra_args"

definition run_ibex_config ::
    "(string list \<Rightarrow> process_result) \<Rightarrow> makefrag_env \<Rightarrow> string \<Rightarrow> string list \<Rightarrow> string py_res" where
  "run_ibex_config proc env output_type extra_args =
     (let result = proc (ibex_config_cmd env output_type extra_args) in
      if returncode result \<noteq> 0
      then Inl (GenError (''Error running '' @ ibex_config_path env @ '' got:'' @ [CHR 0x0A] @ stdout result @
                 [CHR 0x0A] @ stderr result))
      else Inr (stdout result))"

definition tb_args :: "string list" where
  "tb_args = [''--ins_hier_path'', ''core_ibex_tb_top'', ''--string_define_prefix'', ''IBEX_CFG_'']"

definition gen_vcs_makefrag :: "(string list \<Rightarrow> process_result) \<Rightarrow> makefrag_env \<Rightarrow> string py_res" where
  "gen_vcs_makefrag proc env =
     bind_res (run_ibex_config proc env ''vcs_opts'' tb_args) (\<lambda>opts. Inr (''COMPILE_OPTS += '' @ opts))"

definition gen_riviera_makefrag :: "(string list \<Rightarrow> process_result) \<Rightarrow> makefrag_env \<Rightarrow> string py_res" where
  "gen_riviera_makefrag proc env =
     bind_res (run_ibex_config proc env ''riviera_compile_opts'' tb_args) (\<lambda>compile_opts.
     bind_res (run_ibex_config proc env ''riviera_sim_opts'' tb_args) (\<lambda>sim_opts.
       Inr (''COMPILE_OPTS += '' @ compile_opts @ ''SIM_OPTS += '' @ sim_opts)))"

definition gen_questa_makefrag :: "(string list \<Rightarrow> process_result) \<Rightarrow> makefrag_env \<Rightarrow> string py_res" where
  "gen_questa_makefrag proc env =
     bind_res (run_ibex_config proc env ''questa_compile_opts'' tb_args) (\<lambda>compile_opts.
     bind_res (run_ibex_config proc env ''questa_sim_opts'' tb_args) (\<lambda>sim_opts.
       Inr (''COMPILE_OPTS += '' @ compile_opts @ ''SIM_OPTS += '' @ sim_opts)))"

definition gen_xlm_makefrag :: "(string list \<Rightarrow> process_result) \<Rightarrow> makefrag_env \<Rightarrow> string py_res" where
  "gen_xlm_makefrag proc env =
     bind_res (run_ibex_config proc env ''xlm_opts'' tb_args) (\<lambda>opts. Inr (''COMPILE_OPTS += '' @ opts))"

text \<open>Here the text is that of the function object itself, \<open>self_repr\<close>.\<close>

definition gen_dsim_makefrag :: "string \<Rightarrow> (string list \<Rightarrow> process_result) \<Rightarrow> makefrag_env \<Rightarrow> string py_res" where
  "gen_dsim_makefrag self_repr proc env =
     bind_res (run_ibex_config proc env ''dsim_compile_opts'' tb_args) (\<lambda>opts. Inr (''COMPILE_OPTS += '' @ self_repr))"

definition sim_fns ::
    "string \<Rightarrow> (string \<times> ((string list \<Rightarrow> process_result) \<Rightarrow> makefrag_env \<Rightarrow> string py_res)) list" where
  "sim_fns self_repr =
     [(''vcs'', gen_vcs_makefrag), (''riviera'', gen_riviera_makefrag), (''xlm'', gen_xlm_makefrag),
      (''questa'', gen_questa_makefrag), (''dsim'', gen_dsim_makefrag self_repr)]"

text \<open>
  The program over its arguments: the content of the fragment, which is opened and so emptied first,
  what is printed, and the exit. A simulator that is not in the table is refused by \<^verbatim>\<open>argparse\<close>.
\<close>

definition makefrag_main ::
    "string \<Rightarrow> (string list \<Rightarrow> process_result) \<Rightarrow> string \<Rightarrow> string \<Rightarrow> string \<Rightarrow> string option \<times> string \<times> unit py_res" where
  "makefrag_main self_repr proc sim config ibex_top =
     (let env = \<lparr>ibex_config_path = path_join ibex_top ''util/ibex_config.py'', ibex_config_name = config,
                 ibex_config_filename = path_join ibex_top ''ibex_configs.yaml''\<rparr> in
      case dict_get (sim_fns self_repr) sim of
        None \<Rightarrow> (None, [], Inl (SystemExit 2))
      | Some f \<Rightarrow>
          (case f proc env of
             Inr content \<Rightarrow> (Some content, [], Inr ())
           | Inl (GenError e) \<Rightarrow>
               (Some [], ''Failure generating simulation options for '' @ sim @ [CHR 0x0A] @ e @ [CHR 0x0A],
                Inl (SystemExit 1))
           | Inl e \<Rightarrow> (Some [], [], Inl e)))"

text \<open>The program from the strings after its name.\<close>

definition makefrag_parser :: arg_parser where
  "makefrag_parser =
     \<lparr>actions =
        [help_action,
         (pos_arg ''sim'' NOne)\<lparr>choices := Some (map YStr [''vcs'', ''riviera'', ''xlm'', ''questa'', ''dsim''])\<rparr>,
         pos_arg ''config'' NOne, pos_arg ''ibex_top'' NOne, pos_arg ''makefrag_name'' NOne],
      parser_defaults = []\<rparr>"

definition makefrag_cli ::
    "string \<Rightarrow> (string list \<Rightarrow> process_result) \<Rightarrow> string list \<Rightarrow> (string \<times> string option) \<times> string \<times> unit py_res" where
  "makefrag_cli self_repr proc argv =
     (case parse_args no_subs makefrag_parser argv of
        Inl e \<Rightarrow> (([], None), [], Inl e)
      | Inr n \<Rightarrow>
          (case makefrag_main self_repr proc (ns_str n ''sim'') (ns_str n ''config'') (ns_str n ''ibex_top'') of
             (content, out, r) \<Rightarrow> ((ns_str n ''makefrag_name'', content), out, r)))"

lemma parse_makefrag:
  assumes "sim \<in> {''vcs'', ''riviera'', ''xlm'', ''questa'', ''dsim''}" "plain config" "plain ibex_top" "plain name"
  shows "parse_args no_subs makefrag_parser [sim, config, ibex_top, name] =
    Inr [(''sim'', YStr sim), (''config'', YStr config), (''ibex_top'', YStr ibex_top), (''makefrag_name'', YStr name)]"
proof -
  have "plain sim" using assms(1) by (auto simp: plain_def)
  then have pl: "list_all plain [sim, config, ibex_top, name]" using assms by simp
  let ?pos = "positionals makefrag_parser"
  have "list_all (\<lambda>a. act_nargs a = NOne) ?pos" "length ?pos = 4"
    by (simp_all add: positionals_def makefrag_parser_def add_argument_defs)
  then have "take_positionals no_subs ?pos (args_of [sim, config, ibex_top, name]) s =
      bind_res (take_all no_subs (map (\<lambda>(a, x). (a, [x])) (zip ?pos [sim, config, ibex_top, name])) s)
        (\<lambda>t. Inr ([], length ?pos, t))" for s
    by (intro take_positionals_ones) simp_all
  then have "parse_known_args no_subs makefrag_parser [sim, config, ibex_top, name] =
      bind_res (take_all no_subs (map (\<lambda>(a, x). (a, [x])) (zip ?pos [sim, config, ibex_top, name])) (initial_state makefrag_parser))
        (finish_args makefrag_parser)"
    using parse_known_rendered [of makefrag_parser "[]", OF _ pl, of no_subs]
    by (simp add: bind_res_assoc positionals_def makefrag_parser_def add_argument_defs)
  moreover have "\<dots> = Inr ([(''sim'', YStr sim), (''config'', YStr config), (''ibex_top'', YStr ibex_top),
      (''makefrag_name'', YStr name)], [])"
    using assms(1) \<open>plain sim\<close> assms(2-4)
    by (simp add: arg_eval makefrag_parser_def)
  ultimately show ?thesis by (simp add: parse_args_def)
qed

section \<open>The configuration tool as a process\<close>

text \<open>
  What the command line of the generator makes of the configuration tool. An exception that is no exit
  gives status 1.
\<close>

definition exit_code :: "unit py_res \<Rightarrow> int" where
  "exit_code r = (case r of Inr _ \<Rightarrow> 0 | Inl (SystemExit n) \<Rightarrow> n | Inl _ \<Rightarrow> 1)"

definition config_process ::
    "(string \<Rightarrow> string + yval) \<Rightarrow> (yval list \<Rightarrow> yval list) \<Rightarrow> (string \<Rightarrow> string option) \<Rightarrow> (string \<Rightarrow> string option) \<Rightarrow>
     string list \<Rightarrow> process_result" where
  "config_process yaml_load ord fs environ argv =
     (case ibex_config_cli yaml_load ord fs environ (tl argv) of
        ((out, err), r) \<Rightarrow> \<lparr>returncode = exit_code r, stdout = out, stderr = err\<rparr>)"

definition tb_out_args :: out_args where
  "tb_out_args = \<lparr>ins_hier_path = ''core_ibex_tb_top'', string_define_prefix = ''IBEX_CFG_''\<rparr>"

lemma run_config_process:
  assumes "parse_config yaml_load ord fs (ibex_config_name env) (ibex_config_filename env) = (err, Inr cfg)"
    and "config_items cfg = Inr items" and "so \<in> set simulators"
    and "find (\<lambda>s. cmd_name s = cmd_name so) simulators = Some so" and "simopts_list so tb_out_args items = Inr os"
    and "plain (ibex_config_name env)" "plain (ibex_config_filename env)"
  shows "run_ibex_config (config_process yaml_load ord fs environ) env (cmd_name so) tb_args =
     Inr (quote_join os @ [CHR 0x0A])"
proof -
  have so: "cmd_name so \<noteq> ''fusesoc_opts''" using assms(3) by (auto simp: simulators_def)
  have "plain ''core_ibex_tb_top''" "plain ''IBEX_CFG_''" by (simp_all add: plain_def)
  note p = parse_ibex_config [OF assms(6,7) this assms(3,4), of environ]
  show ?thesis
    using assms(1-5) so
    by (simp add: run_ibex_config_def ibex_config_cmd_def config_process_def tb_args_def ibex_config_cli_def p
        ibex_config_main_def Let_def exit_code_def output_fn_def simopts_output_def tb_out_args_def
        ns_str_def ns_opt_str_def ns_get_def dict_get_def)
qed

definition sim_opts_of :: "string \<Rightarrow> SimOpts" where
  "sim_opts_of name = hd (filter (\<lambda>so. cmd_name so = name) simulators)"

lemma sim_opts_of_found:
  assumes "name \<in> {''vcs_opts'', ''riviera_sim_opts'', ''riviera_compile_opts'', ''questa_sim_opts'',
    ''questa_compile_opts'', ''xlm_opts'', ''dsim_compile_opts''}"
  shows "sim_opts_of name \<in> set simulators \<and> cmd_name (sim_opts_of name) = name \<and>
     find (\<lambda>s. cmd_name s = name) simulators = Some (sim_opts_of name)"
  using assms by (auto simp: sim_opts_of_def simulators_def)

lemma run_config_named:
  assumes "parse_config yaml_load ord fs (ibex_config_name env) (ibex_config_filename env) = (err, Inr cfg)"
    and "config_items cfg = Inr items" "simopts_list (sim_opts_of name) tb_out_args items = Inr os"
    and "name \<in> {''vcs_opts'', ''riviera_sim_opts'', ''riviera_compile_opts'', ''questa_sim_opts'',
    ''questa_compile_opts'', ''xlm_opts'', ''dsim_compile_opts''}"
    and "plain (ibex_config_name env)" "plain (ibex_config_filename env)"
  shows "run_ibex_config (config_process yaml_load ord fs environ) env name tb_args = Inr (quote_join os @ [CHR 0x0A])"
  using run_config_process [OF assms(1,2), of "sim_opts_of name" os environ] sim_opts_of_found [OF assms(4)] assms(3,5,6) by simp

lemma quote_join_words: "shell_words (quote_join os) = Some os"
  by (simp add: quote_join_def shell_words_join)

section \<open>What the fragment holds\<close>

text \<open>The variables that a simulator's fragment sets, with the output format that each is filled from.\<close>

definition phases :: "string \<Rightarrow> (string \<times> string) list" where
  "phases sim =
     (if sim = ''vcs'' then [(''COMPILE_OPTS'', ''vcs_opts'')]
      else if sim = ''xlm'' then [(''COMPILE_OPTS'', ''xlm_opts'')]
      else [(''COMPILE_OPTS'', sim @ ''_compile_opts''), (''SIM_OPTS'', sim @ ''_sim_opts'')])"

text \<open>The assignments of a fragment.\<close>

definition assignments :: "(string \<times> string) list \<Rightarrow> string list \<Rightarrow> string" where
  "assignments ps ls = concat (map2 (\<lambda>(var, _) l. var @ '' += '' @ l @ [CHR 0x0A]) ps ls)"

lemma plain_join: "plain a \<Longrightarrow> plain b \<Longrightarrow> plain (path_join a b)"
  by (cases a) (auto simp: plain_def path_join_def)

lemma makefrag_main_options:
  assumes "parse_config yaml_load ord fs config (path_join ibex_top ''ibex_configs.yaml'') = (err, Inr (YMap items))"
    and "checked items" and "plain config" "plain ibex_top"
  obtains opts where "\<And>fmt. simopts_list (sim_opts_of fmt) tb_out_args items = Inr (opts fmt)"
    and "\<And>sim. sim \<in> {''vcs'', ''riviera'', ''questa'', ''xlm''} \<Longrightarrow>
           makefrag_main r (config_process yaml_load ord fs environ) sim config ibex_top =
             (Some (assignments (phases sim) (map (\<lambda>(_, fmt). quote_join (opts fmt)) (phases sim))), [], Inr ())"
    and "makefrag_main r (config_process yaml_load ord fs environ) ''dsim'' config ibex_top =
       (Some (''COMPILE_OPTS += '' @ r), [], Inr ())"
proof -
  let ?env = "\<lparr>ibex_config_path = path_join ibex_top ''util/ibex_config.py'', ibex_config_name = config,
               ibex_config_filename = path_join ibex_top ''ibex_configs.yaml''\<rparr>"
  define opts where "opts = (\<lambda>fmt. projr (simopts_list (sim_opts_of fmt) tb_out_args items))"
  have opts: "simopts_list (sim_opts_of fmt) tb_out_args items = Inr (opts fmt)" for fmt
    using simopts_total [OF assms(2), of "sim_opts_of fmt" tb_out_args] by (auto simp: opts_def)
  have "plain (path_join ibex_top ''ibex_configs.yaml'')" using assms(4) by (rule plain_join) (simp add: plain_def)
  then have run: "run_ibex_config (config_process yaml_load ord fs environ) ?env fmt tb_args = Inr (quote_join (opts fmt) @ [CHR 0x0A])"
    if "fmt \<in> {''vcs_opts'', ''riviera_sim_opts'', ''riviera_compile_opts'', ''questa_sim_opts'', ''questa_compile_opts'',
      ''xlm_opts'', ''dsim_compile_opts''}" for fmt
    using assms(1,3) opts that by (intro run_config_named [of _ _ _ ?env err "YMap items" items]) (auto simp: config_items_def)
  show thesis
  proof
    show "makefrag_main r (config_process yaml_load ord fs environ) ''dsim'' config ibex_top =
       (Some (''COMPILE_OPTS += '' @ r), [], Inr ())"
      by (simp add: makefrag_main_def Let_def sim_fns_def gen_dsim_makefrag_def run)
  qed (use opts run in \<open>auto simp: makefrag_main_def Let_def sim_fns_def gen_vcs_makefrag_def gen_riviera_makefrag_def
            gen_questa_makefrag_def gen_xlm_makefrag_def phases_def assignments_def\<close>)
qed

text \<open>
  C14. From command line to fragment: for the simulators VCS, Riviera, Questa and Xcelium and a
  configuration that was checked, the program writes the fragment without a message; the fragment sets
  the variables that the simulator needs, one to a line, and a shell that reads the value of a variable
  gets exactly the options that the configuration tool computes for that phase, although they pass
  through the command line and the output of a second program. For DSim the fragment holds the text of
  a Python function object instead, whatever the configuration is.
\<close>

theorem makefrag_options:
  assumes "parse_config yaml_load ord fs config (path_join ibex_top ''ibex_configs.yaml'') = (err, Inr (YMap items))"
    and "checked items" and "sim \<in> {''vcs'', ''riviera'', ''questa'', ''xlm''}"
    and "plain config" "plain ibex_top" "plain name"
  shows "(\<exists>ls oss. makefrag_cli r (config_process yaml_load ord fs environ) [sim, config, ibex_top, name] =
            ((name, Some (assignments (phases sim) ls)), [], Inr ()) \<and>
          map shell_words ls = map Some oss \<and>
          map (\<lambda>(_, fmt). simopts_list (sim_opts_of fmt) tb_out_args items) (phases sim) = map Inr oss) \<and>
     makefrag_cli r (config_process yaml_load ord fs environ) [''dsim'', config, ibex_top, name] =
       ((name, Some (''COMPILE_OPTS += '' @ r)), [], Inr ())"
proof -
  obtain opts where o: "\<And>fmt. simopts_list (sim_opts_of fmt) tb_out_args items = Inr (opts fmt)"
    "\<And>sim. sim \<in> {''vcs'', ''riviera'', ''questa'', ''xlm''} \<Longrightarrow>
       makefrag_main r (config_process yaml_load ord fs environ) sim config ibex_top =
         (Some (assignments (phases sim) (map (\<lambda>(_, fmt). quote_join (opts fmt)) (phases sim))), [], Inr ())"
    "makefrag_main r (config_process yaml_load ord fs environ) ''dsim'' config ibex_top =
       (Some (''COMPILE_OPTS += '' @ r), [], Inr ())"
    using makefrag_main_options [OF assms(1,2,4,5)] by metis
  have cli: "makefrag_cli r proc [s, config, ibex_top, name] =
      (case makefrag_main r proc s config ibex_top of (content, out, res) \<Rightarrow> ((name, content), out, res))"
    if "s \<in> {''vcs'', ''riviera'', ''xlm'', ''questa'', ''dsim''}" for s proc
    by (simp add: makefrag_cli_def parse_makefrag [OF that assms(4-6)] ns_str_def ns_get_def dict_get_def)
  show ?thesis
  proof
    show "\<exists>ls oss. makefrag_cli r (config_process yaml_load ord fs environ) [sim, config, ibex_top, name] =
            ((name, Some (assignments (phases sim) ls)), [], Inr ()) \<and>
          map shell_words ls = map Some oss \<and>
          map (\<lambda>(_, fmt). simopts_list (sim_opts_of fmt) tb_out_args items) (phases sim) = map Inr oss"
      by (rule exI [of _ "map (\<lambda>(_, fmt). quote_join (opts fmt)) (phases sim)"],
          rule exI [of _ "map (\<lambda>(_, fmt). opts fmt) (phases sim)"])
         (use assms(3) cli [of sim] o(2) [OF assms(3)] in \<open>auto simp: o(1) quote_join_words\<close>)
  qed (use cli [of "''dsim''"] o(3) in simp)
qed

definition demo_items :: "(yval \<times> yval) list" where
  "demo_items = [(YStr ''RV32M'', YStr ''ibex_pkg::RV32MFast''), (YStr ''PMPEnable'', YBool False)]"

theorem makefrag_options_witness:
  "(\<exists>ls oss. makefrag_cli ''<f>'' (config_process (\<lambda>_. Inr (YMap [(YStr ''small'', YMap demo_items)])) id Some (\<lambda>_. None))
            [''questa'', ''small'', ''top'', ''frag.mk''] = ((''frag.mk'', Some (assignments (phases ''questa'') ls)), [], Inr ()) \<and>
          map shell_words ls = map Some oss \<and>
          map (\<lambda>(_, fmt). simopts_list (sim_opts_of fmt) tb_out_args demo_items) (phases ''questa'') = map Inr oss) \<and>
     makefrag_cli ''<f>'' (config_process (\<lambda>_. Inr (YMap [(YStr ''small'', YMap demo_items)])) id Some (\<lambda>_. None))
       [''dsim'', ''small'', ''top'', ''frag.mk''] = ((''frag.mk'', Some (''COMPILE_OPTS += '' @ ''<f>'')), [], Inr ())"
proof (rule makefrag_options)
  show "parse_config (\<lambda>_. Inr (YMap [(YStr ''small'', YMap demo_items)])) id Some ''small''
      (path_join ''top'' ''ibex_configs.yaml'') = ([], Inr (YMap demo_items))"
    by code_simp
qed (simp_all add: checked_def demo_items_def plain_def)

end
