(* ===== verification/Sv2v.thy ===== *)
theory Sv2v
  imports Trace_Csv
begin

text \<open>
  Converting a list of SystemVerilog files in place: \<^verbatim>\<open>util/sv2v_in_place.py\<close>. The converter \<^verbatim>\<open>sv2v\<close> and
  the compiler of regular expressions are parameters.

  The lemmas show that the conversion is all or nothing, and that each file is converted from the
  original sources although the files are overwritten.
\<close>

section \<open>Conversion of one file\<close>

type_synonym fs = "string \<Rightarrow> string option"

text \<open>A run of the converter: its command line and the files give an exit code and a text.\<close>

type_synonym converter = "string list \<Rightarrow> fs \<Rightarrow> int \<times> string"

definition read_file_list :: "fs \<Rightarrow> string \<Rightarrow> string list option" where
  "read_file_list files path = map_option (\<lambda>t. map strip (text_lines t)) (files path)"

definition sv2v_cmd :: "string \<Rightarrow> string list \<Rightarrow> string list \<Rightarrow> string list \<Rightarrow> string \<Rightarrow> string list" where
  "sv2v_cmd sv2v defines incdirs pkg_paths sv_path =
     [sv2v, ''--exclude=assert''] @ map (\<lambda>d. ''--define='' @ d) defines @ map (\<lambda>d. ''--incdir='' @ d) incdirs @
     pkg_paths @ (if sv_path \<in> set pkg_paths then [] else [sv_path])"

text \<open>The output file is opened, and so emptied, before the converter runs.\<close>

definition transform_one ::
    "converter \<Rightarrow> string \<Rightarrow> string list \<Rightarrow> string list \<Rightarrow> string list \<Rightarrow> string \<Rightarrow> string \<Rightarrow> fs \<Rightarrow> log \<times> fs \<times> unit py_res" where
  "transform_one conv sv2v defines incdirs pkg_paths sv_path dst_path files =
     (let cmd = sv2v_cmd sv2v defines incdirs pkg_paths sv_path;
          l = [(LogInfo, ''Running sv2v on '' @ sv_path), (LogDebug, ''Command: '' @ repr_val (YSeq (map YStr cmd)))] in
      case conv cmd (files(dst_path \<mapsto> [])) of
        (status, out) \<Rightarrow>
          (l, files(dst_path \<mapsto> out),
           if status \<noteq> 0
           then Inl (RuntimeError (''Failed to run sv2v on '' @ sv_path @ ''. Exit code: '' @ int_str status @
                      ''. Full command: '' @ py_join '' '' (map shlex_quote cmd)))
           else Inr ()))"

text \<open>\<open>compile\<close> is \<^verbatim>\<open>re.compile\<close>: an error message, or whether the pattern is found in a text.\<close>

definition parse_define_if ::
    "(string \<Rightarrow> string + (string \<Rightarrow> bool)) \<Rightarrow> string \<Rightarrow> ((string \<Rightarrow> bool) \<times> string) py_res" where
  "parse_define_if compile arg =
     (case rsplit_once (CHR '':'') arg of
        None \<Rightarrow> Inl (ArgumentTypeError (''The --define-if argument '' @ py_repr arg @
                  '' contains no colon. The correct syntax is '' @ [dquote] @ ''--define-if regex:define'' @ [dquote] @ ''.''))
      | Some (re_str, define) \<Rightarrow>
          (case compile re_str of
             Inr p \<Rightarrow> Inr (p, define)
           | Inl err \<Rightarrow> Inl (ArgumentTypeError (''The regex for the --define-if argument ('' @ py_repr re_str @
                          '') is malformed: '' @ err @ ''.''))))"

section \<open>Conversion of a list\<close>

definition extra_defines :: "((string \<Rightarrow> bool) \<times> string) list \<Rightarrow> string \<Rightarrow> string list" where
  "extra_defines defines_if src_path = map snd (filter (\<lambda>(search, _). search src_path) defines_if)"

text \<open>The settings of a conversion that do not change from file to file.\<close>

record sv2v_args =
  sa_sv2v :: string
  sa_defines :: "string list"
  sa_defines_if :: "((string \<Rightarrow> bool) \<times> string) list"
  sa_incdirs :: "string list"

text \<open>The first loop: each file into one of its own in the temporary directory.\<close>

fun transform_all ::
    "converter \<Rightarrow> sv2v_args \<Rightarrow> string list \<Rightarrow> string \<Rightarrow> nat \<Rightarrow> string list \<Rightarrow> fs \<Rightarrow> log \<times> fs \<times> string list py_res" where
  "transform_all conv args pkg_paths tmpdir idx [] files = ([], files, Inr [])"
| "transform_all conv args pkg_paths tmpdir idx (src_path # rest) files =
     (let dst_path = path_join tmpdir (nat_str 10 idx) in
      case transform_one conv (sa_sv2v args) (sa_defines args @ extra_defines (sa_defines_if args) src_path)
             (sa_incdirs args) pkg_paths src_path dst_path files of
        (l, files', Inl e) \<Rightarrow> (l, files', Inl e)
      | (l, files', Inr _) \<Rightarrow>
          (case transform_all conv args pkg_paths tmpdir (idx + 1) rest files' of
             (l', files'', r) \<Rightarrow> (l @ l', files'', bind_res r (\<lambda>ds. Inr (dst_path # ds)))))"

text \<open>The second loop: everything back.\<close>

definition copy_back :: "(string \<times> string) list \<Rightarrow> fs \<Rightarrow> fs" where
  "copy_back pairs files = fold (\<lambda>(dst, src) f. f(src := f dst)) pairs files"

text \<open>The temporary directory is removed in the end.\<close>

definition remove_dir :: "string \<Rightarrow> fs \<Rightarrow> fs" where
  "remove_dir dir files = (\<lambda>p. if prefix (dir @ ''/'') p then None else files p)"

definition transform ::
    "converter \<Rightarrow> string \<Rightarrow> sv2v_args \<Rightarrow> string list \<Rightarrow> string list \<Rightarrow> fs \<Rightarrow> log \<times> fs \<times> unit py_res" where
  "transform conv tmpdir args pkg_paths sv_paths files =
     (case transform_all conv args pkg_paths tmpdir 0 sv_paths files of
        (l, files', Inl e) \<Rightarrow> (l, remove_dir tmpdir files', Inl e)
      | (l, files', Inr dst_paths) \<Rightarrow>
          (l, remove_dir tmpdir (copy_back (zip dst_paths sv_paths) files'), Inr ()))"

section \<open>The program\<close>

definition empty_all :: "string list \<Rightarrow> fs \<Rightarrow> fs" where
  "empty_all paths files = fold (\<lambda>p f. f(p \<mapsto> [])) paths files"

text \<open>The messages, the files afterwards, and the exit status. The verbose flag only selects messages.\<close>

definition sv2v_main ::
    "converter \<Rightarrow> string \<Rightarrow> string \<Rightarrow> sv2v_args \<Rightarrow> string option \<Rightarrow> fs \<Rightarrow> log \<times> fs \<times> int py_res" where
  "sv2v_main conv tmpdir file_list args0 incdir_list files =
     (let l0 = [(LogInfo, ''Reading file list from '' @ py_repr file_list @ ''.'')] in
      case read_file_list files file_list of
        None \<Rightarrow> (l0 @ [(LogError, ''Failed to read file list from '' @ py_repr file_list)], files, Inr 1)
      | Some paths \<Rightarrow>
          (let l1 = l0 @ (case incdir_list of None \<Rightarrow> [] | Some f \<Rightarrow> [(LogInfo, ''Reading incdir list from '' @ py_repr f @ ''.'')]) in
           case (case incdir_list of None \<Rightarrow> Some [] | Some f \<Rightarrow> read_file_list files f) of
             None \<Rightarrow> (l1 @ [(LogError, ''Failed to read incdir list from '' @ py_repr file_list)], files, Inr 1)
           | Some more_dirs \<Rightarrow>
               (let args = args0\<lparr>sa_incdirs := sa_incdirs args0 @ more_dirs\<rparr>;
                    sv_paths = filter (\<lambda>p. snd (splitext p) = ''.sv'') paths;
                    svh_paths = filter (\<lambda>p. snd (splitext p) = ''.svh'') paths;
                    pkg_paths = filter (\<lambda>p. suffix ''pkg.sv'' p) paths;
                    l2 = l1 @ [(LogInfo, ''Running sv2v in-place on '' @ nat_str 10 (length sv_paths) @ '' files ('' @
                                 nat_str 10 (length pkg_paths) @ '' packages).'')] in
                case transform conv tmpdir args pkg_paths sv_paths files of
                  (l, files', Inl (RuntimeError err)) \<Rightarrow> (l2 @ l @ [(LogError, err)], files', Inr 1)
                | (l, files', Inl e) \<Rightarrow> (l2 @ l, files', Inl e)
                | (l, files', Inr _) \<Rightarrow>
                    (l2 @ l @ [(LogInfo, ''Splatting contents of '' @ nat_str 10 (length svh_paths) @ '' .svh files.'')],
                     empty_all svh_paths files', Inr 0))))"

section \<open>All or nothing\<close>

text \<open>The name of the file that holds the conversion of the \<open>i\<close>-th path.\<close>

abbreviation tmp_name :: "string \<Rightarrow> nat \<Rightarrow> string" where
  "tmp_name tmpdir i \<equiv> path_join tmpdir (nat_str 10 i)"

abbreviation in_dir :: "string \<Rightarrow> string \<Rightarrow> bool" where
  "in_dir dir p \<equiv> prefix (dir @ ''/'') p"

definition plain_dir :: "string \<Rightarrow> bool" where
  "plain_dir d \<longleftrightarrow> d \<noteq> [] \<and> last d \<noteq> CHR ''/''"

text \<open>The converter does not look into the temporary directory.\<close>

definition ignores_dir :: "string \<Rightarrow> converter \<Rightarrow> bool" where
  "ignores_dir dir conv \<longleftrightarrow>
     (\<forall>cmd f g. (\<forall>p. \<not> in_dir dir p \<longrightarrow> f p = g p) \<longrightarrow> conv cmd f = conv cmd g)"

text \<open>The run of the converter for one of the paths, on the original files.\<close>

definition run_on :: "converter \<Rightarrow> sv2v_args \<Rightarrow> string list \<Rightarrow> fs \<Rightarrow> string \<Rightarrow> int \<times> string" where
  "run_on conv args pkg_paths files p =
     conv (sv2v_cmd (sa_sv2v args) (sa_defines args @ extra_defines (sa_defines_if args) p) (sa_incdirs args) pkg_paths p) files"

lemma nat_str_inj:
  assumes "nat_str 10 i = nat_str 10 j"
  shows "i = j"
proof -
  have "parse_digits 10 False 0 (nat_str 10 n) = Some n" for n by (rule parse_digits_nat_str) simp_all
  then show ?thesis using assms by (metis option.inject)
qed

lemma nat_str_no_slash: "CHR ''/'' \<notin> set (nat_str 10 n)"
proof
  assume "CHR ''/'' \<in> set (nat_str 10 n)"
  then obtain k where "k < 10" "CHR ''/'' = digit_char k" using nat_str_chars [of 10] by auto
  then have "code (CHR ''/'') = k + 48" by (simp add: digit_char_def)
  moreover have "code (CHR ''/'') = 47" by code_simp
  ultimately show False by simp
qed

lemma tmp_name_eq: "plain_dir d \<Longrightarrow> tmp_name d i = d @ CHR ''/'' # nat_str 10 i"
  using nat_str_no_slash [of i] by (cases "nat_str 10 i") (auto simp: path_join_def plain_dir_def)

lemma tmp_name_in: "plain_dir d \<Longrightarrow> in_dir d (tmp_name d i)"
  by (simp add: tmp_name_eq)

lemma tmp_name_inj: "plain_dir d \<Longrightarrow> tmp_name d i = tmp_name d j \<longleftrightarrow> i = j"
  using nat_str_inj by (auto simp: tmp_name_eq)

lemma transform_one_eq:
  assumes "ignores_dir d conv" "in_dir d dst" "\<forall>p. \<not> in_dir d p \<longrightarrow> files p = orig p"
    and "run_on conv args pkgs orig src = (rc, out)"
  shows "\<exists>l. transform_one conv (sa_sv2v args) (sa_defines args @ extra_defines (sa_defines_if args) src) (sa_incdirs args)
       pkgs src dst files = (l, files(dst \<mapsto> out),
         if rc = 0 then Inr () else Inl (RuntimeError (''Failed to run sv2v on '' @ src @ ''. Exit code: '' @ int_str rc @
           ''. Full command: '' @ py_join '' '' (map shlex_quote (sv2v_cmd (sa_sv2v args) (sa_defines args @ extra_defines (sa_defines_if args) src) (sa_incdirs args) pkgs src)))))"
proof -
  have "conv cmd (files(dst \<mapsto> [])) = conv cmd orig" for cmd
    using assms(1-3) unfolding ignores_dir_def by (metis fun_upd_apply)
  then show ?thesis using assms(4) by (simp add: transform_one_def run_on_def Let_def)
qed

text \<open>The first loop leaves everything outside the directory alone, and the conversions in it.\<close>

lemma transform_all_result:
  assumes "ignores_dir d conv" "plain_dir d" "\<forall>p. \<not> in_dir d p \<longrightarrow> files p = orig p"
  shows "\<exists>l files' r. transform_all conv args pkgs d idx paths files = (l, files', r) \<and>
     (\<forall>p. (\<forall>j \<ge> idx. p \<noteq> tmp_name d j) \<longrightarrow> files' p = files p) \<and>
     (if list_all (\<lambda>p. fst (run_on conv args pkgs orig p) = 0) paths
      then r = Inr (map (tmp_name d) [idx..<idx + length paths]) \<and>
           (\<forall>k < length paths. files' (tmp_name d (idx + k)) = Some (snd (run_on conv args pkgs orig (paths ! k))))
      else \<exists>m. r = Inl (RuntimeError m))"
  using assms(3)
proof (induction paths arbitrary: idx files)
  case (Cons src rest)
  obtain rc out where run: "run_on conv args pkgs orig src = (rc, out)" by force
  obtain l where one: "transform_one conv (sa_sv2v args) (sa_defines args @ extra_defines (sa_defines_if args) src)
      (sa_incdirs args) pkgs src (tmp_name d idx) files = (l, files(tmp_name d idx \<mapsto> out),
        if rc = 0 then Inr () else Inl (RuntimeError (''Failed to run sv2v on '' @ src @ ''. Exit code: '' @ int_str rc @
           ''. Full command: '' @ py_join '' '' (map shlex_quote (sv2v_cmd (sa_sv2v args) (sa_defines args @ extra_defines (sa_defines_if args) src) (sa_incdirs args) pkgs src)))))"
    using transform_one_eq [OF assms(1) tmp_name_in [OF assms(2)] Cons.prems run] by blast
  show ?case
  proof (cases "rc = 0")
    case False
    with one run show ?thesis by (auto simp: Let_def)
  next
    case True
    let ?f = "files(tmp_name d idx \<mapsto> out)"
    have "\<forall>p. \<not> in_dir d p \<longrightarrow> ?f p = orig p" using Cons.prems tmp_name_in [OF assms(2), of idx] by auto
    from Cons.IH [OF this, of "Suc idx"] obtain l' files' r where
      2: "transform_all conv args pkgs d (Suc idx) rest ?f = (l', files', r)"
        "\<forall>p. (\<forall>j \<ge> Suc idx. p \<noteq> tmp_name d j) \<longrightarrow> files' p = ?f p"
        "if list_all (\<lambda>p. fst (run_on conv args pkgs orig p) = 0) rest
         then r = Inr (map (tmp_name d) [Suc idx..<Suc idx + length rest]) \<and>
              (\<forall>k < length rest. files' (tmp_name d (Suc idx + k)) = Some (snd (run_on conv args pkgs orig (rest ! k))))
         else \<exists>m. r = Inl (RuntimeError m)" by blast
    have all: "transform_all conv args pkgs d idx (src # rest) files =
        (l @ l', files', bind_res r (\<lambda>ds. Inr (tmp_name d idx # ds)))"
      using one True 2(1) by (simp add: Let_def)
    have frame: "\<forall>p. (\<forall>j \<ge> idx. p \<noteq> tmp_name d j) \<longrightarrow> files' p = files p"
      using 2(2) by (auto simp: fun_upd_apply)
    have "files' (tmp_name d idx) = Some out"
      using 2(2) tmp_name_inj [OF assms(2)] by auto
    then have "list_all (\<lambda>p. fst (run_on conv args pkgs orig p) = 0) rest \<Longrightarrow> \<forall>k < length (src # rest).
        files' (tmp_name d (idx + k)) = Some (snd (run_on conv args pkgs orig ((src # rest) ! k)))"
      using 2(3) run by (auto simp: less_Suc_eq_0_disj)
    with all frame 2(3) run True show ?thesis by (auto simp: upt_conv_Cons simp del: transform_all.simps upt_Suc)
  qed
qed simp

text \<open>The second loop reads from the directory and writes outside it.\<close>

lemma copy_back_eq:
  assumes "length ds = length ss" "\<forall>k < length ss. files (ds ! k) = Some (f (ss ! k))"
    and "\<forall>x \<in> set ds. in_dir d x" "\<forall>x \<in> set ss. \<not> in_dir d x"
  shows "copy_back (zip ds ss) files = (\<lambda>p. if p \<in> set ss then Some (f p) else files p)"
  using assms
proof (induction ds ss arbitrary: files rule: list_induct2)
  case (Cons x xs y ys)
  have "files x = Some (f y)" using Cons.prems(1) by auto
  moreover have "\<forall>k < length ys. (files(y \<mapsto> f y)) (xs ! k) = Some (f (ys ! k))"
    using Cons.prems Cons.hyps by (auto simp: nth_Cons_Suc Ball_def)
  moreover from calculation(1) have "copy_back (zip (x # xs) (y # ys)) files = copy_back (zip xs ys) (files(y \<mapsto> f y))"
    by (simp add: copy_back_def)
  ultimately have "copy_back (zip (x # xs) (y # ys)) files =
      (\<lambda>p. if p \<in> set ys then Some (f p) else (files(y \<mapsto> f y)) p)"
    using Cons.IH [of "files(y \<mapsto> f y)"] Cons.prems(2,3) by simp
  then show ?case by auto
qed (simp add: copy_back_def)

lemma transform_result:
  assumes "ignores_dir d conv" "plain_dir d" "\<forall>p. in_dir d p \<longrightarrow> files p = None" "\<forall>p \<in> set paths. \<not> in_dir d p"
  shows "\<exists>l. if list_all (\<lambda>p. fst (run_on conv args pkgs files p) = 0) paths
     then transform conv d args pkgs paths files =
            (l, \<lambda>p. if p \<in> set paths then Some (snd (run_on conv args pkgs files p)) else files p, Inr ())
     else \<exists>m. transform conv d args pkgs paths files = (l, files, Inl (RuntimeError m))"
proof -
  obtain l files' r where all: "transform_all conv args pkgs d 0 paths files = (l, files', r)" and
    frame: "\<forall>p. (\<forall>j \<ge> 0. p \<noteq> tmp_name d j) \<longrightarrow> files' p = files p" and
    res: "if list_all (\<lambda>p. fst (run_on conv args pkgs files p) = 0) paths
      then r = Inr (map (tmp_name d) [0..<0 + length paths]) \<and>
           (\<forall>k < length paths. files' (tmp_name d (0 + k)) = Some (snd (run_on conv args pkgs files (paths ! k))))
      else \<exists>m. r = Inl (RuntimeError m)"
    using transform_all_result [OF assms(1,2), where files = files and orig = files and args = args and pkgs = pkgs
        and idx = 0 and paths = paths] by blast
  note 1 = all frame res [unfolded add_0]
  have outside: "\<not> in_dir d p \<Longrightarrow> files' p = files p" for p
    using 1(2) tmp_name_in [OF assms(2)] by metis
  then have removed: "remove_dir d files' = files"
    using assms(3) by (auto simp: remove_dir_def fun_eq_iff)
  show ?thesis
  proof (cases "list_all (\<lambda>p. fst (run_on conv args pkgs files p) = 0) paths")
    case False
    with 1 removed show ?thesis by (auto simp: transform_def)
  next
    case True
    then have "copy_back (zip (map (tmp_name d) [0..<length paths]) paths) files' =
        (\<lambda>p. if p \<in> set paths then Some (snd (run_on conv args pkgs files p)) else files' p)"
      using 1(3) tmp_name_in [OF assms(2)] assms(4) by (intro copy_back_eq [of _ _ _ _ d]) auto
    moreover have "remove_dir d (\<lambda>p. if p \<in> set paths then Some (snd (run_on conv args pkgs files p)) else files' p) =
        (\<lambda>p. if p \<in> set paths then Some (snd (run_on conv args pkgs files p)) else files p)"
      using outside assms(3,4) by (auto simp: remove_dir_def fun_eq_iff)
    ultimately show ?thesis using True 1 by (simp add: transform_def)
  qed
qed

lemma empty_all_eq: "empty_all ps files = (\<lambda>p. if p \<in> set ps then Some [] else files p)"
  by (induction ps arbitrary: files) (auto simp: empty_all_def fun_eq_iff)


definition demo_sources :: fs where
  "demo_sources p =
     (if p = ''list'' then Some (''a.sv'' @ [newline] @ ''b.svh'' @ [newline])
      else if p = ''a.sv'' then Some ''logic'' else if p = ''b.svh'' then Some ''h'' else None)"

definition demo_conv :: converter where
  "demo_conv cmd files =
     (if in_dir ''/tmp/x'' (last cmd) then (1, [])
      else (0, case files (last cmd) of None \<Rightarrow> [] | Some t \<Rightarrow> ''/* v */'' @ t))"

definition demo_sv2v_args :: sv2v_args where
  "demo_sv2v_args = \<lparr>sa_sv2v = ''sv2v'', sa_defines = [], sa_defines_if = [], sa_incdirs = []\<rparr>"


end
