(* ===== verification/Formal_Props.thy ===== *)
theory Formal_Props
  imports Py_Value Py_Regex
begin

text \<open>
  Generating SystemVerilog properties and sequences from the prefixes of a long one:
  \<^verbatim>\<open>dv/formal/check/tita_unsealer_props/generate_intermediates.py\<close>.

  A generator is the list of what it yields, with the exception that ends it. The lemmas show that a
  property that is printed is read back, that brackets are closed, and that each generated property
  has a prefix of the original antecedent.
\<close>

section \<open>Lines\<close>

definition close_brackets_with :: "string \<Rightarrow> char \<Rightarrow> char \<Rightarrow> string" where
  "close_brackets_with s open_bracket close_bracket =
     (if count_char open_bracket s > count_char close_bracket s
      then s @ replicate (count_char open_bracket s - count_char close_bracket s) close_bracket
      else s)"

definition close_brackets :: "string \<Rightarrow> string" where
  "close_brackets s = close_brackets_with s (CHR ''('') (CHR '')'')"

text \<open>\<^verbatim>\<open>`INSTR_WB\((\w+)\)\<close>.\<close>

definition INSTR_WB_RE :: regex where
  "INSTR_WB_RE = rseq [rstr (CHR 0x60 # ''INSTR_WB(''), RGroup 1 (rplus True (RCls False [CWord])), rlit (CHR '')'')]"

definition last_line_name :: "string \<Rightarrow> string" where
  "last_line_name last_line = (case re_search INSTR_WB_RE last_line of Some m \<Rightarrow> grp m 1 | None \<Rightarrow> ''na'')"

fun divider_re :: "string list \<Rightarrow> regex" where
  "divider_re [] = REps"
| "divider_re [d] = rstr d"
| "divider_re (d # ds) = RAlt (rstr d) (divider_re ds)"

text \<open>
  One turn per divider found; \<open>last_end\<close> is where the last one ended. A name is never empty, so that
  every turn yields. Afterwards the loop variable is read, which is unbound when there was no turn.
\<close>

fun iter_matches :: "string \<Rightarrow> nat \<Rightarrow> nat \<Rightarrow> (string \<times> mstate) list \<Rightarrow> (nat \<times> string \<times> string) list \<times> nat" where
  "iter_matches s i last_end [] = ([], last_end)"
| "iter_matches s i last_end ((b, m) # rest) =
     (case iter_matches s (i + 1) (length (behind m)) rest of
        (ys, e) \<Rightarrow>
          ((i, rstrip (take (length b) s), last_line_name (strip (take (length b - last_end) (drop last_end s)))) # ys, e))"

definition iter_lines :: "string \<Rightarrow> string list \<Rightarrow> bool \<Rightarrow> (nat \<times> string \<times> string) list \<times> unit py_res" where
  "iter_lines s dividers yield_last =
     (let ms = re_finditer (divider_re dividers) s in
      case iter_matches s 0 0 ms of
        (ys, last_end) \<Rightarrow>
          if \<not> yield_last then (ys, Inr ())
          else if ms = [] then (ys, Inl UnboundLocalError)
          else (ys @ [(length ms, rstrip s, last_line_name (strip (drop last_end s)))], Inr ()))"

section \<open>Texts\<close>

abbreviation nl :: char where "nl \<equiv> CHR 0x0A"
abbreviation tab :: char where "tab \<equiv> CHR 0x09"

definition make_property :: "string \<Rightarrow> string \<Rightarrow> string \<Rightarrow> string" where
  "make_property name antecedent consequent =
     [nl] @ ''property '' @ name @ ''_prop; '' @ [nl, tab] @ ''('' @ close_brackets antecedent @ '' '' @ [nl, tab] @
     ''|-> '' @ consequent @ '');'' @ [nl] @ ''endproperty; '' @ [nl] @
     name @ '': assert property ('' @ name @ ''_prop);'' @ [nl] @ ''    ''"

definition make_sequence :: "string \<Rightarrow> string \<Rightarrow> bool \<Rightarrow> string" where
  "make_sequence name sequence check_cover =
     [nl] @ ''sequence '' @ name @ '';'' @ [nl, tab] @ ''('' @ close_brackets sequence @ '');'' @ [nl] @ ''endsequence;'' @
     (if check_cover then [nl] @ ''cover_'' @ name @ '': cover sequence ('' @ name @ '');'' else []) @ [nl]"

definition parse_property_body :: "string \<Rightarrow> (string \<times> string) py_res" where
  "parse_property_body property_text =
     (let t1 = (if prefix ''(('' property_text then tl property_text
                else strip (lstrip_of (\<lambda>c. c = CHR ''('') property_text));
          t2 = (if suffix ''));'' t1 then strip (take (length t1 - 2) t1)
                else strip (rstrip_of (one_of '');'') t1)) in
      case split_once ''|->'' t2 of
        None \<Rightarrow> Inl (ValueError ''not enough values to unpack (expected 2, got 1)'')
      | Some (antecedent, consequent) \<Rightarrow> Inr (antecedent, strip consequent))"

definition PROPERTY_RE :: regex where
  "PROPERTY_RE = rseq [rstr ''property'', rplus True (RCls False [CSpace]), RGroup 1 (rplus True (RCls False [CWord])),
     rlit (CHR '';'')]"

definition strip_prop :: "string \<Rightarrow> string" where
  "strip_prop name = (if suffix ''_prop'' name then take (length name - 5) name else name)"

definition parse_property_text :: "string \<Rightarrow> (string \<times> string \<times> string) py_res" where
  "parse_property_text s =
     (case re_search PROPERTY_RE s of
        None \<Rightarrow> Inl (ValueError ''No property found in the text'')
      | Some m \<Rightarrow>
          (let rest = ahead m in
           case find_sub ''endproperty'' rest of
             None \<Rightarrow> Inl (ValueError ''No endproperty found in the text'')
           | Some n \<Rightarrow>
               bind_res (parse_property_body (strip (take n rest))) (\<lambda>(antecedent, consequent).
                 Inr (strip_prop (grp m 1), antecedent, consequent))))"

section \<open>Generators\<close>

text \<open>What is yielded: a text, with its name when names are asked for.\<close>

definition generate_intermediate_props ::
    "string \<Rightarrow> string list \<Rightarrow> bool \<Rightarrow> bool \<Rightarrow> (string option \<times> string) list \<times> unit py_res" where
  "generate_intermediate_props property_text dividers yield_prop_names yield_last =
     (case parse_property_text property_text of
        Inl e \<Rightarrow> ([], Inl e)
      | Inr (name, antecedent, consequent) \<Rightarrow>
          (case iter_lines antecedent dividers yield_last of
             (ls, r) \<Rightarrow>
               (map (\<lambda>(i, curr, last_line).
                       (let prop_name = name @ ''_'' @ nat_str 10 (i + 1) @ ''_'' @ last_line in
                        (if yield_prop_names then Some prop_name else None, make_property prop_name curr consequent)))
                  (filter (\<lambda>(i, curr, last_line). curr \<noteq> []) ls), r)))"

definition generate_branches ::
    "string \<Rightarrow> string \<Rightarrow> string \<Rightarrow> bool \<Rightarrow> bool \<Rightarrow> (string option \<times> string) list \<times> unit py_res" where
  "generate_branches main_sequence branch_signal branch_sequence include_success check_cover =
     (case iter_lines main_sequence [''&& instr_will_progress && ~'' @ branch_signal] False of
        (ls, r) \<Rightarrow>
          (let bs = map (\<lambda>(i, curr, last_line).
                           (None, make_sequence (''branch_'' @ nat_str 10 (i + 1) @ ''_'' @ last_line)
                              (curr @ '' && '' @ branch_signal @ '' '' @ [nl, tab] @ ''##1 ~wbexc_exists '' @ [nl, tab] @
                               ''##1 '' @ branch_sequence) check_cover))
                      (filter (\<lambda>(i, curr, last_line). curr \<noteq> []) ls) in
           if \<not> include_success then (bs, r)
           else if ls = [] then (bs, Inl UnboundLocalError)
           else (bs @ [(None, make_sequence (''branch_'' @ nat_str 10 (fst (last ls) + 2) @ ''_success'') main_sequence check_cover)], r)))"

text \<open>What is written to the file, and the exception of the generator.\<close>

definition write_intermediates ::
    "(string option \<times> string) list \<times> unit py_res \<Rightarrow> string option \<Rightarrow> string \<times> unit py_res" where
  "write_intermediates generator combined_prop_name =
     (case generator of
        (items, r) \<Rightarrow>
          (let body = concat (map (\<lambda>(_, p). p @ [nl]) items);
               prop_names = List.map_filter (\<lambda>(n, _). map_option (\<lambda>x. x @ ''_prop'') n) items in
           case r of
             Inl e \<Rightarrow> (body, Inl e)
           | Inr _ \<Rightarrow>
               (body @
                (case combined_prop_name of
                   Some c \<Rightarrow>
                     if c \<noteq> [] \<and> prop_names \<noteq> []
                     then ''property '' @ c @ ''_prop;'' @ [nl] @
                          [tab] @ ''('' @ py_join '' and '' prop_names @ '');'' @ [nl] @
                          ''endproperty;'' @ [nl] @
                          c @ '': assert property ('' @ c @ ''_prop);'' @ [nl]
                     else []
                 | None \<Rightarrow> []), Inr ())))"

section \<open>The property of the unsealing routine\<close>

definition wb_step :: "string \<Rightarrow> string \<Rightarrow> string" where
  "wb_step instr suff = ''        ##1 '' @ CHR 0x60 # ''INSTR_WB('' @ instr @ '')'' @ suff @ [nl]"

text \<open>The text, line by line. Some of the lines end in a blank.\<close>

definition property_str :: string where
  "property_str =
     [nl] @ ''property no_wbexc_err_prop;'' @ [nl] @
     ''    (assumption and ('' @ CHR 0x60 # ''INSTR_WB(l00_cgettag) && instr_will_progress '' @ [nl] @
     wb_step ''l04_beqz'' '' && instr_will_progress && ~wbexc_has_branched '' @
     wb_step ''l06_cgetbase'' '' && instr_will_progress '' @
     wb_step ''l0a_bne'' '' && instr_will_progress && ~wbexc_has_branched '' @
     wb_step ''l0e_cgetlen'' '' && instr_will_progress '' @
     wb_step ''l12_beqz'' '' && instr_will_progress && ~wbexc_has_branched '' @
     wb_step ''l14_cgetperm'' '' && instr_will_progress '' @
     wb_step ''l18_andi'' '' && instr_will_progress '' @
     wb_step ''l1c_bne'' '' && instr_will_progress && ~wbexc_has_branched '' @
     wb_step ''l1e_cunseal'' '' && instr_will_progress '' @
     wb_step ''l22_cgettag'' '' && instr_will_progress '' @
     wb_step ''l26_beqz'' '' && instr_will_progress && ~wbexc_has_branched '' @
     wb_step ''l28_clw'' '' && ~instr_will_progress '' @
     ''        ##1 instr_will_progress'' @ [nl] @
     wb_step ''l2a_bne'' '' && instr_will_progress && ~wbexc_has_branched'' @
     wb_step ''l2e_cgettop'' '' && instr_will_progress'' @
     wb_step ''l32_cinoffset'' '' && instr_will_progress'' @
     wb_step ''l36_sub'' '' && instr_will_progress'' @
     wb_step ''l3a_csetboundsexact'' '' && instr_will_progress'' @
     wb_step ''l3e_cret'' '')'' @
     ''        |-> (~wbexc_err | (obj_ptr_safe && us_auth_safe))'' @ [nl] @
     ''        );'' @ [nl] @
     ''endproperty'' @ [nl] @
     ''no_wbexc_err: assert property (no_wbexc_err_prop);'' @ [nl]"

text \<open>The files that the script writes, with their contents.\<close>

definition write_branches :: "string \<Rightarrow> (string \<times> string) option \<times> unit py_res" where
  "write_branches path =
     (case parse_property_text property_str of
        Inl e \<Rightarrow> (None, Inl e)
      | Inr (_, sequence, _) \<Rightarrow>
          (case write_intermediates (generate_branches sequence ''wbexc_has_branched'' ''failure_sequence'' True True) None of
             (content, r) \<Rightarrow> (Some (path @ ''branches.sv'', content), r)))"

definition write_no_wbexc_err_intermediates :: "string \<Rightarrow> (string \<times> string) \<times> unit py_res" where
  "write_no_wbexc_err_intermediates path =
     (case write_intermediates
             (generate_intermediate_props property_str [''&& instr_will_progress'', ''##1 instr_will_progress''] True False)
             (Some ''no_wbexc_err'') of
        (content, r) \<Rightarrow> ((path @ ''wbexc_err_props.sv'', content), r))"

section \<open>Reading back a printed property\<close>

lemma prefix_before: "c \<notin> set w \<Longrightarrow> prefix w (u @ c # v) \<longleftrightarrow> prefix w u"
proof (induction u arbitrary: w)
  case Nil
  then show ?case by (cases w) auto
next
  case (Cons x u)
  then show ?case by (cases w) auto
qed

text \<open>The first occurrence of a word right after a character that is not in it.\<close>

lemma find_sub_first:
  assumes "c \<notin> set w" "w \<noteq> []" "\<not> sublist w u"
  shows "find_sub w (u @ c # w @ t) = Some (Suc (length u))"
  using assms(3)
proof (induction u)
  case Nil
  have "\<not> prefix w (c # w @ t)" using assms(1,2) by (cases w) auto
  moreover have "find_sub w (w @ t) = Some 0" using assms(2) by (cases w) auto
  ultimately show ?case by (simp only: append_Nil find_sub.simps if_False) simp
next
  case (Cons x u)
  have n: "\<not> prefix w (x # u)" "\<not> sublist w u" using Cons.prems by (auto simp: sublist_Cons_right)
  have "\<not> prefix w ((x # u) @ c # w @ t)" using n(1) prefix_before [OF assms(1)] by blast
  then have "\<not> prefix w (x # (u @ c # w @ t))" by (simp only: append_Cons not_False_eq_True)
  with Cons.IH [OF n(2)] show ?case by (simp only: append_Cons find_sub.simps if_False) simp
qed

lemma sublist_split:
  assumes "c \<notin> set w" "w \<noteq> []"
  shows "sublist w (u @ c # v) \<longleftrightarrow> sublist w u \<or> sublist w v"
proof (induction u)
  case Nil
  have "\<not> prefix w (c # v)" using assms by (cases w) auto
  then show ?case using assms(2) by (auto simp: sublist_Cons_right)
next
  case (Cons x u)
  then show ?case using prefix_before [OF assms(1), of "x # u" v] by (auto simp: sublist_Cons_right)
qed

lemma split_once_first: "c \<notin> set u \<Longrightarrow> split_once (c # w) (u @ (c # w) @ t) = Some (u, t)"
proof -
  assume c: "c \<notin> set u"
  have "find_sub (c # w) (u @ (c # w) @ t) = Some (length u)"
    using c by (induction u) auto
  then show ?thesis by (simp add: split_once_def)
qed

lemma take_Suc_after: "take (Suc (length u)) (u @ x # v) = u @ [x]"
  by simp

lemma dropWhile_hd: "s \<noteq> [] \<Longrightarrow> \<not> q (hd s) \<Longrightarrow> dropWhile q s = s"
  by (cases s) auto

lemma rstrip_end:
  assumes "\<forall>x \<in> set e. q x" "s \<noteq> []" "\<not> q (last s)"
  shows "rstrip_of q (s @ e) = s"
proof -
  have "dropWhile q (rev (s @ e)) = dropWhile q (rev s)" using assms(1) by (simp add: dropWhile_append)
  also have "\<dots> = rev s" using assms(2,3) by (intro dropWhile_hd) (auto simp: hd_rev)
  finally show ?thesis by (simp add: rstrip_of_def)
qed

text \<open>Blanks around a text that neither begins nor ends in one.\<close>

lemma strip_pad:
  assumes "\<forall>x \<in> set b. q x" "\<forall>x \<in> set e. q x" "s \<noteq> []" "\<not> q (hd s)" "\<not> q (last s)"
  shows "strip_of q (b @ s @ e) = s"
proof -
  have "lstrip_of q (b @ s @ e) = dropWhile q (s @ e)" using assms(1) by (simp add: lstrip_of_def dropWhile_append2)
  also have "\<dots> = s @ e" using assms(3,4) by (intro dropWhile_hd) auto
  finally show ?thesis using rstrip_end [OF assms(2,3,5)] by (simp add: strip_of_def)
qed

lemmas strip_ends = strip_pad [where b = "[]" and e = "[]", simplified]

lemma close_brackets_suffix: "\<exists>n. close_brackets a = a @ replicate n (CHR '')'')"
  by (auto simp: close_brackets_def close_brackets_with_def intro: exI [of _ 0])

lemma close_brackets_sublist:
  assumes "CHR '')'' \<notin> set w" "w \<noteq> []"
  shows "sublist w (close_brackets a) \<longleftrightarrow> sublist w a"
proof -
  have none: "\<not> sublist w (replicate n (CHR '')''))" for n
    using assms set_mono_sublist [of w "replicate n (CHR '')'')"] by (cases w) auto
  obtain n where "close_brackets a = a @ replicate n (CHR '')'')" using close_brackets_suffix by blast
  then show ?thesis using sublist_split [OF assms] none by (cases n) auto
qed

text \<open>Parts of a property that can be told apart again.\<close>

definition plain_parts :: "string \<Rightarrow> string \<Rightarrow> string \<Rightarrow> bool" where
  "plain_parts name a c \<longleftrightarrow>
     name \<noteq> [] \<and> list_all is_word name \<and>
     a \<noteq> [] \<and> \<not> is_space (hd a) \<and> CHR ''|'' \<notin> set a \<and> \<not> contains ''endproperty'' a \<and>
     c \<noteq> [] \<and> \<not> is_space (hd c) \<and> \<not> is_space (last c) \<and> last c \<noteq> CHR '';'' \<and> \<not> contains ''endproperty'' c"

abbreviation gap :: string where "gap \<equiv> [CHR 0x20, nl, tab]"

lemma specials:
  "\<not> is_space (CHR '';'')" "\<not> is_word (CHR '';'')" "is_space (CHR 0x20)" "is_space nl" "is_space tab" "\<not> is_space (CHR ''('')"
  "\<not> is_word (CHR 0x20)" "is_word (CHR ''_'')" "is_word (CHR ''p'')" "is_word (CHR ''r'')" "is_word (CHR ''o'')"
  by code_simp+

lemma body_open:
  assumes "t \<noteq> []" "\<not> is_space (hd t)" "\<not> is_space (last t)"
  shows "(if prefix ''(('' (CHR ''('' # t) then tl (CHR ''('' # t) else strip (lstrip_of (\<lambda>c. c = CHR ''('') (CHR ''('' # t))) = t"
proof -
  obtain x u where t: "t = x # u" using assms(1) by (cases t) auto
  show ?thesis using strip_ends [of t is_space] assms by (auto simp: t lstrip_of_def)
qed

lemma body_close:
  assumes "t \<noteq> []" "\<not> is_space (hd t)" "\<not> is_space (last t)" "last t \<noteq> CHR '';''"
  shows "(if suffix ''));'' (t @ '');'') then strip (take (length (t @ '');'') - 2) (t @ '');''))
          else strip (rstrip_of (one_of '');'') (t @ '');''))) = t"
proof (cases "last t = CHR '')''")
  case True
  then obtain u where "t = u @ '')''" using assms(1) by (metis append_butlast_last_id)
  then have "suffix ''));'' (t @ '');'')" by (auto simp: suffix_def)
  then show ?thesis using strip_ends [of t is_space] assms by simp
next
  case False
  obtain u x where t: "t = u @ [x]" using assms(1) by (metis append_butlast_last_id)
  with False have "\<not> suffix ''));'' (t @ '');'')" by (simp add: suffix_to_prefix)
  moreover have "rstrip_of (one_of '');'') (t @ '');'') = t"
    using assms(1,4) False by (intro rstrip_end) (auto simp: one_of_def)
  ultimately show ?thesis using strip_ends [of t is_space] assms by simp
qed

lemma body_read_back:
  assumes "a \<noteq> []" "\<not> is_space (hd a)" "CHR ''|'' \<notin> set a" "c \<noteq> []" "\<not> is_space (hd c)" "\<not> is_space (last c)" "last c \<noteq> CHR '';''"
  shows "parse_property_body (CHR ''('' # a @ gap @ ''|-> '' @ c @ '');'') = Inr (a @ gap, c)"
proof -
  let ?t = "a @ gap @ ''|-> '' @ c"
  have ends: "?t \<noteq> []" "\<not> is_space (hd ?t)" "\<not> is_space (last ?t)" "last ?t \<noteq> CHR '';''"
    using assms by auto
  have e: "CHR ''('' # a @ gap @ ''|-> '' @ c @ '');'' = CHR ''('' # (?t @ '');'')" by simp
  have 1: "(if prefix ''(('' (CHR ''('' # (?t @ '');'')) then tl (CHR ''('' # (?t @ '');''))
      else strip (lstrip_of (\<lambda>c. c = CHR ''('') (CHR ''('' # (?t @ '');'')))) = ?t @ '');''"
    using assms(1,2) specials by (intro body_open) auto
  note 2 = body_close [OF ends]
  have 3: "split_once ''|->'' ?t = Some (a @ gap, CHR 0x20 # c)"
    using split_once_first [of "CHR ''|''" "a @ gap" "''->''" "CHR 0x20 # c"] assms(3) by simp
  have 4: "strip (CHR 0x20 # c) = c"
    using strip_pad [of "[CHR 0x20]" is_space "[]" c] assms specials by simp
  show ?thesis
    unfolding parse_property_body_def Let_def e 1 2 3 by (simp add: 4)
qed

lemma word_not_space: "is_word c \<Longrightarrow> \<not> is_space c"
  by (auto simp: is_word_def is_space_def Let_def)

text \<open>The head of a printed property, up to the semicolon.\<close>

lemma head_read_back:
  assumes "name \<noteq> []" "list_all is_word name"
  shows "\<exists>m. re_search PROPERTY_RE (nl # ''property '' @ name @ ''_prop;'' @ rest) = Some m \<and>
     grp m 1 = name @ ''_prop'' \<and> ahead m = rest"
proof -
  let ?st = "start_at [nl] (''property '' @ name @ ''_prop;'' @ rest)"
  let ?st1 = "eat ''property'' ?st"
  let ?st2 = "eat [CHR 0x20] ?st1"
  let ?n = "name @ ''_prop''"
  let ?st3 = "(eat ?n ?st2)\<lparr>caps := (1, ?n) # caps ?st2\<rparr>"
  let ?m = "eat '';'' ?st3"
  have word: "\<forall>c \<in> set ?n. in_class False [CWord] c"
    using assms(2) specials by (auto simp: in_class_def list_all_iff)
  have a1: "ahead ?st1 = [CHR 0x20] @ ?n @ '';'' @ rest" by (simp add: start_at_def)
  have a2: "ahead ?st2 = ?n @ '';'' @ rest" by (simp add: start_at_def)
  have k4: "rmatch (rlit (CHR '';'')) ?st3 Some = Some ?m" by (simp add: rmatch_rlit start_at_def)
  have k3: "rmatch (RGroup 1 (rplus True (RCls False [CWord]))) ?st2 (\<lambda>st. rmatch (rlit (CHR '';'')) st Some) = Some ?m"
    by (rule rmatch_group_plus [OF a2]) (use word specials k4 in \<open>auto simp: in_class_def\<close>)
  have hdn: "\<not> is_space (hd (?n @ '';'' @ rest))"
    using assms by (cases name) (auto simp: word_not_space)
  have k2: "rmatch (rplus True (RCls False [CSpace])) ?st1
      (\<lambda>st. rmatch (RGroup 1 (rplus True (RCls False [CWord]))) st (\<lambda>st. rmatch (rlit (CHR '';'')) st Some)) = Some ?m"
    by (rule rmatch_plus_class [OF a1]) (use hdn specials k3 in \<open>auto simp: in_class_def\<close>)
  have k1: "rmatch PROPERTY_RE ?st Some = Some ?m"
    using k2 by (simp add: PROPERTY_RE_def rmatch_rstr start_at_def)
  have nlfail: "rmatch PROPERTY_RE (start_at [] (nl # ''property '' @ name @ ''_prop;'' @ rest)) Some = None"
    by (simp add: PROPERTY_RE_def rmatch_rstr start_at_def)
  have s1: "search_from PROPERTY_RE [nl] (''property '' @ name @ ''_prop;'' @ rest) = Some ([nl], ?m)"
    using k1 by simp
  have s0: "search_from r [] (c # cs) = search_from r [c] cs" if "rmatch r (start_at [] (c # cs)) Some = None" for r c cs
    using that by simp
  have "search_from PROPERTY_RE [] (nl # ''property '' @ name @ ''_prop;'' @ rest) = Some ([nl], ?m)"
    by (simp only: s0 [OF nlfail] s1)
  moreover have "grp ?m 1 = ?n" by (simp add: grp_def group_def)
  moreover have "ahead ?m = rest" by (simp add: start_at_def)
  ultimately show ?thesis by (auto simp: re_search_def)
qed

lemma no_endproperty:
  assumes "\<not> sublist ''endproperty'' a" "\<not> sublist ''endproperty'' c"
  shows "\<not> sublist ''endproperty'' (gap @ CHR ''('' # a @ gap @ ''|-> '' @ c @ '');'')"
proof -
  have "sublist ''endproperty'' (gap @ CHR ''('' # a @ gap @ ''|-> '' @ c @ '');'') \<longleftrightarrow>
      sublist ''endproperty'' ([] @ CHR 0x20 # [] @ nl # [] @ tab # [] @ CHR ''('' # a @ CHR 0x20 # [] @ nl # [] @ tab # [] @ CHR ''|'' #
        [] @ CHR ''-'' # [] @ CHR ''>'' # [] @ CHR 0x20 # c @ CHR '')'' # [] @ CHR '';'' # [])" by simp
  also have "\<dots> \<longleftrightarrow> sublist ''endproperty'' a \<or> sublist ''endproperty'' c"
    by (subst sublist_split, simp, simp)+ simp
  finally show ?thesis using assms by blast
qed

section \<open>What is generated\<close>

lemma rstrip_split: "\<exists>e. s = rstrip_of q s @ e \<and> list_all q e"
proof -
  have "rev s = takeWhile q (rev s) @ dropWhile q (rev s)" by simp
  then have "s = rev (dropWhile q (rev s)) @ rev (takeWhile q (rev s))" by (metis rev_append rev_rev_ident)
  moreover have "list_all q (rev (takeWhile q (rev s)))" using set_takeWhileD by (fastforce simp: list_all_iff)
  ultimately show ?thesis unfolding rstrip_of_def by blast
qed

text \<open>Each match of a scan is a string of the expression's language, between what is behind and ahead.\<close>

lemma find_from_cut:
  "(b, st) \<in> set (find_from n r pre s) \<Longrightarrow> \<exists>w \<in> lang r. rev pre @ s = rev b @ w @ ahead st"
proof (induction n arbitrary: pre s)
  case (Suc n)
  then obtain b' st' where m: "search_from r pre s = Some (b', st')"
    by (cases "search_from r pre s") auto
  have t: "rev (behind st') @ ahead st' = rev pre @ s" by (rule search_from_total [OF m])
  consider "(b, st) = (b', st')"
    | pre' s' where "(b, st) \<in> set (find_from n r pre' s')" "rev pre' @ s' = rev pre @ s"
    using Suc.prems m t by (cases "behind st' = b'"; cases "ahead st'") auto
  then show ?case
  proof cases
    case 1
    obtain u v where uv: "s = u @ v" "b = rev u @ pre" "rmatch r (start_at b v) Some = Some st"
      using search_from_Some [OF m] 1 by blast
    from rs.sound [OF uv(3)] obtain w where "v = w @ ahead st" "w \<in> lang r" by (auto simp: start_at_def)
    then show ?thesis using uv(1,2) by auto
  next
    case 2
    then show ?thesis using Suc.IH [OF 2(1)] by simp
  qed
qed simp

lemma lang_divider: "ds \<noteq> [] \<Longrightarrow> lang (divider_re ds) = set ds"
  by (induction ds rule: divider_re.induct) auto

lemma iter_matches_cut:
  assumes "(k, u, l) \<in> set (fst (iter_matches s i last_end ms))"
  shows "\<exists>b m. (b, m) \<in> set ms \<and> u = rstrip (take (length b) s)"
  using assms
proof (induction s i last_end ms rule: iter_matches.induct)
  case (2 s i last_end b m rest)
  then show ?case by (fastforce split: prod.splits)
qed simp

lemma iter_lines_cut:
  assumes "ds \<noteq> []" "(k, u, l) \<in> set (fst (iter_lines s ds False))"
  shows "\<exists>e d rest. s = u @ e @ d @ rest \<and> list_all is_space e \<and> d \<in> set ds"
proof -
  have "(k, u, l) \<in> set (fst (iter_matches s 0 0 (re_finditer (divider_re ds) s)))"
    using assms(2) by (auto simp: iter_lines_def Let_def split: prod.splits)
  from iter_matches_cut [OF this] obtain b m where
    bm: "(b, m) \<in> set (re_finditer (divider_re ds) s)" and u: "u = rstrip (take (length b) s)" by blast
  then obtain d where d: "d \<in> set ds" "s = rev b @ d @ ahead m"
    using find_from_cut lang_divider [OF assms(1)] unfolding re_finditer_def by fastforce
  then have "take (length b) s = rev b" by simp
  then obtain e where "rev b = u @ e" "list_all is_space e" using rstrip_split u by metis
  then show ?thesis using d by (metis append.assoc)
qed

lemma iter_lines_ok: "snd (iter_lines s ds False) = Inr ()"
  by (simp add: iter_lines_def Let_def split: prod.splits)

text \<open>
  C26. The antecedent of every generated property is the original one cut right before a divider
  (less the blanks there), and its consequent is the original one.
\<close>

theorem intermediates_cut:
  assumes "parse_property_text t = Inr (name, a, c)" "ds \<noteq> []"
    and "(nm, p) \<in> set (fst (generate_intermediate_props t ds True False))"
  shows "\<exists>i u l e d rest. a = u @ e @ d @ rest \<and> u \<noteq> [] \<and> list_all is_space e \<and> d \<in> set ds \<and>
     nm = Some (name @ ''_'' @ nat_str 10 (i + 1) @ ''_'' @ l) \<and>
     p = make_property (name @ ''_'' @ nat_str 10 (i + 1) @ ''_'' @ l) u c"
proof -
  obtain ls where ls: "iter_lines a ds False = (ls, Inr ())" using iter_lines_ok [of a ds] by (metis prod.collapse)
  with assms(1,3) obtain i u l where m: "(i, u, l) \<in> set ls" "u \<noteq> []"
    and n: "nm = Some (name @ ''_'' @ nat_str 10 (i + 1) @ ''_'' @ l)"
      "p = make_property (name @ ''_'' @ nat_str 10 (i + 1) @ ''_'' @ l) u c"
    by (auto simp: generate_intermediate_props_def Let_def)
  from m(1) ls iter_lines_cut [OF assms(2), of i u l a] obtain e d rest
    where "a = u @ e @ d @ rest" "list_all is_space e" "d \<in> set ds" by auto
  with m(2) n show ?thesis by blast
qed

theorem intermediates_cut_witness:
  "parse_property_text ''property p;(x#y|->z);endproperty'' = Inr (''p'', ''x#y'', ''z'') \<and>
   (\<exists>i u l e d rest. ''x#y'' = u @ e @ d @ rest \<and> u \<noteq> [] \<and> list_all is_space e \<and> d \<in> set [''#''] \<and>
     Some ''p_1_na'' = Some (''p'' @ ''_'' @ nat_str 10 (i + 1) @ ''_'' @ l) \<and>
     make_property ''p_1_na'' ''x'' ''z'' = make_property (''p'' @ ''_'' @ nat_str 10 (i + 1) @ ''_'' @ l) u ''z'')"
proof -
  let ?t = "''property p;(x#y|->z);endproperty''"
  have p: "parse_property_text ?t = Inr (''p'', ''x#y'', ''z'')"
    by (simp add: parse_property_text_def PROPERTY_RE_def parse_property_body_def strip_prop_def split_once_def
      strip_of_def lstrip_of_def rstrip_of_def one_of_def suffix_to_prefix re_eval del: rseq.simps(2,3))
  have "fst (generate_intermediate_props ?t [''#''] True False) = [(Some ''p_1_na'', make_property ''p_1_na'' ''x'' ''z'')]"
    by code_simp
  then have "(Some ''p_1_na'', make_property ''p_1_na'' ''x'' ''z'') \<in> set (fst (generate_intermediate_props ?t [''#''] True False))"
    by simp
  from intermediates_cut [OF p _ this] p show ?thesis by simp
qed

text \<open>
  C25. A property that is printed is read back: the name, the antecedent with its brackets closed and
  the blanks that follow it, and the consequent.
\<close>

theorem property_roundtrip:
  assumes "plain_parts name a c"
  shows "parse_property_text (make_property name a c) = Inr (name, close_brackets a @ gap, c)"
proof -
  let ?a = "close_brackets a"
  let ?body = "CHR ''('' # ?a @ gap @ ''|-> '' @ c @ '');''"
  let ?u = "gap @ ?body"
  let ?tail = "''; '' @ [nl] @ name @ '': assert property ('' @ name @ ''_prop);'' @ [nl] @ ''    ''"
  obtain n where n: "?a = a @ replicate n (CHR '')'')" using close_brackets_suffix by blast
  have a: "?a \<noteq> []" "\<not> is_space (hd ?a)" "CHR ''|'' \<notin> set ?a" using assms n by (auto simp: plain_parts_def)
  have c: "c \<noteq> []" "\<not> is_space (hd c)" "\<not> is_space (last c)" "last c \<noteq> CHR '';''"
    using assms by (simp_all add: plain_parts_def)
  have tx: "make_property name a c = nl # ''property '' @ name @ ''_prop;'' @ ?u @ nl # ''endproperty'' @ ?tail"
    by (simp add: make_property_def)
  obtain m where m: "re_search PROPERTY_RE (make_property name a c) = Some m" "grp m 1 = name @ ''_prop''"
      "ahead m = ?u @ nl # ''endproperty'' @ ?tail"
    using head_read_back [of name "?u @ nl # ''endproperty'' @ ?tail"] assms unfolding tx plain_parts_def by blast
  have "\<not> sublist ''endproperty'' ?u"
    using assms by (intro no_endproperty) (auto simp: plain_parts_def contains_sublist close_brackets_sublist)
  then have f: "find_sub ''endproperty'' (ahead m) = Some (Suc (length ?u))"
    unfolding m(3) by (intro find_sub_first) simp_all
  have t: "take (Suc (length ?u)) (ahead m) = gap @ ?body @ [nl]" unfolding m(3)
    using take_Suc_after [of ?u nl "''endproperty'' @ ?tail"] by (simp only: append.assoc)
  have b: "strip (gap @ ?body @ [nl]) = ?body"
    using specials by (intro strip_pad) auto
  have p: "strip_prop (name @ ''_prop'') = name" by (simp add: strip_prop_def suffix_def)
  show ?thesis
    unfolding parse_property_text_def m(1) option.case Let_def f t b body_read_back [OF a c] m(2) p by simp
qed

theorem property_roundtrip_witness:
  "parse_property_text (make_property ''p'' ''(x'' ''y'') = Inr (''p'', ''(x)'' @ gap, ''y'')"
proof -
  have "plain_parts ''p'' ''(x'' ''y''" by code_simp
  moreover have "close_brackets ''(x'' = ''(x)''" by code_simp
  ultimately show ?thesis using property_roundtrip [of "''p''" "''(x''" "''y''"] by simp
qed

end
