(* ===== verification/Spec_Edit.thy ===== *)
theory Spec_Edit
  imports Instr_Compare
begin

text \<open>
  The scripts of \<^verbatim>\<open>dv/formal/spec\<close> that edit the SystemVerilog text which the Sail compiler generates:
  \<^verbatim>\<open>fix_pmp_bug.py\<close>, \<^verbatim>\<open>unreachable_loc_info.py\<close>, \<^verbatim>\<open>extract_funcs.py\<close> and \<^verbatim>\<open>cull_funcs.py\<close>. Each reads and
  writes files of the directory \<^verbatim>\<open>build\<close>; the files are a map from paths to texts.

  The lemmas show what exactly is cut out of the text for a function, that the cut and the extraction
  concern the same piece, and that a script that fails leaves the files alone.
\<close>

section \<open>Files\<close>

type_synonym texts = "string \<Rightarrow> string option"

definition spec_path :: string where "spec_path = ''build/ibexspec.sv''"
definition genlib_path :: string where "genlib_path = ''build/sail_genlib_ibexspec.sv''"

definition read_text :: "texts \<Rightarrow> string \<Rightarrow> string py_res" where
  "read_text files path = bind_res (read_file files path) (\<lambda>t. Inr (universal_newlines t))"

section \<open>Edits of the whole text\<close>

text \<open>The definition that is moved to the other file.\<close>

definition pmpcfg_def :: string where
  "pmpcfg_def = [newline] @ ''typedef struct {'' @ [newline] @ ''    logic [7:0] bits;'' @ [newline] @ ''} t_Pmpcfg_ent;'' @ [newline]"

definition fix_pmp_bug :: "texts \<Rightarrow> texts \<times> unit py_res" where
  "fix_pmp_bug files =
     (case read_text files spec_path of
        Inl e \<Rightarrow> (files, Inl e)
      | Inr c \<Rightarrow>
          (let files1 = files(spec_path \<mapsto> py_replace pmpcfg_def [] c) in
           case read_text files1 genlib_path of
             Inl e \<Rightarrow> (files1, Inl e)
           | Inr g \<Rightarrow> (files1(genlib_path \<mapsto> pmpcfg_def @ [newline] @ g), Inr ())))"

definition set_flag :: string where "set_flag = ''sail_reached_unreachable = 1;''"
definition set_loc :: string where "set_loc = ''sail_reached_unreachable_loc = '' @ CHR 0x60 # ''__LINE__;''"
definition clear_flag :: string where "clear_flag = ''sail_reached_unreachable = 0;''"
definition flag_decl :: string where "flag_decl = ''bit sail_reached_unreachable;''"

definition add_loc_info :: "string \<Rightarrow> string" where
  "add_loc_info c =
     py_replace flag_decl (flag_decl @ [newline, CHR 0x09] @ ''logic [31:0] sail_reached_unreachable_loc;'')
       (py_replace clear_flag (''begin '' @ clear_flag @ '' sail_reached_unreachable_loc = -1; end'')
          (py_replace set_flag (''begin '' @ set_flag @ '' '' @ set_loc @ '' end'') c))"

definition unreachable_loc_info :: "texts \<Rightarrow> texts \<times> unit py_res" where
  "unreachable_loc_info files =
     (case read_text files spec_path of
        Inl e \<Rightarrow> (files, Inl e)
      | Inr c \<Rightarrow> (files(spec_path \<mapsto> add_loc_info c), Inr ()))"

section \<open>Functions\<close>

text \<open>
  The header of a function, \<^verbatim>\<open>^(\s*)function automatic .+ NAME\(.*\);\<close> with the multi-line flag. The name is
  part of the expression; it is modelled for names of word characters, which stand for themselves.
\<close>

definition func_re :: "string \<Rightarrow> regex" where
  "func_re func_name =
     rseq [RBolM, RGroup 1 (RStar True (RCls False [CSpace])), rstr ''function automatic '', rplus True rany, rlit (CHR 0x20),
           rstr func_name, rlit (CHR ''(''), RStar True rany, rstr '');'']"

text \<open>Where a function starts, its indentation, and where its closing keyword starts.\<close>

definition func_span :: "string \<Rightarrow> string \<Rightarrow> (nat \<times> string \<times> nat) py_res" where
  "func_span func_name c =
     (case search_from (func_re func_name) [] c of
        None \<Rightarrow> Inl AssertionError
      | Some (b, m) \<Rightarrow>
          (case find_sub ''endfunction'' (drop (length b) c) of
             None \<Rightarrow> Inl (ValueError ''substring not found'')
           | Some n \<Rightarrow> Inr (length b, grp m 1, length b + n)))"

text \<open>\<^verbatim>\<open>s[i:]\<close>, where a negative index counts from the end.\<close>

definition slice_from :: "int \<Rightarrow> string \<Rightarrow> string" where
  "slice_from i s = drop (nat (if i < 0 then max 0 (int (length s) + i) else i)) s"

definition spec_constants :: "(string \<times> string) list" where
  "spec_constants = [(''cap_max_E_bits'', ''5'' @ [squote] @ ''h18'')]"

text \<open>The text of a function, less its first character and the rest of its indentation on each line.\<close>

definition unindent :: "string \<Rightarrow> string \<Rightarrow> string" where
  "unindent indent func =
     py_join [newline] (map (slice_from (int (length indent) - 1)) (split_char newline (tl func)))"

definition put_constants :: "string \<Rightarrow> string" where
  "put_constants func = fold (\<lambda>(k, v). re_sub (rseq [RWordB, rstr k, RWordB]) v) spec_constants func"

definition drop_flags :: "string \<Rightarrow> string" where
  "drop_flags func = py_replace set_loc [] (py_replace set_flag [] func)"

definition extract_one :: "string \<Rightarrow> string \<Rightarrow> string py_res" where
  "extract_one c func_name =
     bind_res (func_span func_name c) (\<lambda>(start, indent, fin).
       Inr (drop_flags (put_constants (unindent indent (take (fin + 11 - start) (drop start c))))))"

text \<open>What is printed, up to the exception if there is one.\<close>

fun extract_loop :: "string \<Rightarrow> string list \<Rightarrow> string \<times> unit py_res" where
  "extract_loop c [] = ([], Inr ())"
| "extract_loop c (n # ns) =
     (case extract_one c n of
        Inl e \<Rightarrow> ([], Inl e)
      | Inr func \<Rightarrow> (case extract_loop c ns of (out, r) \<Rightarrow> (func @ [newline, newline] @ out, r)))"

definition extract_funcs :: "texts \<Rightarrow> string list \<Rightarrow> string \<times> unit py_res" where
  "extract_funcs files names =
     (case read_text files spec_path of Inl e \<Rightarrow> ([], Inl e) | Inr c \<Rightarrow> extract_loop c names)"

definition cull_one :: "string \<Rightarrow> string \<Rightarrow> string py_res" where
  "cull_one func_name c =
     bind_res (func_span func_name c) (\<lambda>(start, indent, fin). Inr (take start c @ drop (fin + 11) c))"

definition cull_funcs :: "texts \<Rightarrow> string list \<Rightarrow> texts \<times> unit py_res" where
  "cull_funcs files names =
     (case bind_res (read_text files spec_path) (fold_res cull_one names) of
        Inl e \<Rightarrow> (files, Inl e)
      | Inr c \<Rightarrow> (files(spec_path \<mapsto> c), Inr ()))"

section \<open>What a function is\<close>

text \<open>The first occurrence of a word, with what is before and after it.\<close>

lemma find_sub_least:
  "find_sub w s = Some n \<Longrightarrow> s = take n s @ w @ drop (n + length w) s \<and> (\<forall>i < n. \<not> prefix w (drop i s))"
proof (induction s arbitrary: n)
  case (Cons c s)
  show ?case
  proof (cases "prefix w (c # s)")
    case True
    with Cons.prems have "n = 0" by simp
    with True show ?thesis by (auto simp: prefix_def)
  next
    case False
    with Cons.prems obtain m where "find_sub w s = Some m" "n = Suc m" by auto
    with Cons.IH False show ?thesis by (auto simp: less_Suc_eq_0_disj)
  qed
qed (auto split: if_splits)

text \<open>
  \<open>func_text n ind t\<close>: the text \<open>t\<close> starts with the header of the function \<open>n\<close>, indented by \<open>ind\<close>.
\<close>

definition func_text :: "string \<Rightarrow> string \<Rightarrow> string \<Rightarrow> bool" where
  "func_text n ind t \<longleftrightarrow>
     list_all is_space ind \<and>
     (\<exists>x y rest. x \<noteq> [] \<and> newline \<notin> set x \<and> newline \<notin> set y \<and>
        t = ind @ ''function automatic '' @ x @ '' '' @ n @ ''('' @ y @ '');'' @ rest)"

text \<open>
  \<open>cut_of n c pre f post\<close>: the text \<open>c\<close> is cut into three pieces. The middle one begins at the start of a
  line with the header of the function and ends with the first closing keyword after that place.
\<close>

definition cut_of :: "string \<Rightarrow> string \<Rightarrow> string \<Rightarrow> string \<Rightarrow> string \<Rightarrow> string \<Rightarrow> bool" where
  "cut_of n c pre ind f post \<longleftrightarrow>
     c = pre @ f @ post \<and> (pre = [] \<or> last pre = newline) \<and> func_text n ind (f @ post) \<and>
     (\<exists>g. f = g @ ''endfunction'' \<and> (\<forall>i < length g. \<not> prefix ''endfunction'' (drop i (f @ post))))"

lemma func_re_match:
  assumes "rmatch (func_re n) (start_at b t) Some = Some m"
  shows "(b = [] \<or> hd b = newline) \<and> func_text n (grp m 1) t"
proof -
  let ?tail = "rseq [rstr ''function automatic '', rplus True rany, rlit (CHR 0x20), rstr n, rlit (CHR ''(''), RStar True rany, rstr '');'']"
  let ?k = "\<lambda>st'. rmatch ?tail (st'\<lparr>caps := (1, take (length t - length (ahead st')) t) # caps st'\<rparr>) Some"
  let ?r = "RStar True (RCls False [CSpace])"
  have "rmatch RBolM (start_at b t) (\<lambda>st. rmatch (RGroup 1 ?r) st (\<lambda>st. rmatch ?tail st Some)) = Some m"
    using assms unfolding func_re_def rmatch_rseq_Cons [of RBolM] rmatch_rseq_Cons [of "RGroup 1 _"] .
  then have "(if b = [] \<or> hd b = newline then rmatch (RGroup 1 ?r) (start_at b t) (\<lambda>st. rmatch ?tail st Some) else None) = Some m"
    by (simp only: rmatch.simps(8) start_at_def mstate.simps)
  then have b: "b = [] \<or> hd b = newline" and "rmatch (RGroup 1 ?r) (start_at b t) (\<lambda>st. rmatch ?tail st Some) = Some m"
    by (metis option.distinct(1))+
  then have 1: "rmatch ?r (start_at b t) ?k = Some m" by (simp only: rmatch.simps(6) start_at_def mstate.simps)
  from rs.sound [OF 1] obtain st' w where w: "t = w @ ahead st'" "w \<in> lang (RStar True (RCls False [CSpace]))" and 2: "?k st' = Some m"
    by (auto simp: start_at_def simp del: rseq.simps lang.simps)
  have sp: "list_all is_space w" using w(2) by (auto simp: star_of_class in_class_def list_all_iff)
  have tk: "take (length t - length (ahead st')) t = w" using w(1) by simp
  have 3: "rmatch ?tail (st'\<lparr>caps := (1, w) # caps st'\<rparr>) Some = Some m" using 2 unfolding tk .
  from rs.sound [OF 3] obtain v cs where v: "ahead st' = v @ ahead m" "v \<in> lang ?tail" "caps m = cs @ (1, w) # caps st'" "captured (set (groups ?tail)) cs"
    by (auto simp del: rseq.simps lang.simps)
  have "groups ?tail = []" by (simp add: rplus_def rany_def rlit_def)
  then have "cs = []" using v(4) by (cases cs) (auto simp: captured_def)
  then have g: "grp m 1 = w" using v(3) by (simp add: grp_def group_def)
  obtain x y where "v = ''function automatic '' @ x @ '' '' @ n @ ''('' @ y @ '');''" "x \<noteq> []" "newline \<notin> set x" "newline \<notin> set y"
    using v(2) unfolding lang_rseq_Cons lang_rstr by (auto simp: lang_plus_class rany_def rlit_def star_of_class in_class_def)
  then show ?thesis using b g sp w(1) v(1) unfolding func_text_def by fastforce
qed

lemma func_span_cut:
  assumes "func_span n c = Inr (start, ind, fin)"
  shows "cut_of n c (take start c) ind (take (fin + 11 - start) (drop start c)) (drop (fin + 11) c)"
proof -
  obtain b m k where m: "search_from (func_re n) [] c = Some (b, m)"
    and k: "find_sub ''endfunction'' (drop (length b) c) = Some k"
    and r: "start = length b" "ind = grp m 1" "fin = length b + k"
    using assms by (auto simp: func_span_def split: option.splits)
  obtain u t where ut: "c = u @ t" "b = rev u" "rmatch (func_re n) (start_at b t) Some = Some m"
    using search_from_Some [OF m] by auto
  have t: "drop start c = t" "take start c = u" using ut r(1) by simp_all
  have k': "find_sub ''endfunction'' t = Some k" using k t(1) r(1) by (simp only:)
  have len: "length ''endfunction'' = 11" by simp
  have l: "t = take k t @ ''endfunction'' @ drop (k + 11) t" "\<forall>i < k. \<not> prefix ''endfunction'' (drop i t)"
    using find_sub_least [OF k'] unfolding len by blast+
  have kl: "k + 11 \<le> length t" using arg_cong [OF l(1), of length] by simp
  have f: "take (k + 11) t = take k t @ ''endfunction''"
    using arg_cong [OF l(1), of "take (k + 11)"] kl by simp
  have d: "drop (fin + 11) c = drop (k + 11) t" "fin + 11 - start = k + 11" using ut r by simp_all
  have j: "take (k + 11) t @ drop (k + 11) t = t" by (rule append_take_drop_id)
  have c: "c = take start c @ t" using ut(1) t(2) by simp
  have h: "take start c = [] \<or> last (take start c) = newline" using func_re_match [OF ut(3)] ut(2) t(2) by (auto simp: hd_rev)
  have tx: "func_text n ind t" using func_re_match [OF ut(3)] r(2) by simp
  have "length (take k t) = k" using kl by simp
  with f l(2) have e: "\<exists>g. take (k + 11) t = g @ ''endfunction'' \<and> (\<forall>i < length g. \<not> prefix ''endfunction'' (drop i t))"
    by (intro exI [of _ "take k t"]) (simp only: simp_thms)
  show ?thesis unfolding cut_of_def t(1) d j using c h tx e by blast
qed

section \<open>Extraction and removal\<close>

lemma cull_one_cut:
  assumes "cull_one n c = Inr c'"
  shows "\<exists>pre ind f post. cut_of n c pre ind f post \<and> c' = pre @ post \<and>
     extract_one c n = Inr (drop_flags (put_constants (unindent ind f)))"
proof -
  obtain start ind fin where s: "func_span n c = Inr (start, ind, fin)" "c' = take start c @ drop (fin + 11) c"
    using assms by (auto simp: cull_one_def bind_res_Inr_iff)
  then show ?thesis using func_span_cut [OF s(1)] by (auto simp: extract_one_def)
qed

text \<open>
  C27. Removing functions. When the script comes to its end, each of the named functions has been cut
  out of the text that the ones before it left: a piece that begins at the start of a line with the
  header of that function and ends with the first closing keyword after it; all the rest of the text
  is kept, and no other file changes. When a function is not there, or is not closed, no file changes
  at all. What the extracting script prints for a function is made from the same piece.
\<close>

theorem cull_funcs_cuts:
  assumes "read_text files spec_path = Inr c"
  shows "case cull_funcs files names of
     (files', Inl e) \<Rightarrow> files' = files
   | (files', Inr _) \<Rightarrow>
       (\<exists>cs. length cs = Suc (length names) \<and> cs ! 0 = c \<and> files' = files(spec_path \<mapsto> last cs) \<and>
          (\<forall>k < length names. \<exists>pre ind f post.
             cut_of (names ! k) (cs ! k) pre ind f post \<and> cs ! Suc k = pre @ post \<and>
             extract_one (cs ! k) (names ! k) = Inr (drop_flags (put_constants (unindent ind f)))))"
proof -
  have "\<exists>cs. length cs = Suc (length names) \<and> cs ! 0 = c \<and> last cs = c' \<and>
          (\<forall>k < length names. \<exists>pre ind f post.
             cut_of (names ! k) (cs ! k) pre ind f post \<and> cs ! Suc k = pre @ post \<and>
             extract_one (cs ! k) (names ! k) = Inr (drop_flags (put_constants (unindent ind f))))"
    if "fold_res cull_one names c = Inr c'" for c'
    using that
  proof (induction names arbitrary: c)
    case Nil
    then show ?case by (intro exI [of _ "[c]"]) simp
  next
    case (Cons n names)
    then obtain c1 where 1: "cull_one n c = Inr c1" "fold_res cull_one names c1 = Inr c'" by (auto simp: bind_res_Inr_iff)
    from Cons.IH [OF 1(2)] obtain cs where cs: "length cs = Suc (length names)" "cs ! 0 = c1" "last cs = c'"
      "\<forall>k < length names. \<exists>pre ind f post.
             cut_of (names ! k) (cs ! k) pre ind f post \<and> cs ! Suc k = pre @ post \<and>
             extract_one (cs ! k) (names ! k) = Inr (drop_flags (put_constants (unindent ind f)))" by blast
    show ?case
      using cs cull_one_cut [OF 1(1)] by (intro exI [of _ "c # cs"]) (auto simp: less_Suc_eq_0_disj)
  qed
  then show ?thesis
    using assms by (auto simp: cull_funcs_def split: sum.splits)
qed

definition demo_spec :: string where
  "demo_spec = ''function automatic a f();'' @ [newline] @ ''endfunction;b''"

theorem cull_funcs_cuts_witness:
  "read_text [spec_path \<mapsto> demo_spec] spec_path = Inr demo_spec \<and>
   (case cull_funcs [spec_path \<mapsto> demo_spec] [''f''] of
     (files', Inl e) \<Rightarrow> files' = [spec_path \<mapsto> demo_spec]
   | (files', Inr _) \<Rightarrow>
       (\<exists>cs. length cs = Suc (length [''f'']) \<and> cs ! 0 = demo_spec \<and> files' = [spec_path \<mapsto> demo_spec](spec_path \<mapsto> last cs) \<and>
          (\<forall>k < length [''f'']. \<exists>pre ind f post.
             cut_of ([''f''] ! k) (cs ! k) pre ind f post \<and> cs ! Suc k = pre @ post \<and>
             extract_one (cs ! k) ([''f''] ! k) = Inr (drop_flags (put_constants (unindent ind f)))))) \<and>
   cull_one ''f'' demo_spec = Inr '';b''"
proof -
  have "universal_newlines demo_spec = demo_spec" by code_simp
  then have r: "read_text [spec_path \<mapsto> demo_spec] spec_path = Inr demo_spec" by (simp add: read_text_def read_file_def)
  moreover have "cull_one ''f'' demo_spec = Inr '';b''"
    by (simp add: cull_one_def func_span_def func_re_def demo_spec_def re_eval del: rseq.simps(2,3))
  ultimately show ?thesis using cull_funcs_cuts [OF r, of "[''f'']"] by blast
qed

end
