(* ===== verification/Syn_Flow.thy ===== *)
theory Syn_Flow
  imports Instr_Compare
begin

text \<open>
  The scripts of the synthesis flow: \<^verbatim>\<open>syn/python/flow_utils.py\<close>, \<^verbatim>\<open>build_translated_names.py\<close>,
  \<^verbatim>\<open>translate_timing_csv.py\<close> and \<^verbatim>\<open>get_kge.py\<close>. Timing reports name cells that the synthesis tool has
  generated; the tool is asked for the names behind them, and the reports are rewritten.

  Floating-point numbers are parameters: how a text is read, how a number is printed, and the
  operations on them. The iteration order of a set of strings is a parameter as well.

  The lemmas show what a report looks like after its translation, that a second translation of the
  same report fails, and when an area report gives a sum.
\<close>

section \<open>Timing reports\<close>

type_synonym 'f path_info = "string \<times> string \<times> 'f"

definition ys_translate_script_filename :: string where "ys_translate_script_filename = ''translate_names.ys''"
definition ys_translated_names :: string where "ys_translated_names = ''ys_translated_names''"
definition ys_tcl :: string where "ys_tcl = ''./tcl/yosys_post_synth.tcl''"

text \<open>\<^verbatim>\<open>(_\w+_)/(\w+)\<close>.\<close>

definition generated_cell_re :: regex where
  "generated_cell_re =
     rseq [RGroup 1 (rseq [rlit (CHR ''_''), rplus True (RCls False [CWord]), rlit (CHR ''_'')]), rlit (CHR ''/''),
           RGroup 2 (rplus True (RCls False [CWord]))]"

definition create_translate_names_script :: "string list \<Rightarrow> string \<Rightarrow> string \<Rightarrow> string" where
  "create_translate_names_script cells top_level gen_out =
     ''tcl '' @ ys_tcl @ [newline] @ ''cd '' @ top_level @ [newline] @
     concat (map (\<lambda>cell. ''select '' @ cell @ '' %x:+[Q]'' @ [newline] @
                         ''tee -a '' @ gen_out @ ''/'' @ ys_translated_names @ '' select -list'' @ [newline]) cells)"

text \<open>A point of a path: the generated cell in it, if there is one, or the point itself.\<close>

definition cell_of :: "string \<Rightarrow> string option" where
  "cell_of p = map_option (\<lambda>m. grp m 1) (re_search generated_cell_re p)"

definition point_of :: "string \<Rightarrow> string" where
  "point_of p = (case cell_of p of Some c \<Rightarrow> c | None \<Rightarrow> p)"

definition float_res :: "(string \<Rightarrow> 'f option) \<Rightarrow> string \<Rightarrow> 'f py_res" where
  "float_res rf s =
     (case rf s of Some x \<Rightarrow> Inr x | None \<Rightarrow> Inl (ValueError (''could not convert string to float: '' @ py_repr s)))"

definition path_row :: "(string \<Rightarrow> 'f option) \<Rightarrow> string list \<Rightarrow> string list \<Rightarrow> (string list \<times> 'f path_info) py_res" where
  "path_row rf cells line =
     bind_res (nth_res line 0) (\<lambda>a. bind_res (nth_res line 1) (\<lambda>b.
     bind_res (nth_res line 2) (\<lambda>w. bind_res (float_res rf w) (\<lambda>x.
       Inr (fold List.insert (List.map_filter cell_of [a, b]) cells, (point_of a, point_of b, x))))))"

fun path_rows ::
    "(string \<Rightarrow> 'f option) \<Rightarrow> string list list \<Rightarrow> string list \<Rightarrow> (string list \<times> 'f path_info list) py_res" where
  "path_rows rf [] cells = Inr (cells, [])"
| "path_rows rf (line # ls) cells =
     bind_res (path_row rf cells line) (\<lambda>(cells', p).
     bind_res (path_rows rf ls cells') (\<lambda>(cells'', ps). Inr (cells'', p # ps)))"

text \<open>The set of cells is the list of its elements in the order in which they are added.\<close>

definition extract_path_info ::
    "(string \<Rightarrow> 'f option) \<Rightarrow> (string \<Rightarrow> string option) \<Rightarrow> string \<Rightarrow> (string list \<times> 'f path_info list) py_res" where
  "extract_path_info rf files timing_csv =
     bind_res (read_file files timing_csv) (\<lambda>t. path_rows rf (csv_rows t) [])"

section \<open>Translated names\<close>

definition after_slash :: "string \<Rightarrow> string py_res" where
  "after_slash s = (case split_once ''/'' s of None \<Rightarrow> Inl IndexError | Some (_, b) \<Rightarrow> Inr b)"

fun names_loop :: "string list \<Rightarrow> (string, string) dict \<Rightarrow> (string, string) dict py_res" where
  "names_loop [] d = Inr d"
| "names_loop [t] d = Inl IndexError"
| "names_loop (t # c # ls) d =
     bind_res (after_slash (butlast t)) (\<lambda>translated_name. bind_res (after_slash (butlast c)) (\<lambda>cell_name.
       names_loop ls (dict_set cell_name translated_name d)))"

definition build_translated_names_dict :: "(string \<Rightarrow> string option) \<Rightarrow> string \<Rightarrow> (string, string) dict py_res" where
  "build_translated_names_dict files path =
     bind_res (read_file files path) (\<lambda>t. names_loop (text_lines t) [])"

definition translated :: "(string, string) dict \<Rightarrow> string \<Rightarrow> string" where
  "translated d p = (case dict_get d p of Some n \<Rightarrow> n | None \<Rightarrow> p)"

definition translate_path_info ::
    "(string \<Rightarrow> string option) \<Rightarrow> 'f path_info list \<Rightarrow> string \<Rightarrow> 'f path_info list py_res" where
  "translate_path_info files path_info path =
     bind_res (build_translated_names_dict files path) (\<lambda>d.
       Inr (map (\<lambda>(a, b, x). (translated d a, translated d b, x)) path_info))"

section \<open>The two programs\<close>

text \<open>
  The script for the synthesis tool is written and the tool is started; what it returns is not looked
  at. The result has the files, the command, and the exception if there is one.
\<close>

fun all_cells ::
    "(string \<Rightarrow> 'f option) \<Rightarrow> (string \<Rightarrow> string option) \<Rightarrow> string list \<Rightarrow> string list \<Rightarrow> string list py_res" where
  "all_cells rf files [] cells = Inr cells"
| "all_cells rf files (rpt # rpts) cells =
     bind_res (extract_path_info rf files rpt) (\<lambda>(new_cells, _). all_cells rf files rpts (fold List.insert new_cells cells))"

definition build_names_main ::
    "(string \<Rightarrow> bool) \<Rightarrow> (string \<Rightarrow> 'f option) \<Rightarrow> (string list \<Rightarrow> string list) \<Rightarrow> (string \<Rightarrow> string option) \<Rightarrow>
     string \<Rightarrow> string \<Rightarrow> string list \<Rightarrow> (string \<Rightarrow> string option) \<times> string list option \<times> unit py_res" where
  "build_names_main creatable rf ord files top_level gen_out rpts =
     (let script = gen_out @ ''/'' @ ys_translate_script_filename in
      case all_cells rf files rpts [] of
        Inl e \<Rightarrow> (files, None, Inl e)
      | Inr cells \<Rightarrow>
          if files script = None \<and> \<not> creatable script then (files, None, Inl (FileNotFoundError script))
          else (files(script \<mapsto> create_translate_names_script (ord cells) top_level gen_out),
                Some [''yosys'', ''-s'', script], Inr ()))"

definition timing_header :: string where "timing_header = ''Start Point, End Point, WNS (ns)''"

text \<open>
  The output goes to the first argument of the command line, \<open>argv1\<close>, which is the report itself
  unless an option comes before it.
\<close>

definition timing_main ::
    "(string \<Rightarrow> bool) \<Rightarrow> (string \<Rightarrow> 'f option) \<Rightarrow> ('f \<Rightarrow> string) \<Rightarrow> string \<Rightarrow> string \<Rightarrow> string \<Rightarrow>
     (string \<Rightarrow> string option) \<Rightarrow> (string \<Rightarrow> string option) \<times> unit py_res" where
  "timing_main creatable rf sf argv1 rpt_file gen_out files =
     (case bind_res (extract_path_info rf files rpt_file) (\<lambda>(_, path_info).
             translate_path_info files path_info (gen_out @ ''/'' @ ys_translated_names)) of
        Inl e \<Rightarrow> (files, Inl e)
      | Inr path_info \<Rightarrow>
          if files argv1 = None \<and> \<not> creatable argv1 then (files, Inl (FileNotFoundError argv1))
          else (files(argv1 \<mapsto> timing_header @ [newline] @
                  concat (map (\<lambda>(a, b, x). a @ '','' @ b @ '','' @ sf x @ [newline]) path_info)), Inr ()))"

section \<open>Area\<close>

record 'f float_ops =
  f_read :: "string \<Rightarrow> 'f option"
  f_zero :: 'f
  f_add :: "'f \<Rightarrow> 'f \<Rightarrow> 'f"
  f_mul :: "'f \<Rightarrow> 'f \<Rightarrow> 'f"
  f_div :: "'f \<Rightarrow> 'f \<Rightarrow> 'f option"

text \<open>\<open>f_div\<close> is \<open>None\<close> for a division by zero. The place in a message: file and line.\<close>

definition at_line :: "string \<Rightarrow> nat \<Rightarrow> string" where
  "at_line path n = path @ '':'' @ nat_str 10 n"

fun lib_loop ::
    "'f float_ops \<Rightarrow> string \<Rightarrow> nat \<Rightarrow> string list \<Rightarrow> string option \<Rightarrow> (string, 'f) dict \<Rightarrow> (string, 'f) dict py_res" where
  "lib_loop fo path n [] cell_name d = Inr d"
| "lib_loop fo path n (line # ls) cell_name d =
     (if prefix ''  cell ('' line
      then (if cell_name \<noteq> None then Inl (RuntimeError (at_line path n @ '' Found cell while searching for area''))
            else bind_res (nth_res (py_words line) 1) (\<lambda>w. lib_loop fo path (n + 1) ls (Some (strip_of (one_of ''()'') w)) d))
      else if prefix (CHR 0x09 # ''area'') line
      then (case cell_name of
              None \<Rightarrow> Inl (RuntimeError (at_line path n @ '' Found area while searching for cell''))
            | Some c \<Rightarrow>
                (case bind_res (nth_res (py_words line) 2) (\<lambda>w. float_res (f_read fo) (strip_of (one_of '';'') w)) of
                   Inl _ \<Rightarrow> Inl (RuntimeError (at_line path n @ '' Area declaration misformatted''))
                 | Inr x \<Rightarrow> lib_loop fo path (n + 1) ls None (dict_set c x d)))
      else lib_loop fo path (n + 1) ls cell_name d)"

definition div_res :: "'f float_ops \<Rightarrow> 'f \<Rightarrow> 'f \<Rightarrow> 'f py_res" where
  "div_res fo x y = (case f_div fo x y of None \<Rightarrow> Inl ZeroDivisionError | Some z \<Rightarrow> Inr z)"

definition read_lib :: "'f float_ops \<Rightarrow> (string \<Rightarrow> string option) \<Rightarrow> string \<Rightarrow> string \<Rightarrow> (string, 'f) dict py_res" where
  "read_lib fo files lib_file_path ref_cell =
     bind_res (read_file files lib_file_path) (\<lambda>t.
     bind_res (lib_loop fo lib_file_path 1 (text_lines t) None []) (\<lambda>cell_dict.
       case dict_get cell_dict ref_cell of
         None \<Rightarrow> Inl (RuntimeError (''Specified reference cell: '' @ ref_cell @ '' was not found in library: '' @ lib_file_path))
       | Some ref \<Rightarrow> map_res (\<lambda>(c, x). bind_res (div_res fo x ref) (\<lambda>y. Inr (c, y))) cell_dict))"

fun kge_loop :: "'f float_ops \<Rightarrow> string \<Rightarrow> (string, 'f) dict \<Rightarrow> nat \<Rightarrow> string list \<Rightarrow> 'f \<Rightarrow> 'f py_res" where
  "kge_loop fo path weighted n [] ge = Inr ge"
| "kge_loop fo path weighted n (line # ls) ge =
     (case py_words line of
        [] \<Rightarrow> kge_loop fo path weighted (n + 1) ls ge
      | d0 # ds \<Rightarrow>
          (case dict_get weighted d0 of
             None \<Rightarrow> kge_loop fo path weighted (n + 1) ls ge
           | Some weight \<Rightarrow>
               (case bind_res (nth_res ds 0) (float_res (f_read fo)) of
                  Inl _ \<Rightarrow> Inl (RuntimeError (at_line path n @ '' Cell '' @ d0 @ '' matched but was misformatted''))
                | Inr x \<Rightarrow> kge_loop fo path weighted (n + 1) ls (f_add fo ge (f_mul fo x weight)))))"

text \<open>\<open>show_kge\<close> prints the number divided by 1000 and rounded to two digits.\<close>

definition get_kge ::
    "'f float_ops \<Rightarrow> ('f \<Rightarrow> string) \<Rightarrow> (string \<Rightarrow> string option) \<Rightarrow> string \<Rightarrow> (string, 'f) dict \<Rightarrow> string py_res" where
  "get_kge fo show_kge files report_path weighted =
     bind_res (read_file files report_path) (\<lambda>t.
     bind_res (kge_loop fo report_path weighted 1 (text_lines t) (f_zero fo)) (\<lambda>ge.
       Inr (''Area in kGE =  '' @ show_kge ge @ [newline])))"

definition kge_main ::
    "'f float_ops \<Rightarrow> ('f \<Rightarrow> string) \<Rightarrow> (string \<Rightarrow> string option) \<Rightarrow> string \<Rightarrow> string \<Rightarrow> string \<Rightarrow> string py_res" where
  "kge_main fo show_kge files lib_file_path report_path cell =
     bind_res (read_lib fo files lib_file_path cell) (get_kge fo show_kge files report_path)"

section \<open>What a translated report holds\<close>

text \<open>Fields of a report that stand for themselves, and names that fit on a line.\<close>

definition plain_field :: "string \<Rightarrow> bool" where
  "plain_field f \<longleftrightarrow> \<not> list_ex csv_special f"

definition one_line :: "string \<Rightarrow> bool" where
  "one_line s \<longleftrightarrow> newline \<notin> set s \<and> cr \<notin> set s"

definition report_text :: "(string \<times> string \<times> string) list \<Rightarrow> string" where
  "report_text rows = concat (map (\<lambda>(a, b, w). a @ '','' @ b @ '','' @ w @ [newline]) rows)"

text \<open>The answer of the synthesis tool for a list of cells: two lines for each, the name and the cell.\<close>

definition names_text :: "string \<Rightarrow> (string \<times> string) list \<Rightarrow> string" where
  "names_text top_level ps =
     concat (map (\<lambda>(c, n). top_level @ ''/'' @ n @ [newline] @ top_level @ ''/'' @ c @ [newline]) ps)"

lemma universal_newlines_line:
  "cr \<notin> set s \<Longrightarrow> universal_newlines (s @ newline # t) = s @ newline # universal_newlines t"
  by (induction s) auto

lemma csv_rows_line:
  assumes "2 \<le> length fs" "\<forall>f \<in> set fs. plain_field f"
  shows "csv_rows (py_join [comma] fs @ newline # t) = fs # csv_rows t"
proof -
  have f: "map csv_field fs = fs"
    using assms(2) by (intro map_idI) (simp add: plain_field_def csv_field_def)
  have "cr \<notin> set (py_join [comma] fs)"
    using assms(2) by (intro py_join_no_char) (auto simp: plain_field_def csv_special_def list_ex_iff)
  then show ?thesis
    using csv_read_row [OF assms(1), of "universal_newlines t"] unfolding f
    by (simp add: csv_rows_def universal_newlines_line)
qed

lemma csv_rows_report:
  "\<forall>(a, b, w) \<in> set rows. plain_field a \<and> plain_field b \<and> plain_field w \<Longrightarrow>
     csv_rows (report_text rows) = map (\<lambda>(a, b, w). [a, b, w]) rows"
proof (induction rows)
  case Nil
  then show ?case by (simp add: report_text_def csv_rows_def)
next
  case (Cons r rows)
  obtain a b w where r: "r = (a, b, w)" by (cases r)
  have "report_text (r # rows) = py_join [comma] [a, b, w] @ newline # report_text rows"
    by (simp add: report_text_def r)
  with Cons show ?case using csv_rows_line [of "[a, b, w]" "report_text rows"] by (simp add: r)
qed

lemma path_rows_report:
  "\<forall>(a, b, w) \<in> set rows. rf w \<noteq> None \<Longrightarrow>
     \<exists>cells'. path_rows rf (map (\<lambda>(a, b, w). [a, b, w]) rows) cells =
       Inr (cells', map (\<lambda>(a, b, w). (point_of a, point_of b, the (rf w))) rows)"
proof (induction rows arbitrary: cells)
  case (Cons r rows)
  obtain a b w where r: "r = (a, b, w)" by (cases r)
  then obtain x where "rf w = Some x" using Cons.prems by auto
  then have 1: "path_row rf cells [a, b, w] =
      Inr (fold List.insert (List.map_filter cell_of [a, b]) cells, point_of a, point_of b, x)"
    by (simp add: path_row_def float_res_def)
  obtain cells' where "path_rows rf (map (\<lambda>(a, b, w). [a, b, w]) rows) (fold List.insert (List.map_filter cell_of [a, b]) cells) =
      Inr (cells', map (\<lambda>(a, b, w). (point_of a, point_of b, the (rf w))) rows)"
    using Cons by fastforce
  then show ?case using 1 \<open>rf w = Some x\<close> by (simp add: r)
qed simp

lemma text_lines_line: "one_line s \<Longrightarrow> text_lines (s @ newline # t) = (s @ [newline]) # text_lines t"
proof -
  assume s: "one_line s"
  have "file_lines_acc acc (s @ newline # t') = (rev acc @ s @ [newline]) # file_lines_acc [] t'" for acc t'
    using s unfolding one_line_def by (induction s arbitrary: acc) auto
  then show ?thesis using s by (simp add: text_lines_def universal_newlines_line one_line_def file_lines_def)
qed

lemma after_slash_first: "CHR ''/'' \<notin> set m \<Longrightarrow> after_slash (m @ CHR ''/'' # s) = Inr s"
proof -
  assume "CHR ''/'' \<notin> set m"
  then have "find_sub ''/'' (m @ CHR ''/'' # s) = Some (length m)" by (induction m) auto
  then show ?thesis by (simp add: after_slash_def split_once_def)
qed

lemma names_loop_pairs:
  assumes "CHR ''/'' \<notin> set m" "one_line m" "\<forall>(c, n) \<in> set ps. one_line c \<and> one_line n"
  shows "names_loop (text_lines (names_text m ps)) d = Inr (fold (\<lambda>(c, n). dict_set c n) ps d)"
  using assms(3)
proof (induction ps arbitrary: d)
  case Nil
  then show ?case by (simp add: names_text_def text_lines_def file_lines_def)
next
  case (Cons p ps)
  obtain c n where p: "p = (c, n)" by (cases p)
  have l: "one_line (m @ CHR ''/'' # n)" "one_line (m @ CHR ''/'' # c)"
    using assms(2) Cons.prems by (auto simp: one_line_def p)
  have "names_text m (p # ps) = (m @ CHR ''/'' # n) @ newline # (m @ CHR ''/'' # c) @ newline # names_text m ps"
    by (simp add: names_text_def p)
  then have t: "text_lines (names_text m (p # ps)) =
      ((m @ CHR ''/'' # n) @ [newline]) # ((m @ CHR ''/'' # c) @ [newline]) # text_lines (names_text m ps)"
    using text_lines_line [OF l(1)] text_lines_line [OF l(2)] by simp
  show ?case
    unfolding t using Cons by (simp add: butlast_append after_slash_first [OF assms(1)] p)
qed

lemma dict_get_fold_set: "dict_get (fold (\<lambda>(c, n). dict_set c n) ps []) k = map_of (rev ps) k"
  using pd.look_fold_store [of ps "[]" k] by (simp split: option.splits)

text \<open>The name of a point: the last one that the synthesis tool gives for its cell.\<close>

definition name_of :: "(string \<times> string) list \<Rightarrow> string \<Rightarrow> string" where
  "name_of ps p = (case map_of (rev ps) (point_of p) of Some n \<Rightarrow> n | None \<Rightarrow> point_of p)"

lemma header_row: "csv_rows (timing_header @ newline # t) = [''Start Point'', '' End Point'', '' WNS (ns)''] # csv_rows t"
proof -
  let ?fs = "[''Start Point'', '' End Point'', '' WNS (ns)'']"
  have "\<forall>f \<in> set ?fs. plain_field f" by (simp add: plain_field_def csv_special_def)
  moreover have "timing_header = py_join [comma] ?fs" by (simp add: timing_header_def)
  ultimately show ?thesis using csv_rows_line [of ?fs t] by simp
qed

definition translated_report ::
    "(string \<times> string) list \<Rightarrow> (string \<Rightarrow> 'f option) \<Rightarrow> ('f \<Rightarrow> string) \<Rightarrow> (string \<times> string \<times> string) list \<Rightarrow> string" where
  "translated_report ps rf sf rows =
     timing_header @ newline # report_text (map (\<lambda>(a, b, w). (name_of ps a, name_of ps b, sf (the (rf w)))) rows)"

text \<open>
  C28. Translating a timing report in place. Every row is kept in its order with its number; each end
  point is replaced by the last name that the synthesis tool gave for the cell in it, or by that cell
  when there is none; a header comes first. Because of that header the report cannot be translated a
  second time: the program then ends with a \<^verbatim>\<open>ValueError\<close> and leaves the report alone.
\<close>

theorem timing_translated:
  assumes "files rpt = Some (report_text rows)"
    and "\<forall>(a, b, w) \<in> set rows. plain_field a \<and> plain_field b \<and> plain_field w \<and> rf w \<noteq> None"
    and "files (gen @ ''/'' @ ys_translated_names) = Some (names_text m ps)"
    and "CHR ''/'' \<notin> set m" "one_line m" "\<forall>(c, n) \<in> set ps. one_line c \<and> one_line n"
    and "rf '' WNS (ns)'' = None"
  shows "timing_main creatable rf sf rpt rpt gen files = (files(rpt \<mapsto> translated_report ps rf sf rows), Inr ()) \<and>
     timing_main creatable rf sf rpt rpt gen (files(rpt \<mapsto> translated_report ps rf sf rows)) =
       (files(rpt \<mapsto> translated_report ps rf sf rows),
        Inl (ValueError (''could not convert string to float: '' @ py_repr '' WNS (ns)'')))"
proof -
  obtain cells where c: "path_rows rf (csv_rows (report_text rows)) [] =
      Inr (cells, map (\<lambda>(a, b, w). (point_of a, point_of b, the (rf w))) rows)"
    using csv_rows_report [of rows] path_rows_report [of rows rf "[]"] assms(2) by fastforce
  let ?d = "fold (\<lambda>(c, n). dict_set c n) ps []"
  have d: "names_loop (text_lines (names_text m ps)) [] = Inr ?d"
    using names_loop_pairs assms(4-6) by blast
  have tr: "translated (fold (\<lambda>p. dict_set (fst p) (snd p)) ps []) (point_of a) = name_of ps a" for a
    using dict_get_fold_set [of ps "point_of a"] unfolding split_def by (simp add: translated_def name_of_def)
  have "timing_main creatable rf sf rpt rpt gen files = (files(rpt \<mapsto> translated_report ps rf sf rows), Inr ())"
    using assms(1,3) c d by (simp add: timing_main_def extract_path_info_def translate_path_info_def
      build_translated_names_dict_def read_file_def translated_report_def report_text_def tr split_def comp_def)
  moreover have "path_rows rf (csv_rows (translated_report ps rf sf rows)) [] =
      Inl (ValueError (''could not convert string to float: '' @ py_repr '' WNS (ns)''))"
    using assms(7) by (simp add: translated_report_def header_row path_row_def float_res_def)
  ultimately show ?thesis by (simp add: timing_main_def extract_path_info_def read_file_def)
qed

definition demo_float :: "string \<Rightarrow> int option" where "demo_float s = py_int 10 s"

theorem timing_translated_witness:
  "let files = [''r'' \<mapsto> report_text [(''_7_/Q'', ''y'', ''-3'')], ''g/ys_translated_names'' \<mapsto> names_text ''m'' [(''_7_'', ''pc'')]];
       files' = files(''r'' \<mapsto> timing_header @ newline # ''pc,y,-3'' @ [newline]) in
   timing_main (\<lambda>_. True) demo_float int_str ''r'' ''r'' ''g'' files = (files', Inr ()) \<and>
   timing_main (\<lambda>_. True) demo_float int_str ''r'' ''r'' ''g'' files' =
     (files', Inl (ValueError (''could not convert string to float: '' @ py_repr '' WNS (ns)'')))"
proof -
  let ?rows = "[(''_7_/Q'', ''y'', ''-3'')]"
  let ?ps = "[(''_7_'', ''pc'')]"
  let ?files = "[''r'' \<mapsto> report_text ?rows, ''g/ys_translated_names'' \<mapsto> names_text ''m'' ?ps]"
  have f: "demo_float ''-3'' = Some (-3)" "demo_float '' WNS (ns)'' = None" by code_simp+
  have p: "point_of ''_7_/Q'' = ''_7_''" "point_of ''y'' = ''y''"
    by (simp_all add: point_of_def cell_of_def generated_cell_re_def re_eval del: rseq.simps(2,3))
  have i: "int_str (-3) = ''-3''" by code_simp
  have t: "translated_report ?ps demo_float int_str ?rows = timing_header @ newline # ''pc,y,-3'' @ [newline]"
    using f(1) p i by (simp add: translated_report_def report_text_def name_of_def)
  have pl: "plain_field ''_7_/Q''" "plain_field ''y''" "plain_field ''-3''" "one_line ''m''" "one_line ''_7_''" "one_line ''pc''"
    by (simp_all add: plain_field_def one_line_def csv_special_def)
  show ?thesis
    using timing_translated [of ?files "''r''" ?rows demo_float "''g''" "''m''" ?ps "\<lambda>_. True" int_str] f pl
    unfolding t Let_def by (simp add: ys_translated_names_def)
qed

section \<open>When an area is computed\<close>

text \<open>The lines of an area report that count: those whose first word is a cell of the library.\<close>

definition counted :: "(string, 'f) dict \<Rightarrow> string \<Rightarrow> (string list \<times> 'f) option" where
  "counted weighted line =
     (case py_words line of [] \<Rightarrow> None | d0 # ds \<Rightarrow> map_option (Pair ds) (dict_get weighted d0))"

lemma kge_loop_sum:
  "(case kge_loop fo path weighted n ls ge of
      Inr area \<Rightarrow>
        (\<forall>(ds, w) \<in> set (List.map_filter (counted weighted) ls). ds \<noteq> [] \<and> f_read fo (hd ds) \<noteq> None) \<and>
        area = fold (\<lambda>(ds, w) ge. f_add fo ge (f_mul fo (the (f_read fo (hd ds))) w)) (List.map_filter (counted weighted) ls) ge
    | Inl e \<Rightarrow>
        (\<exists>m. e = RuntimeError m) \<and>
        (\<exists>(ds, w) \<in> set (List.map_filter (counted weighted) ls). ds = [] \<or> f_read fo (hd ds) = None))"
proof (induction ls arbitrary: n ge)
  case Nil
  then show ?case by (simp add: map_filter_simps)
next
  case (Cons line ls)
  show ?case
  proof (cases "counted weighted line")
    case None
    then have "kge_loop fo path weighted n (line # ls) ge = kge_loop fo path weighted (n + 1) ls ge"
      by (auto simp: counted_def split: list.splits)
    then show ?thesis using Cons [of ge "n + 1"] None by (simp only: map_filter_simps option.case)
  next
    case (Some dw)
    then obtain d0 ds w where d: "py_words line = d0 # ds" "dict_get weighted d0 = Some w" "dw = (ds, w)"
      by (auto simp: counted_def split: list.splits)
    show ?thesis
    proof (cases "ds = [] \<or> f_read fo (hd ds) = None")
      case True
      then show ?thesis using d Some by (cases ds) (auto simp: map_filter_simps float_res_def)
    next
      case False
      then obtain x d1 ds' where "ds = d1 # ds'" "f_read fo d1 = Some x" by (cases ds) auto
      then show ?thesis using d Some Cons [of "f_add fo ge (f_mul fo x w)" "n + 1"]
        by (simp add: map_filter_simps float_res_def split: sum.splits)
    qed
  qed
qed

end
