(* ===== verification/Tool_Req.thy ===== *)
theory Tool_Req
  imports Py_Regex Py_Value "HOL-Library.Char_ord" "HOL-Library.List_Lexorder"
begin

text \<open>
  The check of installed tools, \<^verbatim>\<open>util/check_tool_requirements.py\<close>: the requirements file, the classes of
  requirements with their ways to find and to normalise a version, the comparison, and the program.

  Parameters: running a command (\<open>run\<close>, with the overrides of the environment), running a shell line
  (\<open>run_shell\<close>), the installed version of a Python package (\<open>pkg_version\<close>), the class \<^verbatim>\<open>Version\<close> of the
  packaging library (\<open>ver\<close> parses, \<open>ver_lt\<close> compares), and executing the requirements file
  (\<open>exec_py\<close>, the globals it leaves).
\<close>

section \<open>Requirements\<close>

datatype tool_class = ToolReq | VerilatorToolReq | VeribleToolReq | VcsToolReq | PyModuleToolReq

record tool_req =
  tool :: string
  min_version :: string
  optional :: bool
  as_needed :: bool
  tool_cls :: tool_class

definition get_tool_requirements_path :: "(string \<Rightarrow> string) \<Rightarrow> string \<Rightarrow> string" where
  "get_tool_requirements_path normpath file =
     path_join (normpath (path_join (dirname file) ''..'')) ''tool_requirements.py''"

text \<open>\<^verbatim>\<open>str\<close> of a \<^verbatim>\<open>ReqErr\<close>.\<close>

definition req_err_str :: "string \<Rightarrow> string \<Rightarrow> string" where
  "req_err_str path msg = ''Error parsing tool requirements from '' @ py_repr path @ '': '' @ msg"

definition class_of :: "string \<Rightarrow> tool_class" where
  "class_of t =
     (if t = ''edalize'' then PyModuleToolReq
      else if t = ''vcs'' then VcsToolReq
      else if t = ''verible'' then VeribleToolReq
      else if t = ''verilator'' then VerilatorToolReq
      else ToolReq)"

text \<open>The constructor of the class.\<close>

definition new_req :: "tool_class \<Rightarrow> string \<Rightarrow> string \<Rightarrow> tool_req" where
  "new_req c t mv = \<lparr>tool = t, min_version = mv, optional = False, as_needed = False, tool_cls = c\<rparr>"

definition dict_to_tool_req :: "string \<Rightarrow> string \<Rightarrow> (yval \<times> yval) list \<Rightarrow> tool_req py_res" where
  "dict_to_tool_req path t raw =
     (let wher = ''Dict for '' @ t @ '' in __TOOL_REQUIREMENTS__'' in
      case dict_get raw (YStr ''min_version'') of
        None \<Rightarrow> Inl (ReqErr path (wher @ '' is missing required key: '' @ [dquote] @ ''min_version'' @
                                  [dquote] @ ''.''))
      | Some (YStr mv) \<Rightarrow>
          (let raw1 = dict_del (YStr ''min_version'') raw in
           bind_res
             (case dict_get raw1 (YStr ''as_needed'') of
                None \<Rightarrow> Inr (False, raw1)
              | Some (YBool b) \<Rightarrow> Inr (b, dict_del (YStr ''as_needed'') raw1)
              | Some _ \<Rightarrow> Inl (ReqErr path (wher @ '' has as_needed that is not a bool.'')))
             (\<lambda>(an, raw2).
                if raw2 \<noteq> []
                then bind_res (map_res as_str (map fst raw2)) (\<lambda>ks.
                       Inl (ReqErr path (wher @ '' has unexpected keys: '' @ py_join '', '' ks @ ''.'')))
                else Inr ((new_req (class_of t) t mv)\<lparr>as_needed := an\<rparr>)))
      | Some _ \<Rightarrow> Inl (ReqErr path (wher @ '' has min_version that is not a string.'')))"

fun read_reqs ::
  "string \<Rightarrow> (yval \<times> yval) list \<Rightarrow> (string, tool_req) dict \<Rightarrow> (string, tool_req) dict py_res" where
  "read_reqs path [] reqs = Inr reqs"
| "read_reqs path ((k, raw_val) # rest) reqs =
     (case k of
        YStr t \<Rightarrow>
          (case (case raw_val of YStr mv \<Rightarrow> YMap [(YStr ''min_version'', YStr mv)] | v \<Rightarrow> v) of
             YMap d \<Rightarrow> bind_res (dict_to_tool_req path t d) (\<lambda>r. read_reqs path rest (dict_set t r reqs))
           | _ \<Rightarrow> Inl (ReqErr path (''Value for '' @ t @
                         '' in __TOOL_REQUIREMENTS__ is not a string or dict.'')))
      | _ \<Rightarrow> Inl (ReqErr path (''Invalid key in __TOOL_REQUIREMENTS__: '' @ repr_val k)))"

definition read_tool_requirements ::
  "(string \<Rightarrow> string option) \<Rightarrow> (string \<Rightarrow> (string, yval) dict py_res) \<Rightarrow> string \<Rightarrow>
   (string, tool_req) dict py_res" where
  "read_tool_requirements fs exec_py path =
     (case fs path of
        None \<Rightarrow> Inl (FileNotFoundError path)
      | Some content \<Rightarrow>
          bind_res (exec_py content) (\<lambda>globs.
            case dict_get globs ''__TOOL_REQUIREMENTS__'' of
              None \<Rightarrow> Inl (ReqErr path ''The Python file at did not define __TOOL_REQUIREMENTS__.'')
            | Some YNull \<Rightarrow> Inl (ReqErr path ''The Python file at did not define __TOOL_REQUIREMENTS__.'')
            | Some (YMap raw) \<Rightarrow> read_reqs path raw []
            | Some _ \<Rightarrow> Inl (ReqErr path ''__TOOL_REQUIREMENTS__ is not a dict.'')))"

section \<open>The installed version\<close>

text \<open>The outcome of a command: its output, a failing status or a missing program, with the text of the error.\<close>

datatype proc_result = Finished string | CalledProcessFailed string | ProgramMissing string

definition tool_cmd :: "tool_req \<Rightarrow> string list" where
  "tool_cmd r =
     (case tool_cls r of
        VeribleToolReq \<Rightarrow> [''verible-verilog-lint'', ''--version'']
      | VcsToolReq \<Rightarrow> [''vcs'', ''-full64'', ''-ID'']
      | _ \<Rightarrow> [tool r, ''--version''])"

definition tool_env :: "tool_req \<Rightarrow> (string \<times> string) list option" where
  "tool_env r =
     (case tool_cls r of VcsToolReq \<Rightarrow> Some [(''VCS_ARCH_OVERRIDE'', ''linux'')] | _ \<Rightarrow> None)"

definition upperc :: regex where "upperc = RCls False [CRange (CHR ''A'') (CHR ''Z'')]"
definition digc :: regex where "digc = RCls False [CRange (CHR ''0'') (CHR ''9'')]"
definition lhexc :: regex where
  "lhexc = RCls False [CRange (CHR ''0'') (CHR ''9''), CRange (CHR ''a'') (CHR ''f'')]"

definition vcs_version_regex :: regex where
  "vcs_version_regex = rseq [rstr ''Compiler version = VCS '', upperc, rlit (CHR ''-''),
     RGroup 1 (RStar True rany)]"

definition version_regex :: "tool_req \<Rightarrow> regex option" where
  "version_regex r = (case tool_cls r of VcsToolReq \<Rightarrow> Some vcs_version_regex | _ \<Rightarrow> None)"

fun first_version :: "regex \<Rightarrow> string list \<Rightarrow> string py_res" where
  "first_version r [] = Inl (ValueError ''No line matched version regex.'')"
| "first_version r (l # ls) =
     (case re_match r (rstrip l) of Some m \<Rightarrow> Inr (grp m 1) | None \<Rightarrow> first_version r ls)"

definition parse_version_output :: "tool_req \<Rightarrow> string \<Rightarrow> string py_res" where
  "parse_version_output r out =
     (case version_regex r of
        None \<Rightarrow>
          (let words = py_words (takeWhile (\<lambda>c. c \<noteq> CHR 0x0A) out) in
           if words = [] then Inl (ValueError ''Empty first line.'') else Inr (last words))
      | Some re \<Rightarrow> first_version re (split_char (CHR 0x0A) out))"

definition env_msg :: "tool_req \<Rightarrow> string" where
  "env_msg r =
     (case tool_env r of
        None \<Rightarrow> []
      | Some kvs \<Rightarrow>
          if kvs = [] then []
          else '' (with environment overrides: '' @
               py_join '', '' (map (\<lambda>(k, v). k @ ''='' @ v) kvs) @ '')'')"

type_synonym runner = "string list \<Rightarrow> (string \<times> string) list option \<Rightarrow> proc_result"

definition base_get_version :: "runner \<Rightarrow> tool_req \<Rightarrow> string py_res" where
  "base_get_version run r =
     (let cmd = tool_cmd r; cmd_txt = py_join '' '' (map shlex_quote cmd);
          failed = (\<lambda>err. Inl (RuntimeError (''Failed to run '' @ py_repr cmd_txt @ env_msg r @
                                 '' to check version: '' @ err))) in
      case run cmd (tool_env r) of
        CalledProcessFailed err \<Rightarrow> failed err
      | ProgramMissing err \<Rightarrow> failed err
      | Finished out \<Rightarrow>
          if out = []
          then Inl (RuntimeError (''No output from running '' @ py_repr cmd_txt @ '' to check version.''))
          else (case parse_version_output r out of
                  Inl (ValueError err) \<Rightarrow>
                    Inl (RuntimeError (''Bad output from running '' @ py_repr cmd_txt @
                           '' to check version: '' @ err))
                | res \<Rightarrow> res))"

text \<open>
  Verilator runs in a shell; a status other than zero is the only failure the code expects. A shell
  that is missing lets the exception through.
\<close>

definition verilator_get_version :: "(string \<Rightarrow> proc_result) \<Rightarrow> string py_res" where
  "verilator_get_version run_shell =
     (case run_shell ''verilator --version'' of
        CalledProcessFailed err \<Rightarrow>
          Inl (RuntimeError (''Unable to call Verilator to check version: '' @ err))
      | ProgramMissing err \<Rightarrow> Inl (FileNotFoundError err)
      | Finished out \<Rightarrow> bind_res (nth_res (split_char (CHR '' '') out) 1) (\<lambda>w. Inr (strip w)))"

definition get_version ::
  "runner \<Rightarrow> (string \<Rightarrow> proc_result) \<Rightarrow> (string \<Rightarrow> string option) \<Rightarrow> tool_req \<Rightarrow> string py_res" where
  "get_version run run_shell pkg_version r =
     (case tool_cls r of
        VerilatorToolReq \<Rightarrow> verilator_get_version run_shell
      | PyModuleToolReq \<Rightarrow>
          (case pkg_version (tool r) of None \<Rightarrow> Inl (PackageNotFoundError (tool r)) | Some v \<Rightarrow> Inr v)
      | _ \<Rightarrow> base_get_version run r)"

section \<open>Normalising versions\<close>

definition verible_regex :: regex where
  "verible_regex = rseq [rlit (CHR ''v''), RGroup 1 (rplus True digc), rlit (CHR ''.''),
     RGroup 2 (rplus True digc), rlit (CHR ''-''), RGroup 3 (rplus True digc), rstr ''-g'',
     rplus True lhexc, REol]"

definition verible_to_semver :: "string \<Rightarrow> string py_res" where
  "verible_to_semver version =
     (case re_fullmatch verible_regex version of
        None \<Rightarrow> Inl (ValueError (version @ '' has invalid version string format.''))
      | Some m \<Rightarrow> Inr (py_join ''.'' [grp m 1, grp m 2, grp m 3]))"

text \<open>The dot between year and month is the one that matches any character.\<close>

definition vcs_regex :: "bool \<Rightarrow> regex" where
  "vcs_regex from_req = rseq ([RGroup 1 (rplus True digc), rany, RGroup 2 (rplus True digc),
     ropt True (rseq [rstr ''-SP'', RGroup 3 (rplus True digc)]),
     ropt True (rseq [rlit (CHR ''-''), RGroup 4 (rplus True digc)])] @ (if from_req then [REol] else []))"

text \<open>\<^verbatim>\<open>int(group or 0)\<close> for a group of digits.\<close>

definition group_int :: "mstate \<Rightarrow> nat \<Rightarrow> int py_res" where
  "group_int m i =
     (if grp m i = [] then Inr 0
      else (case py_int 10 (grp m i) of
              Some n \<Rightarrow> Inr n
            | None \<Rightarrow> Inl (ValueError (''invalid literal for int() with base 10: '' @ py_repr (grp m i)))))"

definition vcs_to_semver :: "string \<Rightarrow> bool \<Rightarrow> string py_res" where
  "vcs_to_semver version from_req =
     (case re_match (vcs_regex from_req) version of
        None \<Rightarrow> Inl (ValueError (py_repr version @ '' is not a recognised VCS version string.''))
      | Some m \<Rightarrow>
          bind_res (group_int m 3) (\<lambda>sp. bind_res (group_int m 4) (\<lambda>patch.
            Inr (grp m 1 @ ''.'' @ grp m 2 @ int_str (sp * 100 + patch)))))"

definition to_semver :: "tool_req \<Rightarrow> string \<Rightarrow> bool \<Rightarrow> string py_res" where
  "to_semver r version from_req =
     (case tool_cls r of
        VeribleToolReq \<Rightarrow> verible_to_semver version
      | VcsToolReq \<Rightarrow> vcs_to_semver version from_req
      | _ \<Rightarrow> Inr version)"

section \<open>Checking one tool\<close>

text \<open>\<^verbatim>\<open>except ValueError as err: return (False, msg.format(err))\<close>.\<close>

definition on_value_error ::
  "(string \<Rightarrow> string) \<Rightarrow> 'a py_res \<Rightarrow> ('a \<Rightarrow> (bool \<times> string) py_res) \<Rightarrow> (bool \<times> string) py_res" where
  "on_value_error msg m k =
     (case m of
        Inl (ValueError err) \<Rightarrow> Inr (False, msg err)
      | Inl e \<Rightarrow> Inl e
      | Inr x \<Rightarrow> k x)"

text \<open>\<^verbatim>\<open>except RuntimeError as err: return (False, str(err))\<close>.\<close>

definition on_runtime_error ::
  "'a py_res \<Rightarrow> ('a \<Rightarrow> (bool \<times> string) py_res) \<Rightarrow> (bool \<times> string) py_res" where
  "on_runtime_error m k =
     (case m of
        Inl (RuntimeError err) \<Rightarrow> Inr (False, err)
      | Inl e \<Rightarrow> Inl e
      | Inr x \<Rightarrow> k x)"

definition version_of :: "(string \<Rightarrow> string + 'v) \<Rightarrow> string \<Rightarrow> 'v py_res" where
  "version_of ver s = (case ver s of Inl err \<Rightarrow> Inl (ValueError err) | Inr v \<Rightarrow> Inr v)"

definition check_req ::
  "(tool_req \<Rightarrow> string py_res) \<Rightarrow> (string \<Rightarrow> string + 'v) \<Rightarrow> ('v \<Rightarrow> 'v \<Rightarrow> bool) \<Rightarrow> tool_req \<Rightarrow>
   (bool \<times> string) py_res" where
  "check_req getv ver ver_lt r =
     on_value_error (\<lambda>err. ''Failed to convert requirement to semantic version: '' @ err)
       (to_semver r (min_version r) True) (\<lambda>min_semver.
     on_value_error (\<lambda>err. ''Bad semver inferred from required version ('' @ min_semver @ ''): '' @ err)
       (version_of ver min_semver) (\<lambda>min_sv.
     on_runtime_error (getv r) (\<lambda>actual_version.
     on_value_error (\<lambda>err. ''Failed to convert installed to semantic version: '' @ err)
       (to_semver r actual_version False) (\<lambda>actual_semver.
     on_value_error (\<lambda>err. ''Bad semver inferred from installed version ('' @ actual_semver @ ''): '' @ err)
       (version_of ver actual_semver) (\<lambda>actual_sv.
         if ver_lt actual_sv min_sv
         then Inr (False, ''Installed version is too old: found version '' @ actual_version @
                     '', but need at least '' @ min_version r)
         else Inr (True, ''Sufficiently recent version (found '' @ actual_version @ ''; needed '' @
                     min_version r @ '')''))))))"

section \<open>The program\<close>

record check_state =
  pending_tools :: "string list"
  missing_tools :: "string list"
  messages :: log

definition check_one ::
  "(tool_req \<Rightarrow> (bool \<times> string) py_res) \<Rightarrow> string \<times> tool_req \<Rightarrow> check_state \<Rightarrow> check_state py_res" where
  "check_one chk tr s =
     (case tr of (t, r) \<Rightarrow>
        if as_needed r \<and> t \<notin> set (pending_tools s) then Inr s
        else
          (let s1 = s\<lparr>pending_tools := filter (\<lambda>p. p \<noteq> t) (pending_tools s)\<rparr> in
           bind_res (chk r) (\<lambda>(good, msg).
             Inr (if \<not> good
                  then s1\<lparr>messages := messages s1 @
                            [(LogError, ''Failed tool requirement for '' @ t @ '': '' @ msg)],
                          missing_tools := missing_tools s1 @ [t]\<rparr>
                  else s1\<lparr>messages := messages s1 @ [(LogInfo, ''Tool '' @ t @ '' present: '' @ msg)]\<rparr>))))"

definition finish :: "check_state \<Rightarrow> int \<times> log" where
  "finish s =
     (let m1 = (if missing_tools s \<noteq> []
                then [(LogError, ''Tool requirements not fulfilled. Please update tools ('' @
                         py_join '', '' (missing_tools s) @ '') and retry.'')] else []);
          m2 = (if pending_tools s \<noteq> []
                then [(LogError, ''Some tools specified on command line don'' @ [squote] @
                         ''t appear in tool requirements file: '' @
                         py_join '', '' (sort (remdups (pending_tools s))))] else [])
      in (if missing_tools s = [] \<and> pending_tools s = [] then 0 else 1, messages s @ m1 @ m2))"

definition check_main ::
  "(string, tool_req) dict py_res \<Rightarrow> (tool_req \<Rightarrow> (bool \<times> string) py_res) \<Rightarrow> string list \<Rightarrow>
   (int \<times> log) py_res" where
  "check_main reqs chk args_tool =
     (case reqs of
        Inl (ReqErr path msg) \<Rightarrow> Inr (1, [(LogError, req_err_str path msg)])
      | Inl e \<Rightarrow> Inl e
      | Inr tool_requirements \<Rightarrow>
          bind_res
            (fold_res (check_one chk) tool_requirements
               \<lparr>pending_tools = args_tool, missing_tools = [], messages = []\<rparr>)
            (\<lambda>s. Inr (finish s)))"

text \<open>The requirements file of the repository, \<^verbatim>\<open>tool_requirements.py\<close>.\<close>

definition TOOL_REQUIREMENTS :: "(yval \<times> yval) list" where
  "TOOL_REQUIREMENTS =
     [(YStr ''verilator'', YStr ''4.028''),
      (YStr ''edalize'', YStr ''0.2.0''),
      (YStr ''vcs'', YMap [(YStr ''min_version'', YStr ''2020.03-SP2''), (YStr ''as_needed'', YBool True)]),
      (YStr ''vivado'', YMap [(YStr ''min_version'', YStr ''2020.2''), (YStr ''as_needed'', YBool True)])]"

section \<open>Requirements that are accepted\<close>

lemma dict_del_Nil_iff: "dict_del k d = [] \<longleftrightarrow> (\<forall>kv \<in> set d. fst kv = k)"
  by (auto simp: dict_del_def filter_empty_conv case_prod_unfold)

text \<open>
  A requirement is accepted exactly when it has a minimum version that is a string, possibly a
  flag \<^verbatim>\<open>as_needed\<close> that is a boolean, and no other key; the class is then the one of the tool.
\<close>

lemma dict_to_tool_req_accepts:
  "dict_to_tool_req path t raw = Inr r \<longleftrightarrow>
     (\<exists>mv an. dict_get raw (YStr ''min_version'') = Some (YStr mv) \<and>
        (dict_get raw (YStr ''as_needed'') = Some (YBool an) \<or>
         dict_get raw (YStr ''as_needed'') = None \<and> an = False) \<and>
        set (map fst raw) \<subseteq> {YStr ''min_version'', YStr ''as_needed''} \<and>
        r = \<lparr>tool = t, min_version = mv, optional = False, as_needed = an, tool_cls = class_of t\<rparr>)"
proof (cases "\<exists>mv. dict_get raw (YStr ''min_version'') = Some (YStr mv)")
  case True
  then obtain mv where mv: "dict_get raw (YStr ''min_version'') = Some (YStr mv)" by blast
  let ?raw1 = "dict_del (YStr ''min_version'') raw"
  have keys: "dict_get raw k = None \<longleftrightarrow> k \<notin> set (map fst raw)" for k
    using dict_has_get [of raw k] by (simp add: dict_has_def)
  consider "dict_get raw (YStr ''as_needed'') = None"
    | b where "dict_get raw (YStr ''as_needed'') = Some (YBool b)"
    | v where "dict_get raw (YStr ''as_needed'') = Some v" "\<nexists>b. v = YBool b"
    by (cases "dict_get raw (YStr ''as_needed'')") auto
  then show ?thesis
  proof cases
    case 1
    moreover from this have "?raw1 = [] \<longleftrightarrow> set (map fst raw) \<subseteq> {YStr ''min_version'', YStr ''as_needed''}"
      unfolding keys by (force simp: dict_del_Nil_iff)
    ultimately show ?thesis using mv
      by (auto simp: dict_to_tool_req_def new_req_def bind_res_Inr_iff Let_def)
  next
    case 2
    moreover have "dict_del (YStr ''as_needed'') ?raw1 = [] \<longleftrightarrow>
        set (map fst raw) \<subseteq> {YStr ''min_version'', YStr ''as_needed''}"
      by (auto simp: dict_del_def filter_empty_conv case_prod_unfold)
    ultimately show ?thesis using mv
      by (auto simp: dict_to_tool_req_def new_req_def bind_res_Inr_iff Let_def)
  next
    case 3
    then show ?thesis using mv by (cases v) (auto simp: dict_to_tool_req_def Let_def)
  qed
next
  case False
  then show ?thesis
    by (auto simp: dict_to_tool_req_def Let_def split: option.splits yval.splits)
qed

section \<open>The exit status\<close>

definition wanted :: "string list \<Rightarrow> string \<times> tool_req \<Rightarrow> bool" where
  "wanted args tr \<longleftrightarrow> \<not> as_needed (snd tr) \<or> fst tr \<in> set args"

definition good :: "(tool_req \<Rightarrow> (bool \<times> string) py_res) \<Rightarrow> tool_req \<Rightarrow> bool" where
  "good chk r = (case chk r of Inr (b, _) \<Rightarrow> b | Inl _ \<Rightarrow> False)"

lemma check_one_Inr:
  assumes "check_one chk (t, r) s = Inr s'"
  shows "set (pending_tools s') = set (pending_tools s) - {t}"
    and "missing_tools s' = [] \<longleftrightarrow> missing_tools s = [] \<and> (wanted (pending_tools s) (t, r) \<longrightarrow> good chk r)"
proof -
  have "set (pending_tools s') = set (pending_tools s) - {t} \<and> (missing_tools s' = [] \<longleftrightarrow>
      missing_tools s = [] \<and> (wanted (pending_tools s) (t, r) \<longrightarrow> good chk r))"
  proof (cases "as_needed r \<and> t \<notin> set (pending_tools s)")
    case True
    with assms show ?thesis by (auto simp: check_one_def wanted_def)
  next
    case False
    with assms obtain g msg where c: "chk r = Inr (g, msg)"
      by (auto simp: check_one_def bind_res_Inr_iff Let_def)
    with False assms show ?thesis
      by (cases g) (auto simp: check_one_def wanted_def good_def Let_def)
  qed
  then show "set (pending_tools s') = set (pending_tools s) - {t}"
    "missing_tools s' = [] \<longleftrightarrow> missing_tools s = [] \<and> (wanted (pending_tools s) (t, r) \<longrightarrow> good chk r)"
    by simp_all
qed

lemma fold_check:
  assumes "fold_res (check_one chk) reqs s = Inr s'" "distinct (map fst reqs)"
  shows "set (pending_tools s') = set (pending_tools s) - set (map fst reqs) \<and>
     (missing_tools s' = [] \<longleftrightarrow>
        missing_tools s = [] \<and> (\<forall>tr \<in> set reqs. wanted (pending_tools s) tr \<longrightarrow> good chk (snd tr)))"
  using assms
proof (induction reqs arbitrary: s)
  case (Cons tr reqs)
  obtain t r where tr: "tr = (t, r)" by (cases tr)
  from Cons.prems obtain s1 where s1: "check_one chk (t, r) s = Inr s1"
    "fold_res (check_one chk) reqs s1 = Inr s'" by (auto simp: tr bind_res_Inr_iff)
  note c = check_one_Inr [OF s1(1)]
  have w: "wanted (pending_tools s1) tr' = wanted (pending_tools s) tr'" if "tr' \<in> set reqs" for tr'
    using Cons.prems(2) that c(1) by (auto simp: wanted_def tr)
  from Cons.IH [OF s1(2)] Cons.prems(2) c w show ?case by (auto simp: tr)
qed simp

lemma fold_check_total:
  "(\<And>r. r \<in> snd ` set reqs \<Longrightarrow> \<exists>b. chk r = Inr b) \<Longrightarrow> \<exists>s'. fold_res (check_one chk) reqs s = Inr s'"
proof (induction reqs arbitrary: s)
  case (Cons tr reqs)
  obtain t r where tr: "tr = (t, r)" by (cases tr)
  have "\<exists>b. chk r = Inr b" using Cons.prems [of r] tr by simp
  then have "\<exists>s1. check_one chk tr s = Inr s1" by (auto simp: check_one_def tr Let_def)
  with Cons show ?case by auto
qed simp

text \<open>
  C22. The program succeeds exactly when it should: provided that no check raises, the exit status is
  0 if and only if every requirement that is not optional or was asked for is met and every tool
  named on the command line appears in the requirements file. It always returns a status.
\<close>

theorem check_main_status:
  assumes "dict_ok reqs" "\<And>r. r \<in> snd ` set reqs \<Longrightarrow> \<exists>b. chk r = Inr b"
  shows "\<exists>status log. check_main (Inr reqs) chk args = Inr (status, log) \<and>
     (status = 0 \<longleftrightarrow> list_all (\<lambda>tr. wanted args tr \<longrightarrow> good chk (snd tr)) reqs \<and>
                     list_all (dict_has reqs) args) \<and>
     (status = 0 \<or> status = 1)"
proof -
  obtain s where s: "fold_res (check_one chk) reqs
      \<lparr>pending_tools = args, missing_tools = [], messages = []\<rparr> = Inr s"
    using fold_check_total [of reqs chk, OF assms(2)] by blast
  from fold_check [OF this] assms(1)
  have p: "pending_tools s = [] \<longleftrightarrow> list_all (dict_has reqs) args"
    and m: "missing_tools s = [] \<longleftrightarrow> list_all (\<lambda>tr. wanted args tr \<longrightarrow> good chk (snd tr)) reqs"
    by (auto simp: dict_ok_def dict_has_def list_all_iff set_empty [symmetric] simp del: set_empty)
  from s p m show ?thesis by (auto simp: check_main_def finish_def Let_def)
qed

lemma shipped_requirements:
  "read_reqs path TOOL_REQUIREMENTS [] =
     Inr [(''verilator'', new_req VerilatorToolReq ''verilator'' ''4.028''),
          (''edalize'', new_req PyModuleToolReq ''edalize'' ''0.2.0''),
          (''vcs'', (new_req VcsToolReq ''vcs'' ''2020.03-SP2'')\<lparr>as_needed := True\<rparr>),
          (''vivado'', (new_req ToolReq ''vivado'' ''2020.2'')\<lparr>as_needed := True\<rparr>)]"
  by (simp add: TOOL_REQUIREMENTS_def dict_to_tool_req_def class_of_def new_req_def dict_del_def Let_def)

text \<open>With every installed tool recent enough, the shipped requirements are met; vcs is asked for.\<close>

theorem check_main_status_witness:
  "\<exists>reqs status log. read_reqs [] TOOL_REQUIREMENTS [] = Inr reqs \<and>
     check_main (Inr reqs) (\<lambda>r. Inr (True, [])) [''vcs''] = Inr (status, log) \<and> status = 0"
proof -
  let ?chk = "\<lambda>r. Inr (True, []) :: (bool \<times> string) py_res"
  obtain reqs where r: "read_reqs [] TOOL_REQUIREMENTS [] = Inr reqs" "dict_ok reqs" "dict_has reqs ''vcs''"
    using shipped_requirements [of "[]"] by (auto simp: dict_ok_def)
  have "\<exists>status log. check_main (Inr reqs) ?chk [''vcs''] = Inr (status, log) \<and>
     (status = 0 \<longleftrightarrow> list_all (\<lambda>tr. wanted [''vcs''] tr \<longrightarrow> good ?chk (snd tr)) reqs \<and>
                     list_all (dict_has reqs) [''vcs'']) \<and> (status = 0 \<or> status = 1)"
    by (rule check_main_status) (use r in auto)
  with r show ?thesis by (auto simp: good_def list_all_iff)
qed

section \<open>When a tool is good\<close>

lemma on_value_error_True:
  "on_value_error msg m k = Inr (True, t) \<longleftrightarrow> (\<exists>x. m = Inr x \<and> k x = Inr (True, t))"
proof (cases m)
  case (Inl e)
  then show ?thesis by (cases e) (simp_all add: on_value_error_def)
qed (simp add: on_value_error_def)

lemma on_runtime_error_True:
  "on_runtime_error m k = Inr (True, t) \<longleftrightarrow> (\<exists>x. m = Inr x \<and> k x = Inr (True, t))"
proof (cases m)
  case (Inl e)
  then show ?thesis by (cases e) (simp_all add: on_runtime_error_def)
qed (simp add: on_runtime_error_def)

lemma version_of_Inr: "version_of ver s = Inr v \<longleftrightarrow> ver s = Inr v"
  by (auto simp: version_of_def split: sum.splits)

text \<open>
  A tool counts as good exactly when both versions can be normalised and parsed and the
  installed one is not older than the required one; the message then names both as they were given.
\<close>

lemma check_req_good:
  "check_req getv ver ver_lt r = Inr (True, msg) \<longleftrightarrow>
     (\<exists>min_s min_v actual actual_s actual_v.
        to_semver r (min_version r) True = Inr min_s \<and> ver min_s = Inr min_v \<and>
        getv r = Inr actual \<and> to_semver r actual False = Inr actual_s \<and> ver actual_s = Inr actual_v \<and>
        \<not> ver_lt actual_v min_v \<and>
        msg = ''Sufficiently recent version (found '' @ actual @ ''; needed '' @ min_version r @ '')'')"
  unfolding check_req_def on_value_error_True on_runtime_error_True version_of_Inr
  by (auto split: if_splits)

section \<open>Which exceptions leave \<^verbatim>\<open>get_version\<close>\<close>

lemma first_version_raises: "first_version re ls = Inl e \<Longrightarrow> \<exists>m. e = ValueError m"
  by (induction re ls rule: first_version.induct) (auto split: option.splits)

lemma base_get_version_raises: "base_get_version run r = Inl e \<Longrightarrow> \<exists>m. e = RuntimeError m"
  by (auto simp: base_get_version_def parse_version_output_def Let_def
      split: proc_result.splits if_splits sum.splits py_exn.splits option.splits dest: first_version_raises)



section \<open>Normalised versions\<close>

definition all_digits :: "string \<Rightarrow> bool" where
  "all_digits s \<longleftrightarrow> s \<noteq> [] \<and> list_all is_digit s"

definition all_lhex :: "string \<Rightarrow> bool" where
  "all_lhex s \<longleftrightarrow> s \<noteq> [] \<and> list_all (\<lambda>c. is_digit c \<or> 97 \<le> code c \<and> code c \<le> 102) s"

lemma digc_class: "in_class False [CRange (CHR ''0'') (CHR ''9'')] c \<longleftrightarrow> is_digit c"
  by (simp add: in_class_def is_digit_def code_def Let_def)

lemma lhexc_class:
  "in_class False [CRange (CHR ''0'') (CHR ''9''), CRange (CHR ''a'') (CHR ''f'')] c \<longleftrightarrow>
     is_digit c \<or> 97 \<le> code c \<and> code c \<le> 102"
  by (simp add: in_class_def is_digit_def code_def Let_def)

lemma not_digit: "\<not> is_digit (CHR ''.'')" "\<not> is_digit (CHR ''-'')"
  by code_simp+

text \<open>
  A Verible version \<^verbatim>\<open>v<a>.<b>-<c>-g<hash>\<close> is normalised to \<^verbatim>\<open><a>.<b>.<c>\<close>, whatever the numbers and
  the hash are.
\<close>

lemma verible_semver:
  assumes "all_digits a" "all_digits b" "all_digits c" "all_lhex h"
  shows "verible_to_semver (''v'' @ a @ ''.'' @ b @ ''-'' @ c @ ''-g'' @ h) = Inr (a @ ''.'' @ b @ ''.'' @ c)"
proof -
  let ?s = "''v'' @ a @ ''.'' @ b @ ''-'' @ c @ ''-g'' @ h"
  let ?fin = "\<lparr>behind = rev ?s, ahead = [], caps = [(3, c), (2, b), (1, a)]\<rparr>"
  have d: "w \<noteq> [] \<and> (\<forall>x \<in> set w. in_class False [CRange (CHR ''0'') (CHR ''9'')] x)" if "all_digits w" for w
    using that by (auto simp: all_digits_def digc_class list_all_iff)
  note da = d [OF assms(1)] and db = d [OF assms(2)] and dc = d [OF assms(3)]
  have dh: "h \<noteq> []" "\<forall>x \<in> set h. in_class False [CRange (CHR ''0'') (CHR ''9''), CRange (CHR ''a'') (CHR ''f'')] x"
    using assms(4) by (auto simp: all_lhex_def lhexc_class list_all_iff)
  have "re_fullmatch verible_regex ?s = Some ?fin"
    unfolding re_fullmatch_def verible_regex_def digc_def lhexc_def rmatch_rseq_Cons rmatch_rlit rmatch_rstr
    by (simp add: start_at_def eat_def del: rmatch.simps,
        rule rmatch_group_plus [where w = a and rest = "''.'' @ b @ ''-'' @ c @ ''-g'' @ h"],
        use da in \<open>simp_all add: digc_class not_digit eat_def del: rmatch.simps\<close>,
        rule rmatch_group_plus [where w = b and rest = "''-'' @ c @ ''-g'' @ h"],
        use db in \<open>simp_all add: digc_class not_digit eat_def del: rmatch.simps\<close>,
        rule rmatch_group_plus [where w = c and rest = "''-g'' @ h"],
        use dc in \<open>simp_all add: digc_class not_digit eat_def del: rmatch.simps\<close>,
        rule rmatch_plus_class [where w = h and rest = "[]"],
        use dh in \<open>simp_all add: eat_def\<close>)
  then show ?thesis by (simp add: verible_to_semver_def grp_def group_def)
qed

text \<open>
  What the check relies on in the class \<^verbatim>\<open>Version\<close>: two releases of the form \<^verbatim>\<open><a>.<b>\<close> are parsed
  and ordered by the numbers, the first one first.
\<close>

definition release_order :: "(string \<Rightarrow> string + 'v) \<Rightarrow> ('v \<Rightarrow> 'v \<Rightarrow> bool) \<Rightarrow> bool" where
  "release_order ver ver_lt \<longleftrightarrow>
     (\<forall>a b c d. all_digits a \<and> all_digits b \<and> all_digits c \<and> all_digits d \<longrightarrow>
        (\<exists>v w. ver (a @ ''.'' @ b) = Inr v \<and> ver (c @ ''.'' @ d) = Inr w \<and>
           (ver_lt v w \<longleftrightarrow>
              py_int 10 a \<noteq> py_int 10 c \<and> the (py_int 10 a) < the (py_int 10 c) \<or>
              py_int 10 a = py_int 10 c \<and> the (py_int 10 b) < the (py_int 10 d))))"

lemma vcs_semvers:
  "vcs_to_semver ''2020.03-SP2'' True = Inr ''2020.03200''"
  "vcs_to_semver ''2020.12'' False = Inr ''2020.120''"
  by code_simp+

text \<open>
  C40. A VCS release can be rejected as too old although it is newer: the service pack is appended to
  the month without a separator, so that \<^verbatim>\<open>2020.03-SP2\<close>, the required version, becomes
  \<^verbatim>\<open>2020.03200\<close>, and \<^verbatim>\<open>2020.12\<close>, nine months later, becomes \<^verbatim>\<open>2020.120\<close>.
\<close>

theorem vcs_newer_rejected:
  assumes "release_order ver ver_lt" "tool_cls r = VcsToolReq" "min_version r = ''2020.03-SP2''"
    "getv r = Inr ''2020.12''"
  shows "check_req getv ver ver_lt r =
     Inr (False, ''Installed version is too old: found version 2020.12, but need at least 2020.03-SP2'')"
proof -
  have d: "all_digits ''2020''" "all_digits ''03200''" "all_digits ''120''" by code_simp+
  have n: "py_int 10 ''03200'' = Some 3200" "py_int 10 ''120'' = Some 120" by code_simp+
  from assms(1) d have "\<exists>v w. ver (''2020'' @ ''.'' @ ''120'') = Inr v \<and>
      ver (''2020'' @ ''.'' @ ''03200'') = Inr w \<and> (ver_lt v w \<longleftrightarrow> the (py_int 10 ''120'') < the (py_int 10 ''03200''))"
    unfolding release_order_def by blast
  then obtain v w where "ver ''2020.120'' = Inr v" "ver ''2020.03200'' = Inr w" "ver_lt v w"
    by (auto simp: n)
  then show ?thesis using assms(2-4)
    by (simp add: check_req_def on_value_error_def on_runtime_error_def version_of_def to_semver_def vcs_semvers)
qed

text \<open>A version class that orders releases of two numbers.\<close>

definition ver2 :: "string \<Rightarrow> string + int \<times> int" where
  "ver2 s =
     (case split_char (CHR ''.'') s of
        [a, b] \<Rightarrow>
          (case (py_int 10 a, py_int 10 b) of (Some i, Some j) \<Rightarrow> Inr (i, j) | _ \<Rightarrow> Inl ''Invalid version'')
      | _ \<Rightarrow> Inl ''Invalid version'')"

definition ver2_lt :: "int \<times> int \<Rightarrow> int \<times> int \<Rightarrow> bool" where
  "ver2_lt v w \<longleftrightarrow> fst v < fst w \<or> fst v = fst w \<and> snd v < snd w"

lemma digits_int: "all_digits s \<Longrightarrow> \<exists>i. py_int 10 s = Some i"
proof -
  assume a: "all_digits s"
  have c: "code c \<in> {48..57}" if "c \<in> set s" for c
    using a that by (auto simp: all_digits_def list_all_iff is_digit_def Let_def)
  have "\<exists>n. parse_digits 10 p acc s = Some n" if "p \<or> s \<noteq> []" "\<forall>c \<in> set s. code c \<in> {48..57}" for p acc s
    using that
  proof (induction s arbitrary: p acc)
    case (Cons x xs)
    then have "x \<noteq> CHR ''_''" "\<exists>d < 10. digit_val x = Some d"
      by (auto simp: digit_val_def code_def Let_def)
    with Cons show ?case by auto
  qed simp
  from this [of False s 0] a c obtain n where n: "parse_digits 10 False 0 s = Some n"
    by (auto simp: all_digits_def)
  obtain x xs where x: "s = x # xs" using a by (cases s) (auto simp: all_digits_def)
  have "strip s = s" by (rule strip_of_none) (use c in \<open>fastforce simp: is_space_def Let_def\<close>)
  moreover have "x \<noteq> CHR ''-''" "x \<noteq> CHR ''+''" using c [of x] x by (auto simp: code_def)
  ultimately show ?thesis using n x by (simp add: py_int_def parse_numeral_def)
qed

lemma release_order_ver2: "release_order ver2 ver2_lt"
  unfolding release_order_def
proof (intro allI impI)
  fix a b c d
  assume "all_digits a \<and> all_digits b \<and> all_digits c \<and> all_digits d"
  then obtain i j k l where n: "py_int 10 a = Some i" "py_int 10 b = Some j" "py_int 10 c = Some k"
    "py_int 10 d = Some l" and nd: "CHR ''.'' \<notin> set a" "CHR ''.'' \<notin> set b" "CHR ''.'' \<notin> set c" "CHR ''.'' \<notin> set d"
    using digits_int not_digit(1) by (auto simp: all_digits_def list_all_iff) metis
  have "split_char (CHR ''.'') (a @ ''.'' @ b) = [a, b]" "split_char (CHR ''.'') (c @ ''.'' @ d) = [c, d]"
    using nd by (simp_all add: split_char_append split_char_none)
  then show "\<exists>v w. ver2 (a @ ''.'' @ b) = Inr v \<and> ver2 (c @ ''.'' @ d) = Inr w \<and>
      (ver2_lt v w \<longleftrightarrow>
         py_int 10 a \<noteq> py_int 10 c \<and> the (py_int 10 a) < the (py_int 10 c) \<or>
         py_int 10 a = py_int 10 c \<and> the (py_int 10 b) < the (py_int 10 d))"
    using n by (auto simp: ver2_def ver2_lt_def)
qed

theorem vcs_newer_rejected_witness:
  "check_req (\<lambda>r. Inr ''2020.12'') ver2 ver2_lt (new_req VcsToolReq ''vcs'' ''2020.03-SP2'') =
     Inr (False, ''Installed version is too old: found version 2020.12, but need at least 2020.03-SP2'')"
  by (rule vcs_newer_rejected [OF release_order_ver2]) (simp_all add: new_req_def)

end
