(* ===== verification/Import_Path.thy ===== *)
theory Import_Path
  imports Py_Shell
begin

text \<open>
  How the programs under \<^verbatim>\<open>dv/uvm/core_ibex\<close> and the documentation configuration find the modules they
  import: each extends \<^verbatim>\<open>sys.path\<close> for a group of imports and puts the old value back afterwards.

  \<^verbatim>\<open>sys.path\<close> is a name bound to a list object, so the model has a store of list objects: binding the
  name to a new list leaves the old object alone, inserting into the list does not. A module that is
  not in this development runs as a parameter of the world; what it may do is limited by \<open>frames\<close>.
  The lemmas show which preambles restore the search path, an exception in the middle included, and
  which do not, and which file an import resolves to.
\<close>

section \<open>Normalised paths\<close>

text \<open>\<^verbatim>\<open>os.path.normpath\<close>, on the components that were kept so far (in reverse).\<close>

fun norm_comps :: "bool \<Rightarrow> string list \<Rightarrow> string list \<Rightarrow> string list" where
  "norm_comps rooted kept [] = rev kept"
| "norm_comps rooted kept (c # cs) =
     (if c = [] \<or> c = ''.'' then norm_comps rooted kept cs
      else if c \<noteq> ''..'' then norm_comps rooted (c # kept) cs
      else case kept of
             [] \<Rightarrow> norm_comps rooted (if rooted then [] else [c]) cs
           | k # ks \<Rightarrow> norm_comps rooted (if k = ''..'' then c # kept else ks) cs)"

definition slashes :: "string \<Rightarrow> nat" where
  "slashes p =
     (if take 2 p = ''//'' \<and> take 3 p \<noteq> ''///'' then 2 else if take 1 p = ''/'' then 1 else 0)"

definition normpath :: "string \<Rightarrow> string" where
  "normpath p =
     (let n = slashes p;
          r = replicate n (CHR ''/'') @ py_join ''/'' (norm_comps (n \<noteq> 0) [] (split_char (CHR ''/'') p))
      in if r = [] then ''.'' else r)"

section \<open>The interpreter's state\<close>

record pyst =
  lists :: "nat \<Rightarrow> string list"
  free :: nat
  path_addr :: nat
  modules :: "(string \<times> string) list"

type_synonym import_result = "py_exn option \<times> pyst"
type_synonym stmt = "pyst \<Rightarrow> import_result"

definition sys_path :: "pyst \<Rightarrow> string list" where
  "sys_path s = lists s (path_addr s)"

definition put_list :: "nat \<Rightarrow> string list \<Rightarrow> pyst \<Rightarrow> pyst" where
  "put_list a xs s = s\<lparr>lists := (lists s)(a := xs)\<rparr>"

text \<open>\<^verbatim>\<open>sys.path = dirs + sys.path\<close>: a new object.\<close>

definition rebind_path :: "string list \<Rightarrow> pyst \<Rightarrow> pyst" where
  "rebind_path dirs s = (put_list (free s) (dirs @ sys_path s) s)\<lparr>free := free s + 1, path_addr := free s\<rparr>"

text \<open>\<^verbatim>\<open>sys.path.insert(0, d)\<close> and \<^verbatim>\<open>sys.path.append(d)\<close>: the same object.\<close>

definition insert_path :: "string \<Rightarrow> pyst \<Rightarrow> pyst" where
  "insert_path d s = put_list (path_addr s) (d # sys_path s) s"

definition append_path :: "string \<Rightarrow> pyst \<Rightarrow> pyst" where
  "append_path d s = put_list (path_addr s) (sys_path s @ [d]) s"

definition and_then :: "stmt \<Rightarrow> stmt \<Rightarrow> stmt" where
  "and_then f g s = (case f s of (None, t) \<Rightarrow> g t | (Some e, t) \<Rightarrow> (Some e, t))"

text \<open>\<^verbatim>\<open>old = sys.path; try: change; body; finally: sys.path = old\<close>\<close>

definition saving_path :: "(pyst \<Rightarrow> pyst) \<Rightarrow> stmt \<Rightarrow> stmt" where
  "saving_path change body s =
     (let old = path_addr s in case body (change s) of (r, t) \<Rightarrow> (r, t\<lparr>path_addr := old\<rparr>))"

section \<open>Imports\<close>

text \<open>
  The world outside: which files exist, what running a file as a module does, and the names it
  defines.
\<close>

record world =
  exists_file :: "string \<Rightarrow> bool"
  run_file :: "string \<Rightarrow> stmt"
  names_of :: "string \<Rightarrow> string list"

fun find_module :: "(string \<Rightarrow> bool) \<Rightarrow> string list \<Rightarrow> string \<Rightarrow> string option" where
  "find_module ex [] m = None"
| "find_module ex (d # ds) m =
     (if ex (path_join d (m @ ''.py'')) then Some (path_join d (m @ ''.py'')) else find_module ex ds m)"

text \<open>A module is entered in \<^verbatim>\<open>sys.modules\<close> before it runs, and taken out again when it raises.\<close>

definition import_module :: "world \<Rightarrow> string \<Rightarrow> stmt" where
  "import_module w m s =
     (if m \<in> set (map fst (modules s)) then (None, s)
      else case find_module (exists_file w) (sys_path s) m of
             None \<Rightarrow> (Some (ImportError m), s)
           | Some f \<Rightarrow>
               (case run_file w f (s\<lparr>modules := (m, f) # modules s\<rparr>) of
                  (None, t) \<Rightarrow> (None, t)
                | (Some e, t) \<Rightarrow> (Some e, t\<lparr>modules := filter (\<lambda>mf. fst mf \<noteq> m) (modules t)\<rparr>)))"

definition import_from :: "world \<Rightarrow> string \<Rightarrow> string list \<Rightarrow> stmt" where
  "import_from w m ns =
     and_then (import_module w m)
       (\<lambda>s. case map_of (modules s) m of
              None \<Rightarrow> (Some (KeyError m), s)
            | Some f \<Rightarrow> (case filter (\<lambda>n. n \<notin> set (names_of w f)) ns of
                          [] \<Rightarrow> (None, s)
                        | n # _ \<Rightarrow> (Some (ImportError n), s)))"

section \<open>The preambles\<close>

definition core_ibex :: "string \<Rightarrow> string" where
  "core_ibex file = normpath (dirname file)"

definition ibex_root :: "string \<Rightarrow> string" where
  "ibex_root file = normpath (path_join (core_ibex file) ''../../..'')"

definition riscv_dv_root :: "string \<Rightarrow> string" where
  "riscv_dv_root file = path_join (ibex_root file) ''vendor/google_riscv-dv''"

definition dv_extension :: "string \<Rightarrow> string" where
  "dv_extension file = path_join (core_ibex file) ''riscv_dv_extension''"

definition dv_scripts :: "string \<Rightarrow> string" where
  "dv_scripts file = path_join (riscv_dv_root file) ''scripts''"

definition ibex_util :: "string \<Rightarrow> string" where
  "ibex_util file = path_join (ibex_root file) ''util''"

definition test_entry_imports :: "world \<Rightarrow> string \<Rightarrow> stmt" where
  "test_entry_imports w file =
     saving_path (rebind_path [dv_extension file, dv_scripts file])
       (import_from w ''lib'' [''process_regression_list''])"

definition sim_cmd_imports :: "world \<Rightarrow> string \<Rightarrow> stmt" where
  "sim_cmd_imports w file =
     saving_path (rebind_path [dv_scripts file]) (import_from w ''lib'' [''read_yaml''])"

definition sim_imports :: "world \<Rightarrow> string \<Rightarrow> stmt" where
  "sim_imports w file =
     and_then (import_from w ''sim_cmd'' [''get_simulator_cmd''])
       (saving_path (rebind_path [dv_extension file, ibex_util file, dv_scripts file])
          (import_from w ''lib'' [''run_cmd'', ''setup_logging'', ''RET_SUCCESS'', ''RET_FAIL'']))"

definition list_tests_imports :: "world \<Rightarrow> string \<Rightarrow> stmt" where
  "list_tests_imports w file =
     saving_path (rebind_path [dv_extension file, ibex_util file, dv_scripts file])
       (and_then (import_from w ''lib'' [''process_regression_list''])
          (import_from w ''ibex_config'' [''parse_config'']))"

definition compare_imports :: "world \<Rightarrow> string \<Rightarrow> stmt" where
  "compare_imports w file =
     and_then (import_from w ''test_entry'' [''TestEntry'', ''get_test_entry''])
     (and_then (import_from w ''test_run_result'' [''TestRunResult''])
     (saving_path (rebind_path [dv_extension file, dv_scripts file])
       (and_then (import_from w ''spike_log_to_trace_csv'' [''process_spike_sim_log''])
       (and_then (import_from w ''ovpsim_log_to_trace_csv'' [''process_ovpsim_sim_log''])
       (and_then (import_from w ''instr_trace_compare'' [''compare_trace_csv''])
          (import_from w ''ibex_log_to_trace_csv'' [''process_ibex_sim_log'', ''check_ibex_uvm_log'']))))))"

text \<open>These two change the list itself; the \<^verbatim>\<open>finally\<close> only binds the name to the same list again.\<close>

definition ibex_log_scripts :: "string \<Rightarrow> string" where
  "ibex_log_scripts file =
     path_join (normpath (path_join (dirname file) ''../../../..'')) ''vendor/google_riscv-dv/scripts''"

definition ibex_log_imports :: "world \<Rightarrow> string \<Rightarrow> stmt" where
  "ibex_log_imports w file =
     saving_path (insert_path (ibex_log_scripts file))
       (and_then (import_from w ''riscv_trace_csv''
          [''RiscvInstructionTraceCsv'', ''RiscvInstructionTraceEntry'', ''get_imm_hex_val''])
       (and_then (import_from w ''lib'' [''RET_FATAL'', ''gpr_to_abi'', ''sint_to_hex'', ''convert_pseudo_instr''])
          (import_module w ''logging'')))"

definition topsrcdir :: "string \<Rightarrow> string" where
  "topsrcdir file = path_join (dirname file) ''..''"

definition doc_conf_imports :: "world \<Rightarrow> string \<Rightarrow> stmt" where
  "doc_conf_imports w file =
     saving_path (append_path (path_join (topsrcdir file) ''util''))
       (import_module w ''check_tool_requirements'')"

text \<open>The repository's own modules run their preambles when they are imported.\<close>

definition with_repo :: "string \<Rightarrow> world \<Rightarrow> world" where
  "with_repo core w =
     w\<lparr>run_file := (\<lambda>f.
         if f = path_join core ''test_entry.py'' then test_entry_imports w f
         else if f = path_join core ''sim_cmd.py'' then sim_cmd_imports w f
         else if f = path_join core ''riscv_dv_extension/ibex_log_to_trace_csv.py'' then ibex_log_imports w f
         else run_file w f)\<rparr>"

section \<open>What code may do to the search path\<close>

text \<open>
  A module may change the list that \<^verbatim>\<open>sys.path\<close> is bound to when it runs (the scripts of riscv-dv insert
  their own directory) and create lists; it leaves the binding and every other list alone.
\<close>

definition frame :: "pyst \<Rightarrow> pyst \<Rightarrow> bool" where
  "frame s t \<longleftrightarrow> path_addr t = path_addr s \<and> free s \<le> free t \<and>
     (\<forall>a. a < free s \<and> a \<noteq> path_addr s \<longrightarrow> lists t a = lists s a)"

definition frames :: "stmt \<Rightarrow> bool" where
  "frames f \<longleftrightarrow> (\<forall>s. path_addr s < free s \<longrightarrow> frame s (snd (f s)))"

text \<open>A module that leaves the search path as it was.\<close>

definition restores :: "stmt \<Rightarrow> bool" where
  "restores f \<longleftrightarrow> frames f \<and> (\<forall>s. path_addr s < free s \<longrightarrow> sys_path (snd (f s)) = sys_path s)"

lemma frame_refl [simp]: "frame s s"
  by (simp add: frame_def)

lemma frame_trans: "frame s t \<Longrightarrow> frame t u \<Longrightarrow> frame s u"
  by (auto simp: frame_def)

lemma frame_modules [simp]:
  "frame (s\<lparr>modules := ms\<rparr>) t = frame s t" "frame s (t\<lparr>modules := ms\<rparr>) = frame s t"
  by (simp_all add: frame_def)

lemma sys_path_modules [simp]: "sys_path (s\<lparr>modules := ms\<rparr>) = sys_path s"
  by (simp add: sys_path_def)

lemma framesD: "frames f \<Longrightarrow> path_addr s < free s \<Longrightarrow> f s = (r, t) \<Longrightarrow> frame s t \<and> path_addr t < free t"
  by (fastforce simp: frames_def frame_def)

lemma restoresD:
  "restores f \<Longrightarrow> path_addr s < free s \<Longrightarrow> f s = (r, t) \<Longrightarrow>
     frame s t \<and> path_addr t < free t \<and> sys_path t = sys_path s"
  using framesD by (fastforce simp: restores_def)

lemma framesI:
  "(\<And>s r t. path_addr s < free s \<Longrightarrow> f s = (r, t) \<Longrightarrow> frame s t) \<Longrightarrow> frames f"
  by (metis frames_def prod.collapse)

lemma restoresI:
  "frames f \<Longrightarrow> (\<And>s r t. path_addr s < free s \<Longrightarrow> f s = (r, t) \<Longrightarrow> sys_path t = sys_path s) \<Longrightarrow> restores f"
  by (metis restores_def prod.collapse)

lemma restores_skip: "restores (\<lambda>s. (None, s))"
  by (rule restoresI, rule framesI) auto

lemma frames_and_then: "frames f \<Longrightarrow> frames g \<Longrightarrow> frames (and_then f g)"
  by (rule framesI) (auto simp: and_then_def split: prod.splits option.splits dest: framesD intro: frame_trans)

lemma restores_and_then:
  assumes "restores f" "restores g"
  shows "restores (and_then f g)"
proof (rule restoresI)
  show "frames (and_then f g)" using assms by (simp add: restores_def frames_and_then)
  fix s r t assume s: "path_addr s < free s" "and_then f g s = (r, t)"
  obtain r' u where u: "f s = (r', u)" by fastforce
  from restoresD [OF assms(1) s(1) u] restoresD [OF assms(2)] s(2) u
  show "sys_path t = sys_path s" by (auto simp: and_then_def split: option.splits)
qed

text \<open>Rebinding protects the old list from everything the imports do; inserting into it does not.\<close>

lemma rebind_simps [simp]:
  "path_addr (rebind_path ds s) = free s" "free (rebind_path ds s) = Suc (free s)"
  "sys_path (rebind_path ds s) = ds @ sys_path s"
  "a < free s \<Longrightarrow> lists (rebind_path ds s) a = lists s a"
  by (simp_all add: rebind_path_def put_list_def sys_path_def)

lemma insert_simps [simp]:
  "path_addr (insert_path d s) = path_addr s" "free (insert_path d s) = free s"
  "sys_path (insert_path d s) = d # sys_path s"
  "path_addr (append_path d s) = path_addr s" "free (append_path d s) = free s"
  "sys_path (append_path d s) = sys_path s @ [d]"
  "frame s (insert_path d s)" "frame s (append_path d s)"
  by (simp_all add: insert_path_def append_path_def put_list_def sys_path_def frame_def)

lemma restores_rebind:
  assumes "frames body"
  shows "restores (saving_path (rebind_path ds) body)"
proof -
  have k: "frame s t \<and> sys_path t = sys_path s"
    if s: "path_addr s < free s" and e: "saving_path (rebind_path ds) body s = (r, t)" for s r t
  proof -
    obtain r' u where u: "body (rebind_path ds s) = (r', u)" by fastforce
    with e have t: "t = u\<lparr>path_addr := path_addr s\<rparr>" by (simp add: saving_path_def)
    have "frame (rebind_path ds s) u" using framesD [OF assms _ u] by simp
    then have "free s \<le> free u" "a < free s \<Longrightarrow> lists u a = lists s a" for a
      by (auto simp: frame_def)
    with s t show ?thesis by (simp add: frame_def sys_path_def)
  qed
  then show ?thesis by (blast intro: restoresI framesI)
qed

lemma saving_unchanged:
  assumes "frames body" "path_addr s < free s" "frame s (change s)" "path_addr (change s) < free (change s)"
  shows "saving_path change body s = (r, t) \<longleftrightarrow> body (change s) = (r, t)"
proof -
  obtain r' u where u: "body (change s) = (r', u)" by fastforce
  have "frame s u" using framesD [OF assms(1,4) u] assms(3) by (blast intro: frame_trans)
  then have "u\<lparr>path_addr := path_addr s\<rparr> = u" by (simp add: frame_def)
  with u show ?thesis by (simp add: saving_path_def)
qed

section \<open>What an import does\<close>

abbreviation tame :: "world \<Rightarrow> bool" where "tame w \<equiv> \<forall>f. frames (run_file w f)"

lemma frame_import:
  assumes "path_addr s < free s" "import_module w m s = (r, t)" "tame w"
  shows "frame s t"
proof (cases "m \<in> set (map fst (modules s)) \<or> find_module (exists_file w) (sys_path s) m = None")
  case False
  then obtain f where f: "find_module (exists_file w) (sys_path s) m = Some f" by auto
  let ?s = "s\<lparr>modules := (m, f) # modules s\<rparr>"
  obtain e u where u: "run_file w f ?s = (e, u)" by fastforce
  with f False assms(2) have "t = u \<or> t = u\<lparr>modules := filter (\<lambda>mf. fst mf \<noteq> m) (modules u)\<rparr>"
    by (auto simp: import_module_def split: option.splits)
  with framesD [OF spec [OF assms(3)] _ u] assms(1) show ?thesis by auto
qed (use assms(2) in \<open>auto simp: import_module_def split: if_splits\<close>)

lemma frames_import_module: "tame w \<Longrightarrow> frames (import_module w m)"
  by (rule framesI) (rule frame_import)

lemma restores_names:
  "restores (\<lambda>s. case map_of (modules s) m of
     None \<Rightarrow> (Some (KeyError m), s)
   | Some f \<Rightarrow> (case filter (\<lambda>n. n \<notin> set (names_of w f)) ns of
                 [] \<Rightarrow> (None, s) | n # _ \<Rightarrow> (Some (ImportError n), s)))"
  by (rule restoresI, rule framesI) (auto split: option.splits list.splits)

lemma frames_import: "tame w \<Longrightarrow> frames (import_from w m ns)"
  using restores_names unfolding import_from_def restores_def
  by (intro frames_and_then frames_import_module) blast+

lemma restoring_import:
  assumes "path_addr s < free s" "import_from w m ns s = (r, t)"
    "find_module (exists_file w) (sys_path s) m = Some f" "restores (run_file w f)"
  shows "frame s t \<and> sys_path t = sys_path s"
proof -
  obtain e u where u: "import_module w m s = (e, u)" by fastforce
  with assms(2) have t: "t = u"
    by (auto simp: import_from_def and_then_def split: option.splits list.splits)
  show ?thesis
  proof (cases "m \<in> set (map fst (modules s))")
    case True
    with u t show ?thesis by (simp add: import_module_def)
  next
    case False
    let ?s = "s\<lparr>modules := (m, f) # modules s\<rparr>"
    obtain e' v where v: "run_file w f ?s = (e', v)" by fastforce
    with False u assms(3) have "u = v \<or> u = v\<lparr>modules := filter (\<lambda>mf. fst mf \<noteq> m) (modules v)\<rparr>"
      by (auto simp: import_module_def split: option.splits)
    with restoresD [OF assms(4) _ v] assms(1) t show ?thesis by auto
  qed
qed

lemma restores_import:
  assumes "\<forall>f. restores (run_file w f)"
  shows "restores (import_from w m ns)" "restores (import_module w m)"
proof -
  have k: "frame s t \<and> sys_path t = sys_path s"
    if s: "path_addr s < free s" and e: "import_module w m s = (r, t)" for s r t
  proof (cases "find_module (exists_file w) (sys_path s) m")
    case None
    with e show ?thesis by (auto simp: import_module_def split: if_splits)
  next
    case (Some f)
    have "import_from w m [] s = (case (r, t) of (None, t) \<Rightarrow>
        (case map_of (modules t) m of None \<Rightarrow> (Some (KeyError m), t) | Some f \<Rightarrow> (None, t)) | (Some e, t) \<Rightarrow> (Some e, t))"
      using e by (simp add: import_from_def and_then_def split: option.split)
    then obtain r' where "import_from w m [] s = (r', t)"
      by (cases r; cases "map_of (modules t) m") auto
    from restoring_import [OF s this Some] assms show ?thesis by blast
  qed
  then show m: "restores (import_module w m)" by (blast intro: restoresI framesI)
  show "restores (import_from w m ns)" unfolding import_from_def
    by (rule restores_and_then [OF m restores_names])
qed

text \<open>The preambles that rebind restore the path in every world of tame modules.\<close>

lemma preambles_restore:
  assumes "tame w"
  shows "restores (test_entry_imports w file)" "restores (sim_cmd_imports w file)"
    "restores (list_tests_imports w file)"
  unfolding test_entry_imports_def sim_cmd_imports_def list_tests_imports_def
  by (intro restores_rebind frames_and_then frames_import assms)+

lemma ibex_log_frames:
  assumes "tame w"
  shows "frames (ibex_log_imports w file)"
proof (rule framesI)
  fix s r t assume s: "path_addr s < free s" "ibex_log_imports w file s = (r, t)"
  let ?body = "and_then (import_from w ''riscv_trace_csv''
      [''RiscvInstructionTraceCsv'', ''RiscvInstructionTraceEntry'', ''get_imm_hex_val''])
    (and_then (import_from w ''lib'' [''RET_FATAL'', ''gpr_to_abi'', ''sint_to_hex'', ''convert_pseudo_instr''])
       (import_module w ''logging''))"
  have b: "frames ?body" by (intro frames_and_then frames_import frames_import_module assms)
  have "?body (insert_path (ibex_log_scripts file) s) = (r, t)"
    using s saving_unchanged [OF b, of s "insert_path (ibex_log_scripts file)"]
    by (simp add: ibex_log_imports_def)
  from framesD [OF b _ this] s(1) show "frame s t" by (auto intro: frame_trans [OF insert_simps(7)])
qed

lemma tame_repo: "tame w \<Longrightarrow> tame (with_repo core w)"
  using preambles_restore ibex_log_frames by (simp add: with_repo_def restores_def)

lemma find_module_first: "ex (path_join d (m @ ''.py'')) \<Longrightarrow> find_module ex (d # ds) m = Some (path_join d (m @ ''.py''))"
  by simp

section \<open>Which preambles restore the search path\<close>

text \<open>After an import that restores the path, the rest starts from the same path.\<close>

lemma restored_then:
  assumes "path_addr s < free s" "find_module (exists_file w) (sys_path s) m = Some f" "restores (run_file w f)"
    and rest: "\<And>u r t. path_addr u < free u \<Longrightarrow> sys_path u = sys_path s \<Longrightarrow> g u = (r, t) \<Longrightarrow>
       frame u t \<and> sys_path t = sys_path u"
    and run: "and_then (import_from w m ns) g s = (r, t)"
  shows "frame s t \<and> sys_path t = sys_path s"
proof -
  obtain e u where u: "import_from w m ns s = (e, u)" by fastforce
  from restoring_import [OF assms(1) u assms(2,3)] have f: "frame s u" "sys_path u = sys_path s" by simp_all
  then have l: "path_addr u < free u" using assms(1) by (simp add: frame_def)
  from run u consider "t = u" | "g u = (r, t)" by (auto simp: and_then_def split: option.splits)
  then show ?thesis
  proof cases
    case 2
    with rest [OF l f(2) 2] f show ?thesis by (auto intro: frame_trans)
  qed (use f in simp)
qed

lemma path_join_inj: "hd b \<noteq> CHR ''/'' \<Longrightarrow> hd c \<noteq> CHR ''/'' \<Longrightarrow> path_join a b = path_join a c \<longleftrightarrow> b = c"
  by (simp add: path_join_def)

lemma unchanged_below:
  assumes "frame s t" "sys_path t = sys_path s"
  shows "path_addr t = path_addr s \<and> list_all (\<lambda>a. lists t a = lists s a) [0..<free s]"
  using assms by (auto simp: frame_def sys_path_def list_all_iff)

text \<open>
  C37. The search path survives the imports of \<^verbatim>\<open>compare.py\<close>: whatever the imported scripts do to the
  list \<^verbatim>\<open>sys.path\<close> is bound to, and also when one of them raises or is missing, \<^verbatim>\<open>sys.path\<close> is
  afterwards bound to the list it was bound to before, and no list that existed before has changed,
  although \<^verbatim>\<open>ibex_log_to_trace_csv\<close> inserts into the list it finds.
\<close>

theorem compare_path_restored:
  assumes "\<forall>f. frames (run_file w f)"
    and "path_addr s < free s"
    and "find_module (exists_file w) (sys_path s) ''test_entry'' = Some (path_join (core_ibex file) ''test_entry.py'')"
    and "find_module (exists_file w) (sys_path s) ''test_run_result'' =
           Some (path_join (core_ibex file) ''test_run_result.py'')"
    and "restores (run_file w (path_join (core_ibex file) ''test_run_result.py''))"
    and "compare_imports (with_repo (core_ibex file) w) file s = (r, t)"
  shows "path_addr t = path_addr s \<and> list_all (\<lambda>a. lists t a = lists s a) [0..<free s]"
proof -
  let ?w = "with_repo (core_ibex file) w"
  have tame: "tame ?w" using assms(1) by (rule tame_repo)
  have e: "restores (run_file ?w (path_join (core_ibex file) ''test_entry.py''))"
    using preambles_restore(1) [OF assms(1)] by (simp add: with_repo_def)
  have r: "restores (run_file ?w (path_join (core_ibex file) ''test_run_result.py''))"
    using assms(5) by (simp add: with_repo_def path_join_inj)
  have ex: "exists_file ?w = exists_file w" by (simp add: with_repo_def)
  have "frame s t \<and> sys_path t = sys_path s"
  proof (rule restored_then [OF assms(2) _ e _ assms(6) [unfolded compare_imports_def]])
    fix u r' t'
    assume u: "path_addr u < free u" "sys_path u = sys_path s" and
      run: "and_then (import_from ?w ''test_run_result'' [''TestRunResult''])
        (saving_path (rebind_path [dv_extension file, dv_scripts file])
          (and_then (import_from ?w ''spike_log_to_trace_csv'' [''process_spike_sim_log''])
          (and_then (import_from ?w ''ovpsim_log_to_trace_csv'' [''process_ovpsim_sim_log''])
          (and_then (import_from ?w ''instr_trace_compare'' [''compare_trace_csv''])
             (import_from ?w ''ibex_log_to_trace_csv'' [''process_ibex_sim_log'', ''check_ibex_uvm_log'']))))) u = (r', t')"
    show "frame u t' \<and> sys_path t' = sys_path u"
    proof (rule restored_then [OF u(1) _ r _ run])
      show "frame v t'' \<and> sys_path t'' = sys_path v"
        if "path_addr v < free v" "saving_path (rebind_path [dv_extension file, dv_scripts file])
          (and_then (import_from ?w ''spike_log_to_trace_csv'' [''process_spike_sim_log''])
          (and_then (import_from ?w ''ovpsim_log_to_trace_csv'' [''process_ovpsim_sim_log''])
          (and_then (import_from ?w ''instr_trace_compare'' [''compare_trace_csv''])
             (import_from ?w ''ibex_log_to_trace_csv'' [''process_ibex_sim_log'', ''check_ibex_uvm_log''])))) v = (q, t'')"
        for v q t''
        using restoresD [OF restores_rebind that] frames_and_then frames_import [OF tame] by simp
    qed (use assms(4) u(2) ex in simp)
  qed (use assms(3) ex in simp)
  then show ?thesis using unchanged_below by blast
qed

text \<open>
  \<^verbatim>\<open>ibex_log_to_trace_csv.py\<close> does not put the search path back as it started: it inserts into the
  list itself and then binds the name to that same list, so that the directory of the scripts stays
  in front of the path of whoever imports or runs it.
\<close>

lemma ibex_log_path_kept:
  assumes "\<forall>f. restores (run_file w f)" "path_addr s < free s" "ibex_log_imports w file s = (r, t)"
  shows "sys_path t = ibex_log_scripts file # sys_path s"
proof -
  let ?body = "and_then (import_from w ''riscv_trace_csv''
      [''RiscvInstructionTraceCsv'', ''RiscvInstructionTraceEntry'', ''get_imm_hex_val''])
    (and_then (import_from w ''lib'' [''RET_FATAL'', ''gpr_to_abi'', ''sint_to_hex'', ''convert_pseudo_instr''])
       (import_module w ''logging''))"
  have b: "restores ?body" by (intro restores_and_then restores_import assms)
  then have "?body (insert_path (ibex_log_scripts file) s) = (r, t)"
    using assms(2,3) saving_unchanged [of ?body s "insert_path (ibex_log_scripts file)"]
    by (simp add: ibex_log_imports_def restores_def)
  from restoresD [OF b _ this] assms(2) show ?thesis by simp
qed

text \<open>The same for the configuration of the documentation, at the other end of the path.\<close>

lemma doc_conf_path_kept:
  assumes "\<forall>f. restores (run_file w f)" "path_addr s < free s" "doc_conf_imports w file s = (r, t)"
  shows "sys_path t = sys_path s @ [path_join (topsrcdir file) ''util'']"
proof -
  have b: "restores (import_module w ''check_tool_requirements'')" by (intro restores_import assms)
  then have "import_module w ''check_tool_requirements'' (append_path (path_join (topsrcdir file) ''util'') s) = (r, t)"
    using assms(2,3) saving_unchanged [of "import_module w ''check_tool_requirements''" s
        "append_path (path_join (topsrcdir file) ''util'')"]
    by (simp add: doc_conf_imports_def restores_def)
  from restoresD [OF b _ this] assms(2) show ?thesis by simp
qed

lemma sim_path_restored:
  assumes "tame w" "path_addr s < free s"
    and "find_module (exists_file w) (sys_path s) ''sim_cmd'' = Some (path_join (core_ibex file) ''sim_cmd.py'')"
    and "sim_imports (with_repo (core_ibex file) w) file s = (r, t)"
  shows "path_addr t = path_addr s \<and> list_all (\<lambda>a. lists t a = lists s a) [0..<free s]"
proof -
  let ?w = "with_repo (core_ibex file) w"
  have e: "restores (run_file ?w (path_join (core_ibex file) ''sim_cmd.py''))"
    using preambles_restore(2) [OF assms(1)] by (simp add: with_repo_def path_join_inj)
  have "frame s t \<and> sys_path t = sys_path s"
  proof (rule restored_then [OF assms(2) _ e _ assms(4) [unfolded sim_imports_def]])
    show "find_module (exists_file ?w) (sys_path s) ''sim_cmd'' = Some (path_join (core_ibex file) ''sim_cmd.py'')"
      using assms(3) by (simp add: with_repo_def)
  qed (blast dest: restoresD [OF restores_rebind [OF frames_import [OF tame_repo [OF assms(1)]]]])
  then show ?thesis using unchanged_below by blast
qed

section \<open>An example world\<close>

text \<open>
  Every import finds its file, and the scripts of riscv-dv insert their own directory in front of the
  path, as the real ones do.
\<close>

definition demo_inserts :: "string \<Rightarrow> bool" where
  "demo_inserts f \<longleftrightarrow> basename f = ''spike_log_to_trace_csv.py'' \<or> basename f = ''instr_trace_compare.py''"

definition demo_world :: world where
  "demo_world =
     \<lparr>exists_file = (\<lambda>f. f \<in> set
        [''/r/dv/uvm/core_ibex/test_entry.py'', ''/r/dv/uvm/core_ibex/test_run_result.py'',
         ''/r/dv/uvm/core_ibex/riscv_dv_extension/ibex_log_to_trace_csv.py'',
         ''/r/vendor/google_riscv-dv/scripts/lib.py'',
         ''/r/vendor/google_riscv-dv/scripts/spike_log_to_trace_csv.py'',
         ''/r/vendor/google_riscv-dv/scripts/ovpsim_log_to_trace_csv.py'',
         ''/r/vendor/google_riscv-dv/scripts/instr_trace_compare.py'',
         ''/r/vendor/google_riscv-dv/scripts/riscv_trace_csv.py'', ''/py/logging.py'']),
      run_file = (\<lambda>f s. (None, if demo_inserts f then insert_path (dirname f) s else s)),
      names_of = (\<lambda>f.
        [''TestEntry'', ''get_test_entry'', ''TestRunResult'', ''process_regression_list'', ''process_spike_sim_log'',
         ''process_ovpsim_sim_log'', ''compare_trace_csv'', ''process_ibex_sim_log'', ''check_ibex_uvm_log'',
         ''RiscvInstructionTraceCsv'', ''RiscvInstructionTraceEntry'', ''get_imm_hex_val'', ''RET_FATAL'',
         ''gpr_to_abi'', ''sint_to_hex'', ''convert_pseudo_instr''])\<rparr>"

definition demo_start :: pyst where
  "demo_start = \<lparr>lists = (\<lambda>a. if a = 0 then [''/r/dv/uvm/core_ibex'', ''/py''] else []), free = 1,
     path_addr = 0, modules = []\<rparr>"

abbreviation demo_file :: string where "demo_file \<equiv> ''/r/dv/uvm/core_ibex/compare.py''"

lemma demo_frames: "frames (run_file demo_world f)"
  by (rule framesI) (auto simp: demo_world_def)

text \<open>All imports succeed; the path they leave is the one from the start.\<close>

lemma demo_runs:
  "fst (compare_imports (with_repo (core_ibex demo_file) demo_world) demo_file demo_start) = None"
  by code_simp

theorem compare_path_restored_witness:
  "\<exists>t. compare_imports (with_repo (core_ibex demo_file) demo_world) demo_file demo_start = (None, t) \<and>
     path_addr t = 0 \<and> lists t 0 = [''/r/dv/uvm/core_ibex'', ''/py'']"
proof -
  obtain t where t: "compare_imports (with_repo (core_ibex demo_file) demo_world) demo_file demo_start = (None, t)"
    using demo_runs by (metis prod.collapse)
  have "path_addr t = path_addr demo_start \<and>
      list_all (\<lambda>a. lists t a = lists demo_start a) [0..<free demo_start]"
  proof (rule compare_path_restored [OF _ _ _ _ _ t])
    show "\<forall>f. frames (run_file demo_world f)" using demo_frames by blast
    show "path_addr demo_start < free demo_start" by (simp add: demo_start_def)
    show "find_module (exists_file demo_world) (sys_path demo_start) ''test_entry'' =
        Some (path_join (core_ibex demo_file) ''test_entry.py'')" by code_simp
    show "find_module (exists_file demo_world) (sys_path demo_start) ''test_run_result'' =
        Some (path_join (core_ibex demo_file) ''test_run_result.py'')" by code_simp
    have "\<not> demo_inserts (path_join (core_ibex demo_file) ''test_run_result.py'')" by code_simp
    then show "restores (run_file demo_world (path_join (core_ibex demo_file) ''test_run_result.py''))"
      using restores_skip by (simp add: demo_world_def)
  qed
  with t show ?thesis by (simp add: demo_start_def)
qed

end
