(* ===== verification/Ci_Doc.thy ===== *)
theory Ci_Doc
  imports Tool_Req Import_Path
begin

text \<open>
  Two small clients: \<^verbatim>\<open>ci/vars_to_logging_cmd.py\<close>, which turns a file of variables into commands of the
  build service, and \<^verbatim>\<open>doc/conf.py\<close>, whose variables configure the documentation and make the minimal
  tool versions available in it. The YAML loader and \<^verbatim>\<open>setuptools_scm.get_version\<close> are parameters.
\<close>

section \<open>Variables of the build service\<close>

definition is_vars :: "yval \<Rightarrow> bool" where
  "is_vars data = (case data of YMap kvs \<Rightarrow> dict_has kvs (YStr ''variables'') | _ \<Rightarrow> False)"

definition setvariable :: "yval \<times> yval \<Rightarrow> string" where
  "setvariable kv = ''##vso[task.setvariable variable='' @ str_val (fst kv) @ '']'' @ str_val (snd kv) @ [CHR 0x0A]"

text \<open>\<^verbatim>\<open>data['variables'].items()\<close>.\<close>

definition vars_items :: "yval \<Rightarrow> (yval \<times> yval) list py_res" where
  "vars_items data =
     (case data of
        YMap kvs \<Rightarrow>
          (case dict_get kvs (YStr ''variables'') of
             None \<Rightarrow> Inl (KeyError ''variables'')
           | Some (YMap vs) \<Rightarrow> Inr vs
           | Some _ \<Rightarrow> Inl AttributeError)
      | _ \<Rightarrow> Inl TypeError)"

text \<open>What is printed, and the exception or the exit status. The message about a wrong file does not end the function.\<close>

definition vars_to_logging_cmd :: "(string \<Rightarrow> yval py_res) \<Rightarrow> string \<Rightarrow> string \<times> int py_res" where
  "vars_to_logging_cmd load vars_file =
     (let out0 = vars_file @ [CHR 0x0A] in
      case load vars_file of
        Inl e \<Rightarrow> (out0, Inl e)
      | Inr data \<Rightarrow>
          (let out1 = out0 @
                 (if is_vars data then []
                  else ''YAML file wasn'' @ [squote] @ ''t a dictionary with a '' @ [squote] @ ''variables'' @ [squote] @ '' key. Got: '' @
                       str_val data @ [CHR 0x0A]) @
                 ''Setting variables from '' @ vars_file @ [CHR 0x0A] in
           case vars_items data of
             Inl e \<Rightarrow> (out1, Inl e)
           | Inr vs \<Rightarrow> (out1 @ concat (map setvariable vs), Inr 0)))"

definition vars_main :: "(string \<Rightarrow> yval py_res) \<Rightarrow> string list \<Rightarrow> string \<times> int py_res" where
  "vars_main load argv =
     (case argv of
        prog # vars_file # _ \<Rightarrow> vars_to_logging_cmd load vars_file
      | [prog] \<Rightarrow> (''Usage: '' @ prog @ '' VARS_FILE'' @ [CHR 0x0A], Inr 1)
      | [] \<Rightarrow> ([], Inl IndexError))"

text \<open>
  The variables are set exactly when the file holds a mapping with a mapping of variables; every other
  file ends in an exception, whatever the message before it says.
\<close>

lemma vars_set_iff:
  assumes "load f = Inr data"
  shows "snd (vars_to_logging_cmd load f) = Inr 0 \<longleftrightarrow>
     (\<exists>kvs vs. data = YMap kvs \<and> dict_get kvs (YStr ''variables'') = Some (YMap vs))"
  using assms by (auto simp: vars_to_logging_cmd_def vars_items_def Let_def split: yval.splits option.splits sum.splits)

lemma vars_not_a_dictionary:
  assumes "load f = Inr data" "\<not> is_vars data"
  shows "\<exists>e. snd (vars_to_logging_cmd load f) = Inl e"
  using assms by (auto simp: vars_to_logging_cmd_def vars_items_def is_vars_def Let_def dict_has_get split: yval.splits option.splits sum.splits)

section \<open>Tool versions in the documentation\<close>

definition rst_line :: "string \<times> tool_req \<Rightarrow> string" where
  "rst_line tr = ''.. |tool_requirements.'' @ fst tr @ ''| replace:: '' @ min_version (snd tr) @ [CHR 0x0A]"

definition rst_epilog :: "(string \<Rightarrow> string option) \<Rightarrow> (string \<Rightarrow> (string, yval) dict py_res) \<Rightarrow> string \<Rightarrow> string py_res" where
  "rst_epilog fs exec_py path =
     bind_res (read_tool_requirements fs exec_py path) (\<lambda>reqs. Inr (concat (map rst_line reqs)))"

text \<open>For the requirements of this repository: one line for each tool, in the order of the file.\<close>

lemma rst_epilog_here:
  assumes "fs path = Some src" "exec_py src = Inr [(''__TOOL_REQUIREMENTS__'', YMap TOOL_REQUIREMENTS)]"
  shows "\<exists>reqs. rst_epilog fs exec_py path = Inr (concat (map rst_line reqs)) \<and> map (YStr \<circ> fst) reqs = map fst TOOL_REQUIREMENTS"
proof -
  have "\<exists>reqs. read_reqs path TOOL_REQUIREMENTS [] = Inr reqs \<and> map (YStr \<circ> fst) reqs = map fst TOOL_REQUIREMENTS"
    by (simp add: TOOL_REQUIREMENTS_def dict_to_tool_req_def Let_def dict_set_def dict_del_def)
  with assms show ?thesis by (auto simp: rst_epilog_def read_tool_requirements_def)
qed

section \<open>The configuration of the documentation\<close>

datatype conf_val =
    CStr string
  | CBool bool
  | CList "conf_val list"
  | CTuple "conf_val list"
  | CDict "(conf_val \<times> conf_val) list"
  | CInt int

definition strs :: "string list \<Rightarrow> conf_val list" where "strs = map CStr"

definition doc_master :: string where "doc_master = ''index''"
definition doc_author :: string where "doc_author = ''lowRISC contributors''"

definition doc_general :: "(string, conf_val) dict" where
  "doc_general =
     [(''numfig'', CBool True),
      (''numfig_format'', CDict [(CStr ''figure'', CStr ''Figure %s''), (CStr ''table'', CStr ''Table %s''),
                               (CStr ''code-block'', CStr ''Listing %s'')]),
      (''extensions'', CList (strs [''sphinxcontrib.wavedrom'', ''sphinx.ext.todo''])),
      (''wavedrom_html_jsinline'', CBool False), (''render_using_wavedrompy'', CBool True),
      (''templates_path'', CList (strs [''_templates''])), (''source_suffix'', CStr ''.rst''),
      (''master_doc'', CStr doc_master), (''project'', CStr ''Ibex Documentation''),
      (''copyright'', CStr ''2017-2018, ETH Zurich and University of Bologna, 2018-present lowRISC''),
      (''author'', CStr doc_author), (''version'', CStr '''')]"

definition doc_sources :: "(string, conf_val) dict" where
  "doc_sources =
     [(''language'', CStr ''en''),
      (''exclude_patterns'', CList (strs [''_build'', ''Thumbs.db'', ''.DS_Store'', ''venv''])),
      (''pygments_style'', CStr ''sphinx''), (''todo_include_todos'', CBool True)]"

definition doc_html :: "(string, conf_val) dict" where
  "doc_html =
     [(''html_theme'', CStr ''sphinx_rtd_theme''),
      (''html_theme_options'', CDict [(CStr ''style_nav_header_background'', CStr ''#E53651'')]),
      (''html_logo'', CStr ''images/logo.svg''), (''html_static_path'', CList (strs [''_static''])),
      (''html_css_files'', CList (strs [''theme_overrides.css'']))]"

definition doc_outputs :: "(string, conf_val) dict" where
  "doc_outputs =
     [(''latex_elements'', CDict []),
      (''latex_documents'', CList [CTuple (strs [doc_master, ''ibex.tex'', ''Ibex Documentation'', ''lowRISC'', ''manual''])]),
      (''latex_logo'', CStr ''''),
      (''man_pages'', CList [CTuple [CStr doc_master, CStr ''ibex'', CStr ''Ibex Documentation'',
                                  CList (strs [doc_author]), CInt 1]]),
      (''texinfo_documents'', CList [CTuple (strs [doc_master, ''ibex'', ''Ibex Documentation'', doc_author, ''ibex'',
                                               ''Ibex RV32 CPU core'', ''Miscellaneous''])])]"

text \<open>
  The module as Sphinx runs it: the interpreter's state is left changed also when it raises. The path
  of the requirements is the default argument of the reader.
\<close>

definition doc_conf ::
  "world \<Rightarrow> (string \<Rightarrow> string py_res) \<Rightarrow> (string \<Rightarrow> string option) \<Rightarrow> (string \<Rightarrow> (string, yval) dict py_res) \<Rightarrow>
   string \<Rightarrow> string \<Rightarrow> pyst \<Rightarrow> (string, conf_val) dict py_res \<times> pyst" where
  "doc_conf w scm_version fs exec_py reqs_path file s =
     (case and_then (doc_conf_imports w file) (import_from w ''setuptools_scm'' [''get_version'']) s of
        (Some e, t) \<Rightarrow> (Inl e, t)
      | (None, t) \<Rightarrow>
          (bind_res (scm_version (topsrcdir file)) (\<lambda>release.
           bind_res (rst_epilog fs exec_py reqs_path) (\<lambda>epilog.
             Inr (doc_general @ [(''release'', CStr release)] @ doc_sources @ doc_html @ doc_outputs @
                  [(''rst_epilog'', CStr epilog)]))), t))"

text \<open>No variable is set twice, so that each has the value of its assignment.\<close>

lemma doc_conf_ok: "fst (doc_conf w gv fs ex p file s) = Inr d \<Longrightarrow> dict_ok d"
  by (auto simp: doc_conf_def bind_res_Inr_iff dict_ok_def doc_general_def doc_sources_def doc_html_def doc_outputs_def
      split: prod.splits option.splits)

text \<open>Every kind of output starts from the document that is declared as the root of the tree.\<close>

lemma doc_roots:
  assumes "fst (doc_conf w gv fs ex p file s) = Inr d"
  shows "dict_get d ''master_doc'' = Some (CStr doc_master) \<and>
     list_all (\<lambda>k. case dict_get d k of Some (CList ts) \<Rightarrow>
         list_all (\<lambda>t. case t of CTuple (r # _) \<Rightarrow> r = CStr doc_master | _ \<Rightarrow> False) ts | _ \<Rightarrow> False)
       [''latex_documents'', ''man_pages'', ''texinfo_documents'']"
  using assms
  by (auto simp: doc_conf_def bind_res_Inr_iff doc_general_def doc_sources_def doc_html_def doc_outputs_def dict_get_def
      strs_def split: prod.splits option.splits)

end
