(* ===== verification/Trace_Inv.thy ===== *)
theory Trace_Inv
  imports Trace_Compare
begin

text \<open>
  The invariant of the comparison state of \<^verbatim>\<open>dv/cheriot/scripts/compare_trace.py\<close>, and when the comparison
  loop raises. The array of pending revocations is indexed with register numbers that come from the text
  of the trace; the lemmas show that these indices are the only thing in the comparison that can fail.
\<close>

section \<open>The invariant\<close>

definition flag :: "int \<Rightarrow> bool" where "flag i \<longleftrightarrow> i = 0 \<or> i = 1"

definition cstate_ok :: "cstate \<Rightarrow> bool" where
  "cstate_ok s \<longleftrightarrow>
     length (pending_revoke_regs s) = 32 \<and> list_all flag (pending_revoke_regs s) \<and> flag (ibex_in_isr s) \<and>
     flag (outstanding_trap s) \<and> (outstanding_trap s = 0 \<longrightarrow> outstanding_trap_pc s = 0)"

lemma cstate_ok_init [simp]: "cstate_ok (init_cstate f g)"
  unfolding cstate_ok_def init_cstate_def list_all_iff by (simp add: flag_def)

lemma cstate_ok_upd [simp]:
  "cstate_ok (printf m s) = cstate_ok s" "cstate_ok (s\<lparr>eq_cnt := n\<rparr>) = cstate_ok s"
  "cstate_ok (s\<lparr>neq_cnt := n\<rparr>) = cstate_ok s" "cstate_ok (s\<lparr>cmp_cnt := n\<rparr>) = cstate_ok s"
  "cstate_ok (s\<lparr>revoke_err_cnt := n\<rparr>) = cstate_ok s" "cstate_ok (s\<lparr>ibex_trace := f\<rparr>) = cstate_ok s"
  "cstate_ok (s\<lparr>sail_trace := f\<rparr>) = cstate_ok s" "cstate_ok (put_traces f g s) = cstate_ok s"
  by (simp_all add: cstate_ok_def printf_def put_traces_def)

lemma cstate_ok_note_trap [simp]: "cstate_ok s \<Longrightarrow> cstate_ok (note_trap y s)"
  by (simp add: cstate_ok_def note_trap_def flag_def)

lemma cstate_ok_isr_track: "cstate_ok s \<Longrightarrow> cstate_ok (isr_track x s)"
  by (simp add: cstate_ok_def isr_track_def flag_def Let_def)

section \<open>Register numbers\<close>

text \<open>An index that Python accepts for the array of registers.\<close>

definition reg_ok :: "int \<Rightarrow> bool" where "reg_ok r \<longleftrightarrow> - 32 \<le> r \<and> r < 32"

definition regs_ok :: "trace_obj \<Rightarrow> bool" where
  "regs_ok x \<longleftrightarrow> reg_ok (reg_raddr1 x) \<and> reg_ok (reg_raddr2 x) \<and> reg_ok (reg_waddr x)"

lemma py_index_ok:
  "cstate_ok s \<Longrightarrow>
     (case py_index (pending_revoke_regs s) r of Inl e \<Rightarrow> e = IndexError \<and> \<not> reg_ok r | Inr i \<Rightarrow> i < 32 \<and> reg_ok r)"
  by (auto simp: cstate_ok_def py_index_def reg_ok_def Let_def)

text \<open>What one access does: it succeeds on a register number, and raises otherwise.\<close>

definition guarded :: "bool \<Rightarrow> cstate py_res \<Rightarrow> bool" where
  "guarded ok r \<longleftrightarrow> (case r of Inl e \<Rightarrow> e = IndexError \<and> \<not> ok | Inr t \<Rightarrow> cstate_ok t \<and> ok)"

lemma guarded_simps [simp]:
  "guarded ok (Inl e) \<longleftrightarrow> e = IndexError \<and> \<not> ok"
  "guarded ok (Inr t) \<longleftrightarrow> cstate_ok t \<and> ok"
  by (simp_all add: guarded_def)

lemma guarded_bind:
  assumes "guarded a m" "\<And>t. cstate_ok t \<Longrightarrow> guarded b (f t)"
  shows "guarded (a \<and> b) (bind_res m f)"
proof (cases m)
  case (Inr t)
  with assms show ?thesis by (cases "f t") force+
qed (use assms in simp)

lemma guarded_set:
  assumes "cstate_ok s" "flag v"
  shows "guarded (reg_ok r) (set_pending r v s)"
proof (cases "py_index (pending_revoke_regs s) r")
  case (Inl e)
  then show ?thesis using py_index_ok [OF assms(1), of r] by (simp add: set_pending_def)
next
  case (Inr i)
  then have "i < 32" "reg_ok r" using py_index_ok [OF assms(1), of r] by simp_all
  moreover have "cstate_ok (s\<lparr>pending_revoke_regs := (pending_revoke_regs s)[i := v]\<rparr>)"
    using assms by (auto simp: cstate_ok_def list_all_iff dest: set_update_subset_insert [THEN subsetD])
  ultimately show ?thesis using Inr by (simp add: set_pending_def)
qed

lemma guarded_read:
  assumes "cstate_ok s" "\<And>p. reg_ok r \<Longrightarrow> guarded b (f p)"
  shows "guarded (reg_ok r \<and> b) (bind_res (reg_pending r s) f)"
proof (cases "py_index (pending_revoke_regs s) r")
  case (Inl e)
  then show ?thesis using py_index_ok [OF assms(1), of r] by (simp add: reg_pending_def)
next
  case (Inr i)
  then have r: "reg_ok r" using py_index_ok [OF assms(1), of r] by simp
  have "bind_res (reg_pending r s) f = f (pending_revoke_regs s ! i = 1)" using Inr by (simp add: reg_pending_def)
  with r assms(2) show ?thesis by simp
qed

section \<open>The comparison step\<close>

text \<open>Marking a register and going on with the marked state.\<close>

lemma guarded_mark:
  assumes "cstate_ok s" "reg_ok r" "flag v" "\<And>t. cstate_ok t \<Longrightarrow> cstate_ok (h t)"
  shows "guarded True (bind_res (set_pending r v s) (\<lambda>t. Inr (h t)))"
proof -
  have "guarded (reg_ok r \<and> True) (bind_res (set_pending r v s) (\<lambda>t. Inr (h t)))"
    by (rule guarded_bind [OF guarded_set [OF assms(1,3)]]) (simp add: assms(4))
  then show ?thesis using assms(2) by simp
qed

lemma guarded_read_only:
  "cstate_ok s \<Longrightarrow> (\<And>p. reg_ok r \<Longrightarrow> guarded True (f p)) \<Longrightarrow> guarded (reg_ok r) (bind_res (reg_pending r s) f)"
  using guarded_read [of s r True f] by simp

lemma flags [simp]: "flag 0" "flag 1"
  by (simp_all add: flag_def)

lemma guarded_check_cs1: "cstate_ok s \<Longrightarrow> guarded (reg_ok (reg_raddr1 x)) (check_cs1 x s)"
  unfolding check_cs1_def by (rule guarded_read_only) (simp_all add: guarded_mark)

lemma guarded_check_cs2:
  assumes "cstate_ok s" "reg_ok (reg_raddr1 x)"
  shows "guarded (reg_ok (reg_raddr2 x)) (check_cs2 x s)"
  unfolding check_cs2_def
proof (rule guarded_read_only [OF assms(1)])
  fix p assume r: "reg_ok (reg_raddr2 x)"
  define m where "m = bind_res (set_pending (reg_raddr2 x) 0 s) (\<lambda>s.
      Inr (printf (reg_msg ''cap revocation for'' (reg_raddr2 x) '' verified'' (pc x))
             (s\<lparr>eq_cnt := eq_cnt s + 1\<rparr>)))"
  have "guarded True m" unfolding m_def by (rule guarded_mark) (use assms r in simp_all)
  then have "guarded True (bind_res (reg_pending (reg_raddr1 x) s) (\<lambda>p1.
      if p1 \<and> reg_rd2 x = 1 \<and> c_tag (reg_rcap2 x) = 0 then m else Inr s))"
    using guarded_read_only [OF assms(1), of "reg_raddr1 x"] assms by simp
  then show "guarded True
      (if p \<and> reg_rd2 x = 1 \<and> c_tag (reg_rcap2 x) = 1
       then Inr (printf (reg_msg ''revocation error found for cs2'' (reg_raddr2 x) '''' (pc x))
              (s\<lparr>revoke_err_cnt := revoke_err_cnt s + 1\<rparr>))
       else bind_res (reg_pending (reg_raddr1 x) s) (\<lambda>p1.
         if p1 \<and> reg_rd2 x = 1 \<and> c_tag (reg_rcap2 x) = 0
         then bind_res (set_pending (reg_raddr2 x) 0 s) (\<lambda>s.
                Inr (printf (reg_msg ''cap revocation for'' (reg_raddr2 x) '' verified'' (pc x))
                       (s\<lparr>eq_cnt := eq_cnt s + 1\<rparr>)))
         else Inr s))"
    using assms(1) unfolding m_def by simp
qed

lemma guarded_check_write: "cstate_ok s \<Longrightarrow> guarded (reg_ok (reg_waddr x)) (check_write x s)"
  unfolding check_write_def by (rule guarded_read_only) (simp_all add: guarded_mark)

lemma guarded_compare: "cstate_ok s \<Longrightarrow> reg_ok (reg_waddr x) \<Longrightarrow> guarded True (compare_objs x y s)"
  by (simp add: compare_objs_def guarded_mark)

text \<open>A bind whose second part relies on the first having succeeded.\<close>

lemma guarded_bind_dep:
  assumes "guarded a m" "\<And>t. a \<Longrightarrow> cstate_ok t \<Longrightarrow> guarded b (f t)"
  shows "guarded (a \<and> b) (bind_res m f)"
proof (cases m)
  case (Inr t)
  with assms show ?thesis by (cases "f t") force+
qed (use assms in simp)

lemma guarded_cmp_step:
  assumes "cstate_ok s"
  shows "guarded (regs_ok x) (cmp_step (x, y) s)"
proof -
  have "guarded (reg_ok (reg_raddr1 x) \<and> reg_ok (reg_raddr2 x) \<and> reg_ok (reg_waddr x) \<and> True \<and> True)
      (cmp_step (x, y) s)"
    unfolding cmp_step_def prod.case
    by (rule guarded_bind_dep [OF guarded_check_cs1 [OF assms]], rule guarded_bind_dep,
        erule (1) guarded_check_cs2, rule guarded_bind_dep, erule guarded_check_write,
        rule guarded_bind_dep, erule (1) guarded_compare) simp
  then show ?thesis by (simp add: regs_ok_def)
qed

lemma guarded_fold:
  "cstate_ok s \<Longrightarrow> guarded (list_all (\<lambda>(x, y). regs_ok x) ps) (fold_res cmp_step ps s)"
proof (induction ps arbitrary: s)
  case (Cons p ps)
  obtain x y where p: "p = (x, y)" by (cases p)
  note g = guarded_cmp_step [OF Cons.prems, of x y]
  show ?case
  proof (cases "cmp_step (x, y) s")
    case (Inr t)
    with g have t: "cstate_ok t" "regs_ok x" by simp_all
    with Cons.IH [OF t(1)] Inr show ?thesis by (simp add: p)
  qed (use g in \<open>simp add: p\<close>)
qed simp

section \<open>The run\<close>

text \<open>In both modes, whatever state the loop returns satisfies the invariant.\<close>

lemma skip_isr_ok: "skip_isr s = Inr (x, t) \<Longrightarrow> cstate_ok s \<Longrightarrow> cstate_ok t"
proof (induction s rule: skip_isr.induct)
  case (1 s)
  obtain y f where n: "ibex_find_nxt (ibex_trace s) = Inr (y, f)"
    using "1.prems"(1) by (subst (asm) skip_isr.simps) (auto split: sum.splits)
  show ?case
  proof (cases "valid y = 0 \<or> trap y = 0 \<and> intr y = 0 \<and> ibex_in_isr s = 0 \<and> pc y < 0x80040000")
    case True
    with n have "skip_isr s = Inr (y, s\<lparr>ibex_trace := f\<rparr>)"
      by (subst skip_isr.simps) auto
    with "1.prems" show ?thesis by auto
  next
    case False
    with n have e: "skip_isr s = skip_isr (isr_track y (s\<lparr>ibex_trace := f\<rparr>))"
      by (subst skip_isr.simps) auto
    show ?thesis
      by (rule "1.IH" [OF n refl]) (use False e "1.prems" in \<open>auto intro: cstate_ok_isr_track\<close>)
  qed
qed

lemma nxt_ok:
  "nxt_ibex skip s = Inr (x, t) \<Longrightarrow> cstate_ok s \<Longrightarrow> cstate_ok t"
  "nxt_sail s = Inr (y, t) \<Longrightarrow> cstate_ok s \<Longrightarrow> cstate_ok t"
  by (auto simp: nxt_ibex_def nxt_sail_def bind_res_Inr_iff split: if_splits dest: skip_isr_ok)

lemma cmp_loop_ok: "cmp_loop skip s = Inr t \<Longrightarrow> cstate_ok s \<Longrightarrow> cstate_ok t"
proof (induction skip s rule: cmp_loop.induct)
  case (1 skip s)
  from "1.prems"(1) obtain x s1 where i: "nxt_ibex skip s = Inr (x, s1)"
    by (subst (asm) cmp_loop.simps) (auto split: sum.splits)
  with "1.prems"(1) obtain y s2 where y: "nxt_sail s1 = Inr (y, s2)"
    by (subst (asm) cmp_loop.simps) (auto split: sum.splits)
  have ok: "cstate_ok s2" using nxt_ok i y "1.prems"(2) by blast
  have e: "cmp_loop skip s = (if valid x = 0 \<or> valid y = 0 then Inr s2
      else (case cmp_step (x, y) s2 of Inl e \<Rightarrow> Inl e | Inr s3 \<Rightarrow> cmp_loop skip s3))"
    by (subst cmp_loop.simps) (simp add: i y)
  show ?case
  proof (cases "valid x = 0 \<or> valid y = 0")
    case True
    with e "1.prems"(1) ok show ?thesis by simp
  next
    case False
    with e "1.prems"(1) obtain s3 where 3: "cmp_step (x, y) s2 = Inr s3" "cmp_loop skip s3 = Inr t"
      by (auto split: sum.splits)
    moreover have "cstate_ok s3" using guarded_cmp_step [OF ok, of x y] 3(1) by simp
    ultimately show ?thesis using "1.IH" [OF i refl y refl False] by blast
  qed
qed

lemma cstate_ok_report [simp]: "cstate_ok (report s) = cstate_ok s"
  by (simp add: report_def Let_def)

text \<open>
  C15. The invariant of the comparison: whatever the two traces hold, with or without skipping the
  handlers, the state with which the program ends has 32 flags of pending revocations, the handler
  and trap flags are 0 or 1, and no address of a trap is kept once that trap was compared.
\<close>

theorem comparison_invariant:
  assumes "compare_trace_main fs skip files = Inr s"
  shows "cstate_ok s"
proof -
  from assms obtain m ibex sail u where
    "cmp_loop skip (printf m (init_cstate ibex sail)) = Inr u" "s = report u"
    by (auto simp: compare_trace_main_def Let_def bind_res_Inr_iff)
  then show ?thesis using cmp_loop_ok by fastforce
qed

theorem comparison_invariant_witness:
  "\<exists>s. compare_trace_main two_files True [''i'', ''s''] = Inr s \<and> cstate_ok s"
proof -
  have "case compare_trace_main two_files True [''i'', ''s''] of Inl _ \<Rightarrow> False | Inr s \<Rightarrow> True" by code_simp
  then obtain s where "compare_trace_main two_files True [''i'', ''s''] = Inr s" by (auto split: sum.splits)
  then show ?thesis using comparison_invariant by blast
qed

text \<open>
  C7. When the comparison fails with an exception: over an ibex trace that can be read, the loop
  returns a state exactly when every compared object names registers that index the array of
  pending revocations (Python also takes -32 to -1), and raises \<^verbatim>\<open>IndexError\<close> otherwise. Nothing in the
  Sail trace can make it raise.
\<close>

theorem comparison_total:
  assumes "ibex_objs ibex = Inr xs"
  shows "case cmp_loop False (init_cstate ibex sail) of
           Inl e \<Rightarrow> e = IndexError \<and> \<not> list_all regs_ok (take (length (sail_objs sail)) xs)
         | Inr s \<Rightarrow> cstate_ok s \<and> list_all regs_ok (take (length (sail_objs sail)) xs)"
proof -
  obtain f g where l: "cmp_loop False (init_cstate ibex sail) =
      lift_traces f g (fold_res cmp_step (zip xs (sail_objs sail)) (init_cstate ibex sail))"
    using cmp_loop_fold [of "init_cstate ibex sail" xs] assms by (auto simp: sail_rest_init)
  have "guarded (list_all (\<lambda>(x, y). regs_ok x) (zip xs (sail_objs sail)))
      (fold_res cmp_step (zip xs (sail_objs sail)) (init_cstate ibex sail))"
    by (rule guarded_fold) simp
  moreover have "list_all (\<lambda>(x, y). regs_ok x) (zip xs ys) = list_all regs_ok (take (length ys) xs)"
    for ys :: "trace_obj list"
    by (induction xs ys rule: list_induct2') simp_all
  ultimately show ?thesis
    by (cases "fold_res cmp_step (zip xs (sail_objs sail)) (init_cstate ibex sail)") (simp_all add: l)
qed

text \<open>The step of an object that writes to a register with the number 32 raises.\<close>

lemma cmp_step_raises:
  "cmp_step (new_obj\<lparr>valid := 1, reg_waddr := 32\<rparr>, y) (init_cstate f g) = Inl IndexError"
  using guarded_cmp_step [of "init_cstate f g" "new_obj\<lparr>valid := 1, reg_waddr := 32\<rparr>" y]
  by (cases "cmp_step (new_obj\<lparr>valid := 1, reg_waddr := 32\<rparr>, y) (init_cstate f g)")
     (simp_all add: regs_ok_def reg_ok_def new_obj_def)

theorem comparison_total_witness:
  "\<exists>s. cmp_loop False (init_cstate tiny_ibex tiny_sail) = Inr s \<and> cstate_ok s"
  using comparison_total [OF tiny_ibex_objs, of tiny_sail]
  by (auto simp: take_Cons' regs_ok_def reg_ok_def new_obj_def split: sum.splits if_splits)

end
