(* ===== verification/Command_Lines.thy ===== *)
theory Command_Lines
  imports Py_Args Compare_Run Results Sv2v Syn_Flow Test_List Tool_Req Trace_Compare Import_Path
begin

text \<open>
  The command lines of the programs: for each one the parser that its \<^verbatim>\<open>main\<close> builds, and the program
  from the strings after its name. \<^verbatim>\<open>ibex_config.py\<close> and \<^verbatim>\<open>sim_makefrag_gen.py\<close> have theirs in their own
  theories. The texts of \<^verbatim>\<open>argparse\<close> (usage, help, messages) are left out; an error is the exit with
  status 2.

  The lemmas describe the command lines that the makefiles write: for \<^verbatim>\<open>compare.py\<close> every list of its
  options in any order, for \<^verbatim>\<open>compare_trace.py\<close> where the files may stand.
\<close>

section \<open>Trace comparison and synthesis reports\<close>

definition compare_trace_parser :: arg_parser where
  "compare_trace_parser =
     \<lparr>actions = [help_action, flag_arg [''-k'', ''--skip_isr''] ''skip_isr'', pos_arg ''files'' NStar],
      parser_defaults = []\<rparr>"

definition compare_trace_cli :: "(string \<Rightarrow> string option) \<Rightarrow> string list \<Rightarrow> cstate py_res" where
  "compare_trace_cli fs argv =
     bind_res (parse_args no_subs compare_trace_parser argv) (\<lambda>n.
       compare_trace_main fs (ns_bool n ''skip_isr'') (ns_strs n ''files''))"

definition build_names_parser :: arg_parser where
  "build_names_parser =
     \<lparr>actions = [help_action, pos_arg ''top_level'' NOne, pos_arg ''gen_out'' NOne, pos_arg ''rpts'' NPlus],
      parser_defaults = []\<rparr>"

definition build_names_cli ::
    "(string \<Rightarrow> bool) \<Rightarrow> (string \<Rightarrow> 'f option) \<Rightarrow> (string list \<Rightarrow> string list) \<Rightarrow> (string \<Rightarrow> string option) \<Rightarrow>
     string list \<Rightarrow> (string \<Rightarrow> string option) \<times> string list option \<times> unit py_res" where
  "build_names_cli creatable rf ord files argv =
     (case parse_args no_subs build_names_parser argv of
        Inl e \<Rightarrow> (files, None, Inl e)
      | Inr n \<Rightarrow> build_names_main creatable rf ord files (ns_str n ''top_level'') (ns_str n ''gen_out'') (ns_strs n ''rpts''))"

definition timing_parser :: arg_parser where
  "timing_parser =
     \<lparr>actions = [help_action, pos_arg ''rpt_file'' NOne, pos_arg ''gen_out'' NOne], parser_defaults = []\<rparr>"

definition timing_cli ::
    "(string \<Rightarrow> bool) \<Rightarrow> (string \<Rightarrow> 'f option) \<Rightarrow> ('f \<Rightarrow> string) \<Rightarrow> (string \<Rightarrow> string option) \<Rightarrow> string list \<Rightarrow>
     (string \<Rightarrow> string option) \<times> unit py_res" where
  "timing_cli creatable rf sf files argv =
     (case parse_args no_subs timing_parser argv of
        Inl e \<Rightarrow> (files, Inl e)
      | Inr n \<Rightarrow> timing_main creatable rf sf (hd argv) (ns_str n ''rpt_file'') (ns_str n ''gen_out'') files)"

definition kge_parser :: arg_parser where
  "kge_parser =
     \<lparr>actions = [help_action, pos_arg ''lib_file_path'' NOne, pos_arg ''report_path'' NOne,
                (opt_arg [''--cell''] ''cell'')\<lparr>act_default := YStr ''NAND2_X1''\<rparr>],
      parser_defaults = []\<rparr>"

definition kge_cli ::
    "'f float_ops \<Rightarrow> ('f \<Rightarrow> string) \<Rightarrow> (string \<Rightarrow> string option) \<Rightarrow> string list \<Rightarrow> string py_res" where
  "kge_cli fo show_kge files argv =
     bind_res (parse_args no_subs kge_parser argv) (\<lambda>n.
       kge_main fo show_kge files (ns_str n ''lib_file_path'') (ns_str n ''report_path'') (ns_str n ''cell''))"

section \<open>Regression programs\<close>

text \<open>The type of \<^verbatim>\<open>--test-dot-seed\<close>: the pair is kept as a sequence.\<close>

definition test_dot_seed_conv :: "string \<Rightarrow> yval py_res" where
  "test_dot_seed_conv arg = bind_res (read_test_dot_seed arg) (\<lambda>(name, seed). Inr (YSeq [YStr name, YInt seed]))"

definition ns_test_seed :: "namespace \<Rightarrow> string \<times> int" where
  "ns_test_seed n = (case ns_get n ''test_dot_seed'' of YSeq [YStr name, YInt seed] \<Rightarrow> (name, seed) | _ \<Rightarrow> ([], 0))"

abbreviation req_arg :: "string list \<Rightarrow> string \<Rightarrow> action" where
  "req_arg os d \<equiv> (opt_arg os d)\<lparr>required := True\<rparr>"

definition compare_parser :: arg_parser where
  "compare_parser =
     \<lparr>actions =
        [help_action, req_arg [''--instr-gen-bin-dir''] ''instr_gen_bin_dir'',
         (req_arg [''--iss''] ''iss'')\<lparr>choices := Some [YStr ''spike'', YStr ''ovpsim'']\<rparr>,
         req_arg [''--iss-log-dir''] ''iss_log_dir'',
         (req_arg [''--start-seed''] ''start_seed'')\<lparr>conv := int_conv\<rparr>,
         (req_arg [''--test-dot-seed''] ''test_dot_seed'')\<lparr>conv := test_dot_seed_conv\<rparr>,
         req_arg [''--rtl-log-dir''] ''rtl_log_dir'', req_arg [''--output''] ''output''],
      parser_defaults = []\<rparr>"

definition compare_args_of :: "namespace \<Rightarrow> compare_args" where
  "compare_args_of n =
     \<lparr>ca_instr_gen_bin_dir = ns_str n ''instr_gen_bin_dir'', ca_iss = ns_str n ''iss'',
      ca_iss_log_dir = ns_str n ''iss_log_dir'', ca_start_seed = ns_int n ''start_seed'',
      ca_test = fst (ns_test_seed n), ca_seed = snd (ns_test_seed n), ca_rtl_log_dir = ns_str n ''rtl_log_dir'',
      ca_output = ns_str n ''output''\<rparr>"

definition compare_cli ::
    "(string \<Rightarrow> files \<Rightarrow> files) \<Rightarrow> (string \<Rightarrow> bool) \<Rightarrow> (string \<Rightarrow> yval py_res) \<Rightarrow> files \<Rightarrow> string list \<Rightarrow>
     log \<times> files \<times> int py_res" where
  "compare_cli sh creatable get_entry fs argv =
     (case parse_args no_subs compare_parser argv of
        Inl e \<Rightarrow> ([], fs, Inl e)
      | Inr n \<Rightarrow> compare_main sh creatable get_entry fs (compare_args_of n))"

definition run_rtl_parser :: arg_parser where
  "run_rtl_parser =
     \<lparr>actions =
        [help_action, req_arg [''--simulator''] ''simulator'', req_arg [''--simulator_yaml''] ''simulator_yaml'',
         flag_arg [''--en_cov''] ''en_cov'', flag_arg [''--en_wave''] ''en_wave'',
         (req_arg [''--start-seed''] ''start_seed'')\<lparr>conv := int_conv\<rparr>,
         (req_arg [''--test-dot-seed''] ''test_dot_seed'')\<lparr>conv := test_dot_seed_conv\<rparr>,
         opt_arg [''--lsf-cmd''] ''lsf_cmd'', req_arg [''--bin-dir''] ''bin_dir'',
         req_arg [''--rtl-sim-dir''] ''rtl_sim_dir'', (opt_arg [''--sim-opts''] ''sim_opts'')\<lparr>act_default := YStr []\<rparr>],
      parser_defaults = []\<rparr>"

definition run_args_of :: "namespace \<Rightarrow> run_args" where
  "run_args_of n =
     \<lparr>ra_simulator = ns_str n ''simulator'', ra_en_cov = ns_bool n ''en_cov'', ra_en_wave = ns_bool n ''en_wave'',
      ra_start_seed = ns_int n ''start_seed'', ra_test = fst (ns_test_seed n), ra_seed = snd (ns_test_seed n),
      ra_lsf_cmd = ns_opt_str n ''lsf_cmd'', ra_bin_dir = ns_str n ''bin_dir'',
      ra_rtl_sim_dir = ns_str n ''rtl_sim_dir'', ra_sim_opts = ns_str n ''sim_opts''\<rparr>"

text \<open>\<open>yaml\<close> reads a simulator description.\<close>

definition run_rtl_cli ::
  "(string \<Rightarrow> bool) \<Rightarrow> (string \<Rightarrow> string option) \<Rightarrow> string \<Rightarrow> (string \<Rightarrow> yval py_res) \<Rightarrow> (string \<Rightarrow> yval py_res) \<Rightarrow>
   string list \<Rightarrow> ((string \<times> string) \<times> int) py_res" where
  "run_rtl_cli exists environ file yaml get_entry argv =
     bind_res (parse_args no_subs run_rtl_parser argv) (\<lambda>n.
       run_rtl_main exists environ (core_ibex file) (yaml (ns_str n ''simulator_yaml'')) get_entry (run_args_of n))"

definition sim_parser :: "string \<Rightarrow> arg_parser" where
  "sim_parser file =
     \<lparr>actions =
        [help_action, (opt_arg [''--o''] ''o'')\<lparr>act_default := YStr ''out''\<rparr>,
         (opt_arg [''--simulator''] ''simulator'')\<lparr>act_default := YStr ''vcs''\<rparr>,
         (opt_arg [''--simulator_yaml''] ''simulator_yaml'')
           \<lparr>act_default := YStr (path_join (path_join (core_ibex file) ''yaml'') ''rtl_simulation.yaml'')\<rparr>,
         flag_arg [''-v'', ''--verbose''] ''verbose'', (opt_arg [''--cmp_opts''] ''cmp_opts'')\<lparr>act_default := YStr []\<rparr>,
         flag_arg [''--en_cov''] ''en_cov'', flag_arg [''--en_wave''] ''en_wave'', flag_arg [''--en_cosim''] ''en_cosim'',
         (opt_arg [''--steps''] ''steps'')\<lparr>act_default := YStr ''all''\<rparr>, opt_arg [''--lsf_cmd''] ''lsf_cmd''],
      parser_defaults = []\<rparr>"

definition sim_args_of :: "namespace \<Rightarrow> sim_args" where
  "sim_args_of n =
     \<lparr>sa_o = ns_str n ''o'', sa_simulator = ns_str n ''simulator'', sa_cmp_opts = ns_str n ''cmp_opts'',
      sa_en_cov = ns_bool n ''en_cov'', sa_en_wave = ns_bool n ''en_wave'', sa_en_cosim = ns_bool n ''en_cosim'',
      sa_steps = ns_str n ''steps'', sa_lsf_cmd = ns_opt_str n ''lsf_cmd''\<rparr>"

text \<open>\<^verbatim>\<open>sim.py\<close> with its exit; the flag \<^verbatim>\<open>--verbose\<close> only chooses the log level.\<close>

definition sim_cli ::
  "(string \<Rightarrow> outcome) \<Rightarrow> (string \<times> string list) list \<Rightarrow> (string \<Rightarrow> string option) \<Rightarrow> string \<Rightarrow>
   (string \<Rightarrow> yval py_res) \<Rightarrow> string list \<Rightarrow> string list \<times> string \<times> int py_res" where
  "sim_cli sh walk environ file yaml argv =
     (case parse_args no_subs (sim_parser file) argv of
        Inl e \<Rightarrow> ([], [], Inl e)
      | Inr n \<Rightarrow>
          (case sim_main sh walk environ (yaml (ns_str n ''simulator_yaml'')) (sim_args_of n) of
             (cmds, r) \<Rightarrow> (cmds, sim_exit r)))"

definition list_tests_parser :: arg_parser where
  "list_tests_parser =
     \<lparr>actions =
        [help_action, (opt_arg [''--start_seed''] ''start_seed'')\<lparr>conv := int_conv, act_default := YInt 1\<rparr>,
         req_arg [''--test''] ''test'', (opt_arg [''--iterations''] ''iterations'')\<lparr>conv := int_conv, act_default := YInt 0\<rparr>,
         req_arg [''--ibex-config''] ''ibex_config''],
      parser_defaults = []\<rparr>"

text \<open>\<open>config\<close> is the configuration of a name in the file of the repository, \<open>n\<close> the recursion limit.\<close>

definition list_tests_cli ::
  "nat \<Rightarrow> (string \<Rightarrow> yval py_res) \<Rightarrow> (string \<Rightarrow> yval py_res) \<Rightarrow> string \<Rightarrow> string list \<Rightarrow> (string list \<times> int) py_res option" where
  "list_tests_cli n yaml config file argv =
     (case parse_args no_subs list_tests_parser argv of
        Inl e \<Rightarrow> Some (Inl e)
      | Inr a \<Rightarrow>
          list_tests_main n yaml (config (ns_str a ''ibex_config'')) (core_ibex file) (riscv_dv_root file)
            (ns_int a ''start_seed'') (ns_str a ''test'') (ns_int a ''iterations'') (ns_str a ''ibex_config''))"

definition collect_parser :: arg_parser where
  "collect_parser =
     \<lparr>actions = [help_action, req_arg [''--output_dir'', ''-o''] ''output_dir'', pos_arg ''test_run_result'' NStar],
      parser_defaults = []\<rparr>"

definition collect_cli ::
    "(string \<Rightarrow> yval py_res) \<Rightarrow> ((string \<times> test_case list) list \<Rightarrow> string) \<Rightarrow> (nat \<Rightarrow> nat \<Rightarrow> string) \<Rightarrow>
     string list \<Rightarrow> ((string \<times> string) list \<times> string \<times> int) py_res" where
  "collect_cli load to_xml pct argv =
     bind_res (parse_args no_subs collect_parser argv) (\<lambda>n.
       collect_main load to_xml pct (ns_str n ''output_dir'') (ns_strs n ''test_run_result''))"

section \<open>Tools\<close>

definition check_parser :: arg_parser where
  "check_parser = \<lparr>actions = [help_action, pos_arg ''tool'' NStar], parser_defaults = []\<rparr>"

definition check_cli ::
  "(string, tool_req) dict py_res \<Rightarrow> (tool_req \<Rightarrow> (bool \<times> string) py_res) \<Rightarrow> string list \<Rightarrow> (int \<times> log) py_res" where
  "check_cli reqs chk argv =
     bind_res (parse_args no_subs check_parser argv) (\<lambda>n. check_main reqs chk (remdups (ns_strs n ''tool'')))"

text \<open>A define for some files is kept as the text that was checked; reading it again gives the pair.\<close>

definition define_if_conv :: "(string \<Rightarrow> string + (string \<Rightarrow> bool)) \<Rightarrow> string \<Rightarrow> yval py_res" where
  "define_if_conv compile arg = bind_res (parse_define_if compile arg) (\<lambda>_. Inr (YStr arg))"

definition sv2v_parser :: "(string \<Rightarrow> string + (string \<Rightarrow> bool)) \<Rightarrow> arg_parser" where
  "sv2v_parser compile =
     \<lparr>actions =
        [help_action, pos_arg ''file_list'' NOne, flag_arg [''--verbose'', ''-v''] ''verbose'',
         append_arg [''--define'', ''-D''] ''defines'',
         (append_arg [''--define-if''] ''defines_if'')\<lparr>conv := define_if_conv compile\<rparr>,
         append_arg [''--incdir'', ''-I''] ''incdirs'', opt_arg [''--incdir-list''] ''incdir_list'',
         (opt_arg [''--sv2v''] ''sv2v'')\<lparr>act_default := YStr ''sv2v''\<rparr>],
      parser_defaults = []\<rparr>"

definition sv2v_args_of :: "(string \<Rightarrow> string + (string \<Rightarrow> bool)) \<Rightarrow> namespace \<Rightarrow> sv2v_args" where
  "sv2v_args_of compile n =
     \<lparr>sa_sv2v = ns_str n ''sv2v'', sa_defines = ns_strs n ''defines'',
      sa_defines_if = concat (map (\<lambda>s. case parse_define_if compile s of Inl _ \<Rightarrow> [] | Inr d \<Rightarrow> [d]) (ns_strs n ''defines_if'')),
      sa_incdirs = ns_strs n ''incdirs''\<rparr>"

definition sv2v_cli ::
    "(string \<Rightarrow> string + (string \<Rightarrow> bool)) \<Rightarrow> converter \<Rightarrow> string \<Rightarrow> string list \<Rightarrow> fs \<Rightarrow> log \<times> fs \<times> int py_res" where
  "sv2v_cli compile cv tmpdir argv files =
     (case parse_args no_subs (sv2v_parser compile) argv of
        Inl e \<Rightarrow> ([], files, Inl e)
      | Inr n \<Rightarrow> sv2v_main cv tmpdir (ns_str n ''file_list'') (sv2v_args_of compile n) (ns_opt_str n ''incdir_list'') files)"

section \<open>Every order of the options of \<^verbatim>\<open>compare.py\<close>\<close>

definition compare_options :: "string list" where
  "compare_options =
     [''--instr-gen-bin-dir'', ''--iss'', ''--iss-log-dir'', ''--start-seed'', ''--test-dot-seed'', ''--rtl-log-dir'', ''--output'']"

fun well_typed :: "string \<times> string \<Rightarrow> bool" where
  "well_typed (k, v) \<longleftrightarrow>
     (if k = ''--iss'' then v = ''spike'' \<or> v = ''ovpsim''
      else if k = ''--start-seed'' then py_int 10 v \<noteq> None
      else if k = ''--test-dot-seed'' then (case read_test_dot_seed v of Inl _ \<Rightarrow> False | Inr _ \<Rightarrow> True)
      else True)"

text \<open>The value that counts is the last one.\<close>

definition last_value :: "(string \<times> string) list \<Rightarrow> string \<Rightarrow> string" where
  "last_value kvs k = (case map_of (rev kvs) k of None \<Rightarrow> [] | Some v \<Rightarrow> v)"

definition compare_args_for :: "(string \<times> string) list \<Rightarrow> compare_args" where
  "compare_args_for kvs =
     (let ts = projr (read_test_dot_seed (last_value kvs ''--test-dot-seed'')) in
      \<lparr>ca_instr_gen_bin_dir = last_value kvs ''--instr-gen-bin-dir'', ca_iss = last_value kvs ''--iss'',
       ca_iss_log_dir = last_value kvs ''--iss-log-dir'',
       ca_start_seed = the (py_int 10 (last_value kvs ''--start-seed'')), ca_test = fst ts, ca_seed = snd ts,
       ca_rtl_log_dir = last_value kvs ''--rtl-log-dir'', ca_output = last_value kvs ''--output''\<rparr>)"

definition compare_action :: "string \<Rightarrow> action" where
  "compare_action k = the (map_of (option_map (actions compare_parser)) k)"

lemma compare_action_simps [simp]:
  "compare_action ''--instr-gen-bin-dir'' = req_arg [''--instr-gen-bin-dir''] ''instr_gen_bin_dir''"
  "compare_action ''--iss'' = (req_arg [''--iss''] ''iss'')\<lparr>choices := Some [YStr ''spike'', YStr ''ovpsim'']\<rparr>"
  "compare_action ''--iss-log-dir'' = req_arg [''--iss-log-dir''] ''iss_log_dir''"
  "compare_action ''--start-seed'' = (req_arg [''--start-seed''] ''start_seed'')\<lparr>conv := int_conv\<rparr>"
  "compare_action ''--test-dot-seed'' = (req_arg [''--test-dot-seed''] ''test_dot_seed'')\<lparr>conv := test_dot_seed_conv\<rparr>"
  "compare_action ''--rtl-log-dir'' = req_arg [''--rtl-log-dir''] ''rtl_log_dir''"
  "compare_action ''--output'' = req_arg [''--output''] ''output''"
  by (simp_all add: compare_action_def option_map_def compare_parser_def add_argument_defs)

definition compare_value :: "string \<times> string \<Rightarrow> yval" where
  "compare_value kv = projr (conv (compare_action (fst kv)) (snd kv))"

abbreviation compare_dest :: "string \<Rightarrow> string" where
  "compare_dest k \<equiv> act_dest (compare_action k)"

abbreviation compare_item :: "string \<times> string \<Rightarrow> item" where
  "compare_item kv \<equiv> (compare_action (fst kv), fst kv, Some (snd kv))"

lemma compare_item_ok:
  assumes "k \<in> set compare_options" "plain v"
  shows "item_ok (actions compare_parser) (compare_item (k, v)) \<and> stored (compare_item (k, v))"
  using assms
  by (auto simp: compare_options_def compare_parser_def option_map_def add_argument_defs plain_def)

lemma read_test_dot_seed_raises:
  "read_test_dot_seed v = Inl e \<Longrightarrow> (\<exists>m. e = ArgumentTypeError m) \<or> (\<exists>m. e = ValueError m)"
  by (auto simp: read_test_dot_seed_def split: option.splits)

lemma compare_item_pair:
  assumes "k \<in> set compare_options"
  shows "item_pair (compare_item (k, v)) =
    (if well_typed (k, v) then Inr (compare_dest k, compare_value (k, v)) else Inl (SystemExit 2))"
proof -
  have "item_pair (compare_item (''--test-dot-seed'', v)) = (if well_typed (''--test-dot-seed'', v)
      then Inr (compare_dest ''--test-dot-seed'', compare_value (''--test-dot-seed'', v)) else Inl (SystemExit 2))"
  proof (cases "read_test_dot_seed v")
    case (Inl e)
    with read_test_dot_seed_raises [OF Inl] show ?thesis
      by (auto simp: checked_value_def arg_value_def opt_arg_def test_dot_seed_conv_def)
  next
    case (Inr r)
    then show ?thesis
      by (simp add: checked_value_def arg_value_def check_value_def opt_arg_def test_dot_seed_conv_def
          compare_value_def split: prod.split)
  qed
  moreover have "item_pair (compare_item (''--start-seed'', v)) = (if well_typed (''--start-seed'', v)
      then Inr (compare_dest ''--start-seed'', compare_value (''--start-seed'', v)) else Inl (SystemExit 2))"
    by (simp add: checked_value_def arg_value_def check_value_def opt_arg_def int_conv_def compare_value_def
        split: option.split)
  ultimately show ?thesis
    using assms
    by (auto simp: compare_options_def checked_value_def arg_value_def check_value_def opt_arg_def str_conv_def
        compare_value_def simp del: well_typed.simps item_pair.simps)
       (simp_all add: checked_value_def arg_value_def check_value_def str_conv_def)
qed

definition compare_pairs :: "(string \<times> string) list \<Rightarrow> (string \<times> yval) list" where
  "compare_pairs kvs = map (\<lambda>kv. (compare_dest (fst kv), compare_value kv)) kvs"

abbreviation known :: "(string \<times> string) list \<Rightarrow> bool" where
  "known kvs \<equiv> list_all (\<lambda>(k, v). k \<in> set compare_options) kvs"

lemma compare_item_pairs:
  "known kvs \<Longrightarrow> map_res item_pair (map compare_item kvs) =
     (if list_all well_typed kvs then Inr (compare_pairs kvs) else Inl (SystemExit 2))"
proof (induction kvs)
  case (Cons kv kvs)
  obtain k v where kv: "kv = (k, v)" by (cases kv)
  have "k \<in> set compare_options" using Cons.prems by (simp add: kv)
  from compare_item_pair [OF this, of v] Cons show ?case
    by (simp add: kv compare_pairs_def del: well_typed.simps item_pair.simps)
qed (simp add: compare_pairs_def)

lemma compare_dest_inj:
  "k \<in> set compare_options \<Longrightarrow> k' \<in> set compare_options \<Longrightarrow> compare_dest k = compare_dest k' \<longleftrightarrow> k = k'"
proof -
  have "distinct (map compare_dest compare_options)" by (simp add: compare_options_def opt_arg_def)
  then have "inj_on compare_dest (set compare_options)" by (simp only: distinct_map)
  then show "k \<in> set compare_options \<Longrightarrow> k' \<in> set compare_options \<Longrightarrow> compare_dest k = compare_dest k' \<longleftrightarrow> k = k'"
    by (rule inj_on_eq_iff)
qed

lemma map_of_compare_pairs:
  assumes "known kvs" "k \<in> set compare_options"
  shows "map_of (compare_pairs kvs) (compare_dest k) = map_option (\<lambda>v. compare_value (k, v)) (map_of kvs k)"
  using assms(1)
proof (induction kvs)
  case (Cons kv kvs)
  then show ?case using compare_dest_inj [OF assms(2), of "fst kv"] by (cases kv) (auto simp: compare_pairs_def)
qed (simp add: compare_pairs_def)

lemma rev_compare_pairs: "rev (compare_pairs kvs) = compare_pairs (rev kvs)"
  by (simp add: compare_pairs_def rev_map)

lemma compare_ns_get:
  assumes "known kvs" "k \<in> set compare_options" "k \<in> set (map fst kvs)"
  shows "ns_get (set_all (compare_pairs kvs) n) (compare_dest k) = compare_value (k, last_value kvs k)"
proof -
  have "known (rev kvs)" using assms(1) by (auto simp: list_all_iff)
  note m = map_of_compare_pairs [OF this assms(2)]
  have "map_of (rev kvs) k \<noteq> None" using assms(3) by (simp add: map_of_eq_None_iff)
  then obtain v where "map_of (rev kvs) k = Some v" by auto
  then show ?thesis
    by (simp add: ns_get_def dict_get_set_all rev_compare_pairs m last_value_def)
qed

lemma compare_finish:
  assumes "known kvs"
  shows "finish_args compare_parser (store_pairs (compare_pairs kvs) (initial_state compare_parser)) =
    (if list_all (\<lambda>k. k \<in> set (map fst kvs)) compare_options
     then Inr (set_all (compare_pairs kvs) (initial_ns compare_parser), []) else Inl (SystemExit 2))"
proof -
  let ?s = "store_pairs (compare_pairs kvs) (initial_state compare_parser)"
  have "fold_res convert_default (actions compare_parser) s = Inr s" for s
    by (simp add: compare_parser_def add_argument_defs convert_default_def)
  moreover have "all_required compare_parser ?s \<longleftrightarrow> list_all (\<lambda>k. compare_dest k \<in> set (seen ?s)) compare_options"
    by (simp add: all_required_def compare_parser_def compare_options_def add_argument_defs)
  moreover have "compare_dest k \<in> set (seen ?s) \<longleftrightarrow> k \<in> set (map fst kvs)" if "k \<in> set compare_options" for k
    using compare_dest_inj [OF that] assms
    by (force simp: store_pairs_def initial_state_def compare_pairs_def list_all_iff)
  ultimately show ?thesis
    by (simp add: finish_args_def store_pairs_def initial_state_def list_all_iff)
qed

lemma well_typed_last:
  assumes "list_all well_typed kvs" "k \<in> set (map fst kvs)"
  shows "well_typed (k, last_value kvs k)"
proof -
  have "map_of (rev kvs) k \<noteq> None" using assms(2) by (simp add: map_of_eq_None_iff)
  then obtain v where v: "map_of (rev kvs) k = Some v" by auto
  then have "(k, v) \<in> set kvs" by (auto dest: map_of_SomeD)
  with assms(1) v show ?thesis by (simp add: list_all_iff last_value_def del: well_typed.simps)
qed

lemma compare_args_of_pairs:
  assumes "known kvs" "list_all well_typed kvs" "list_all (\<lambda>k. k \<in> set (map fst kvs)) compare_options"
  shows "compare_args_of (set_all (compare_pairs kvs) n) = compare_args_for kvs"
proof -
  have m: "k \<in> set (map fst kvs)" if "k \<in> set compare_options" for k
    using assms(3) that by (simp add: list_all_iff)
  have get: "ns_get (set_all (compare_pairs kvs) n) (compare_dest k) = compare_value (k, last_value kvs k)"
    "well_typed (k, last_value kvs k)" if "k \<in> set compare_options" for k
    using compare_ns_get [OF assms(1) that m [OF that]] well_typed_last [OF assms(2) m [OF that]] by blast+
  have strs: "ns_get (set_all (compare_pairs kvs) n) (compare_dest k) = YStr (last_value kvs k)"
    if "k \<in> set compare_options" "conv (compare_action k) = str_conv" for k
    using get(1) [OF that(1)] that(2) by (simp add: compare_value_def str_conv_def)
  obtain i where i: "py_int 10 (last_value kvs ''--start-seed'') = Some i"
    using get(2) [of "''--start-seed''"] by (auto simp: compare_options_def)
  obtain t sd where t: "read_test_dot_seed (last_value kvs ''--test-dot-seed'') = Inr (t, sd)"
    using get(2) [of "''--test-dot-seed''"] by (auto simp: compare_options_def split: sum.splits)
  have "ns_get (set_all (compare_pairs kvs) n) ''start_seed'' = YInt i"
    using get(1) [of "''--start-seed''"] i by (simp add: compare_options_def compare_value_def opt_arg_def int_conv_def)
  moreover have "ns_get (set_all (compare_pairs kvs) n) ''test_dot_seed'' = YSeq [YStr t, YInt sd]"
    using get(1) [of "''--test-dot-seed''"] t
    by (simp add: compare_options_def compare_value_def opt_arg_def test_dot_seed_conv_def)
  ultimately show ?thesis
    using strs [of "''--instr-gen-bin-dir''"] strs [of "''--iss''"] strs [of "''--iss-log-dir''"] strs [of "''--rtl-log-dir''"]
      strs [of "''--output''"] i t
    by (simp add: compare_args_of_def compare_args_for_def ns_str_def ns_int_def ns_test_seed_def opt_arg_def Let_def
        compare_options_def)
qed

text \<open>
  C30. The command line of \<^verbatim>\<open>compare.py\<close>: for every list of its options with their values, in any order
  and with repetitions, the program compares with the last value of each option when all seven are
  given and every value has the type of its option; otherwise it exits with status 2 and touches
  nothing. A value may be any string that does not begin with a dash.
\<close>

theorem compare_options_any_order:
  assumes "list_all (\<lambda>(k, v). k \<in> set compare_options \<and> plain v) kvs"
  shows "compare_cli sh creatable get_entry fs (concat (map (\<lambda>(k, v). [k, v]) kvs)) =
    (if list_all well_typed kvs \<and> list_all (\<lambda>k. k \<in> set (map fst kvs)) compare_options
     then compare_main sh creatable get_entry fs (compare_args_for kvs) else ([], fs, Inl (SystemExit 2)))"
proof -
  have k: "known kvs" using assms by (auto simp: list_all_iff)
  have ok: "list_all (item_ok (actions compare_parser)) (map compare_item kvs)" "list_all stored (map compare_item kvs)"
    using assms compare_item_ok by (auto simp: list_all_iff)
  have r: "concat (map (\<lambda>(k, v). [k, v]) kvs) = concat (map render_item (map compare_item kvs))"
    by (induction kvs) auto
  have "positionals compare_parser = []" by (simp add: positionals_def compare_parser_def add_argument_defs)
  from parse_stored [OF ok this, of no_subs] compare_item_pairs [OF k] compare_finish [OF k]
    compare_args_of_pairs [OF k]
  show ?thesis unfolding r compare_cli_def parse_args_def by simp
qed

definition demo_options :: "(string \<times> string) list" where
  "demo_options =
     [(''--iss'', ''ovpsim''), (''--output'', ''o''), (''--start-seed'', ''1''), (''--iss'', ''spike''),
      (''--test-dot-seed'', ''arith.3''), (''--instr-gen-bin-dir'', ''b''), (''--iss-log-dir'', ''s''), (''--rtl-log-dir'', ''r'')]"

lemma demo_test_seed: "read_test_dot_seed ''arith.3'' = Inr (''arith'', 3)"
proof -
  have "nat_str 10 3 = ''3''" by code_simp
  then show ?thesis using read_test_dot_seed_text [of "''arith''" 3] by (simp add: int_str_def)
qed

theorem compare_options_any_order_witness:
  "compare_cli (\<lambda>_ f. f) (\<lambda>_. True) (\<lambda>_. Inl (RuntimeError ''no entry'')) (\<lambda>_. None)
     (concat (map (\<lambda>(k, v). [k, v]) demo_options)) =
   compare_main (\<lambda>_ f. f) (\<lambda>_. True) (\<lambda>_. Inl (RuntimeError ''no entry'')) (\<lambda>_. None)
     \<lparr>ca_instr_gen_bin_dir = ''b'', ca_iss = ''spike'', ca_iss_log_dir = ''s'', ca_start_seed = 1, ca_test = ''arith'',
      ca_seed = 3, ca_rtl_log_dir = ''r'', ca_output = ''o''\<rparr>"
proof -
  have p: "py_int 10 ''1'' = Some 1" by code_simp
  have "list_all (\<lambda>(k, v). k \<in> set compare_options \<and> plain v) demo_options"
    by (simp add: demo_options_def compare_options_def plain_def)
  from compare_options_any_order [OF this, of "\<lambda>_ f. f" "\<lambda>_. True" "\<lambda>_. Inl (RuntimeError ''no entry'')" "\<lambda>_. None"]
  show ?thesis
    by (simp add: demo_options_def compare_options_def p demo_test_seed compare_args_for_def last_value_def)
qed

section \<open>Where the files of \<^verbatim>\<open>compare_trace.py\<close> may stand\<close>

abbreviation skip_flag :: action where "skip_flag \<equiv> flag_arg [''-k'', ''--skip_isr''] ''skip_isr''"
abbreviation files_arg :: action where "files_arg \<equiv> pos_arg ''files'' NStar"
abbreviation trace_acts :: "action list" where "trace_acts \<equiv> actions compare_trace_parser"

lemma trace_parser_simps:
  "positionals compare_trace_parser = [files_arg]"
  "initial_state compare_trace_parser =
     \<lparr>ns = [(''skip_isr'', YBool False), (''files'', YNull)], seen = [], extras = []\<rparr>"
  by (simp_all add: positionals_def compare_trace_parser_def initial_state_def initial_ns_def add_argument_defs
      dict_set_def dict_has_def)

lemma take_strings:
  "list_all plain xs \<Longrightarrow> take_action sub (pos_arg d NStar) xs s =
     Inr (s\<lparr>seen := d # seen s, ns := dict_set d (YSeq (map YStr xs)) (ns s)\<rparr>)"
proof -
  assume xs: "list_all plain xs"
  then have "''--'' \<notin> set xs" by (auto simp: list_all_iff dest: plain_not_dashes)
  then have r: "remove1 ''--'' xs = xs" by (rule remove1_idem)
  have "map_res (arg_value (pos_arg d NStar)) xs = Inr (map YStr xs)"
    by (rule map_res_total) (simp add: arg_value_def pos_arg_def str_conv_def)
  moreover have "map_res (check_value (pos_arg d NStar)) vs = Inr (map (\<lambda>_. ()) vs)" for vs
    by (rule map_res_total) (simp add: check_value_def pos_arg_def)
  ultimately show ?thesis
    by (cases "xs = []") (simp_all add: take_action_def get_values_def r check_value_def pos_arg_def)
qed

lemma trace_finish:
  assumes "''files'' \<in> set (seen s)"
  shows "finish_args compare_trace_parser s = Inr (ns s, extras s)"
  using assms by (simp add: finish_args_def all_required_def compare_trace_parser_def convert_default_def add_argument_defs)

text \<open>The strings before the first option, when there are any, are all the files there will be.\<close>

lemma trace_flag_item: "item_ok trace_acts (skip_flag, ''-k'', None)"
  by (simp add: compare_trace_parser_def option_map_def add_argument_defs plain_def)

lemma take_files_first:
  assumes "list_all plain xs" "xs \<noteq> []"
  shows "take_positionals sub [files_arg] (args_of xs @ (''-k'', TagO ot) # rest) s =
    bind_res (take_action sub files_arg xs s) (\<lambda>t. Inr ([], length xs, t))"
proof -
  let ?tags = "map snd (args_of xs @ (''-k'', TagO ot) # rest)"
  have "takeWhile (\<lambda>t. \<not> is_opt t) ?tags = replicate (length xs) TagA"
    by (induction xs) auto
  then have "pos_counts NStar ?tags = rev [0..<Suc (length xs)]" by (simp add: pos_counts_def)
  then have "match_positionals [NStar] ?tags = Some [length xs]" by simp
  then have c: "match_partial (map act_nargs [files_arg]) ?tags = [length xs]"
    by (intro match_partial_all) (simp_all add: pos_arg_def)
  show ?thesis
    unfolding take_positionals_def Let_def c by (simp add: comp_def)
qed

lemma arg_loop_files_first:
  assumes "list_all plain xs" "xs \<noteq> []"
  shows "arg_loop sub trace_acts [files_arg] (args_of xs @ (''-k'', TagO ot) # rest) s =
    bind_res (take_action sub files_arg xs s) (\<lambda>t. arg_loop sub trace_acts [] ((''-k'', TagO ot) # rest) t)"
proof -
  have d: "dropWhile (\<lambda>(str, t). \<not> is_opt t) (args_of xs @ (''-k'', TagO ot) # rest) = (''-k'', TagO ot) # rest"
    "takeWhile (\<lambda>(str, t). \<not> is_opt t) (args_of xs @ (''-k'', TagO ot) # rest) = args_of xs"
    by (induction xs) auto
  show ?thesis
    by (subst arg_loop.simps, subst d, unfold take_files_first [OF assms])
       (use assms(2) in \<open>auto simp: d bind_res_def Let_def split: sum.split\<close>)
qed

text \<open>
  C35. Where the traces may stand on the command line of \<^verbatim>\<open>compare_trace.py\<close>: with the flag \<^verbatim>\<open>-k\<close> in front
  of them or behind them the program compares them with the handlers skipped, but with the flag between
  them it exits with status 2: the strings before an option are taken for all the files there are.
\<close>

theorem compare_trace_files:
  assumes "list_all plain xs" "list_all plain ys"
  shows "compare_trace_cli fs (xs @ [''-k''] @ ys) =
      (if xs = [] \<or> ys = [] then compare_trace_main fs True (xs @ ys) else Inl (SystemExit 2)) \<and>
    compare_trace_cli fs xs = compare_trace_main fs False xs"
proof -
  let ?flag = "(skip_flag, ''-k'', None) :: item"
  let ?start = "initial_state compare_trace_parser"
  have tag: "classify trace_acts (xs @ ''-k'' # ys) = Inr (args_of xs @ tag_item ?flag @ args_of ys)"
    using classify_plain_append [OF assms(1), of trace_acts "''-k'' # ys"]
      classify_items [of trace_acts "[?flag]" ys] trace_flag_item assms(2) by simp
  have flag: "take_action no_subs skip_flag [] s =
      Inr (s\<lparr>seen := ''skip_isr'' # seen s, ns := dict_set ''skip_isr'' (YBool True) (ns s)\<rparr>)" for s
    by (simp add: take_action_def get_values_def flag_arg_def)
  have last: "arg_loop no_subs trace_acts [files_arg] (args_of zs) s = take_action no_subs files_arg zs s"
    if "list_all plain zs" for zs s
    using take_positionals_rest [of "[]" zs files_arg no_subs s] take_strings [OF that]
    by (simp add: arg_loop_end pos_arg_def)
  have extra: "arg_loop no_subs trace_acts [] (args_of zs) s = Inr (s\<lparr>extras := extras s @ zs\<rparr>)" for zs s
    by (simp add: arg_loop_end)
  have "compare_trace_cli fs (xs @ ''-k'' # ys) =
      (if xs = [] \<or> ys = [] then compare_trace_main fs True (xs @ ys) else Inl (SystemExit 2))"
  proof (cases "xs = []")
    case True
    then have "parse_args no_subs compare_trace_parser (xs @ ''-k'' # ys) =
        Inr [(''skip_isr'', YBool True), (''files'', YSeq (map YStr ys))]"
      using tag arg_loop_item [OF trace_flag_item, of no_subs "[files_arg]" "args_of ys" ?start]
      by (simp add: parse_args_def parse_known_args_def trace_parser_simps flag last [OF assms(2)] take_strings [OF assms(2)]
          trace_finish dict_set_def)
    with True show ?thesis by (simp add: compare_trace_cli_def ns_bool_def ns_strs_def ns_get_def the_strs_def comp_def str_val_def dict_get_def)
  next
    case False
    then have "parse_args no_subs compare_trace_parser (xs @ ''-k'' # ys) =
        (if ys = [] then Inr [(''skip_isr'', YBool True), (''files'', YSeq (map YStr xs))] else Inl (SystemExit 2))"
      using tag arg_loop_files_first [OF assms(1) False, of no_subs _ "args_of ys" ?start]
        arg_loop_item [OF trace_flag_item, of no_subs "[]" "args_of ys"]
      by (simp add: parse_args_def parse_known_args_def trace_parser_simps flag extra take_strings [OF assms(1)]
          trace_finish dict_set_def)
    with False show ?thesis by (simp add: compare_trace_cli_def ns_bool_def ns_strs_def ns_get_def the_strs_def comp_def str_val_def dict_get_def)
  qed
  moreover have "parse_args no_subs compare_trace_parser xs = Inr [(''skip_isr'', YBool False), (''files'', YSeq (map YStr xs))]"
    using assms(1) by (simp add: parse_args_def parse_known_args_def trace_parser_simps last take_strings trace_finish dict_set_def)
  ultimately show ?thesis
    by (simp add: compare_trace_cli_def ns_bool_def ns_strs_def ns_get_def the_strs_def comp_def str_val_def dict_get_def)
qed

theorem compare_trace_files_witness:
  "compare_trace_cli two_files [''i'', ''-k'', ''s''] = Inl (SystemExit 2) \<and>
   compare_trace_cli two_files [''i'', ''s''] = compare_trace_main two_files False [''i'', ''s'']"
  using compare_trace_files [of "[''i'']" "[''s'']" two_files] compare_trace_files [of "[''i'', ''s'']" "[]" two_files]
  by (simp add: plain_def)

section \<open>The results to collect\<close>

lemma ns_strs_of [simp]: "dict_get n k = Some (YSeq (map YStr xs)) \<Longrightarrow> ns_strs n k = xs"
  by (simp add: ns_strs_def ns_get_def the_strs_def comp_def str_val_def)

text \<open>The command line that the makefile writes.\<close>

lemma collect_cli_paths:
  assumes "plain out" "list_all plain paths"
  shows "collect_cli load to_xml pct (''-o'' # out # paths) = collect_main load to_xml pct out paths"
proof -
  let ?a = "req_arg [''--output_dir'', ''-o''] ''output_dir''" and ?p = "pos_arg ''test_run_result'' NStar"
  let ?item = "(?a, ''-o'', Some out) :: item"
  have ok: "list_all (item_ok (actions collect_parser)) [?item]"
    using assms(1) by (simp add: collect_parser_def option_map_def add_argument_defs plain_def)
  have pos: "positionals collect_parser = [?p]" by (simp add: positionals_def collect_parser_def add_argument_defs)
  have "take_positionals no_subs [?p] (args_of paths) s =
      Inr ([], length paths, s\<lparr>seen := ''test_run_result'' # seen s,
        ns := dict_set ''test_run_result'' (YSeq (map YStr paths)) (ns s)\<rparr>)" for s
    using take_positionals_rest [of "[]" paths ?p no_subs s] take_strings [OF assms(2), of no_subs "''test_run_result''" s]
    by (simp add: pos_arg_def)
  then have "parse_args no_subs collect_parser (''-o'' # out # paths) =
      Inr [(''output_dir'', YStr out), (''test_run_result'', YSeq (map YStr paths))]"
    using parse_known_rendered [OF ok assms(2), of no_subs] assms(1)
    by (simp add: parse_args_def pos take_all_Cons) (simp add: arg_eval collect_parser_def)
  then show ?thesis by (simp add: collect_cli_def ns_str_def ns_get_def dict_get_def)
qed

end
